(* ===== verification/Rotor_Prelude.thy ===== *)
theory Rotor_Prelude
  imports Main "HOL-Library.Multiset"
begin

text \<open>
  Shared vocabulary of the rotor-cipher development.

  \<^item> \<open>py_error\<close>: the Python exceptions the two device classes can raise
    (\<open>list.index\<close> raises ValueError, a subscript or \<open>pop\<close> out of range raises
    IndexError, \<open>%\<close> by zero raises ZeroDivisionError). A computation that may
    raise has result type \<open>'a result\<close>, with \<open>Inl\<close> for the exception.
  \<^item> A method that mutates the device has type \<open>('s, 'a) prog\<close>: it takes the
    state and returns the result together with the state the call leaves behind,
    \<^emph>\<open>also when it raises\<close> (an exception does not undo earlier mutations).
  \<^item> \<open>py_index\<close>, \<open>py_getitem\<close>, \<open>py_setitem\<close>, \<open>py_mod\<close>: the list and integer
    primitives of Python the sources call, with their failure cases; \<open>pos\<close> is
    the total position function the results are stated with.
  \<^item> \<open>py_print\<close>: one call of \<open>print\<close> on a standard output that is a string;
    \<open>py_str_int\<close> and \<open>string_of_nat\<close>: \<open>str\<close> of an integer.
  \<^item> \<open>for_each_char\<close>: the loop over the characters of a text that all four
    methods \<open>encrypt\<close> and \<open>decrypt\<close> share, with the rules to reason about it
    once (append, invariants, the exception-free run \<open>keystream\<close>, simulation
    between two loops).
  \<^item> the collections \<open>rotor_defs\<close> (unfolding of the per-character steps) and
    \<open>rotor_wf\<close> (well-formedness facts used as simp rules by the components).
\<close>

datatype py_error = ValueError | IndexError | ZeroDivisionError

type_synonym 'a result = "py_error + 'a"

type_synonym ('s, 'a) prog = "'s \<Rightarrow> 'a result \<times> 's"

named_theorems rotor_defs "definitions of the per-character steps of the devices"

named_theorems rotor_wf "well-formedness facts of rotors and devices"

text \<open>\<open>xs.index(x)\<close>: the position of the first element equal to \<open>x\<close>, ValueError
  when there is none.\<close>

fun py_index :: "'a list \<Rightarrow> 'a \<Rightarrow> nat result" where
  "py_index [] x = Inl ValueError"
| "py_index (y # ys) x = (if y = x then Inr 0 else map_sum id Suc (py_index ys x))"

text \<open>\<open>xs[i]\<close> for an index \<open>i \<ge> 0\<close> (the sources only subscript with results of
  \<open>index\<close> and with the rotor cursor, which are never negative).\<close>

definition py_getitem :: "'a list \<Rightarrow> nat \<Rightarrow> 'a result" where
  "py_getitem xs i = (if i < length xs then Inr (xs ! i) else Inl IndexError)"

text \<open>\<open>a % b\<close> on non-negative operands.\<close>

definition py_setitem :: "'a list \<Rightarrow> nat \<Rightarrow> 'a \<Rightarrow> 'a list result" where
  "py_setitem xs i v = (if i < length xs then Inr (xs[i := v]) else Inl IndexError)"

definition py_mod :: "nat \<Rightarrow> nat \<Rightarrow> nat result" where
  "py_mod a b = (if b = 0 then Inl ZeroDivisionError else Inr (a mod b))"

text \<open>\<open>print\<close> on standard output, a string: the arguments joined by spaces, then a
  newline. \<open>py_str_int\<close> is \<open>str\<close> of an integer, \<open>string_of_nat\<close> of a natural number.\<close>

fun py_join :: "string \<Rightarrow> string list \<Rightarrow> string" where
  "py_join sep [] = []"
| "py_join sep [x] = x"
| "py_join sep (x # y # ys) = x @ sep @ py_join sep (y # ys)"

definition py_print :: "string list \<Rightarrow> string \<Rightarrow> string" where
  "py_print args out = out @ py_join '' '' args @ [CHR 0x0A]"

fun string_of_nat :: "nat \<Rightarrow> string" where
  "string_of_nat n =
     (if 10 \<le> n then string_of_nat (n div 10) @ [''0123456789'' ! (n mod 10)]
      else [''0123456789'' ! n])"

definition py_str_int :: "int \<Rightarrow> string" where
  "py_str_int i = (if i < 0 then ''-'' @ string_of_nat (nat (- i)) else string_of_nat (nat i))"

text \<open>The position \<open>index\<close> returns, as a total function: the length of the list
  when the element is absent. Used to state results, never to model a call.\<close>

definition pos :: "'a list \<Rightarrow> 'a \<Rightarrow> nat" where
  "pos xs x = (case py_index xs x of Inl _ \<Rightarrow> length xs | Inr i \<Rightarrow> i)"

text \<open>
  The loop both methods of both classes are written as:
  \<^verbatim>\<open>out = ''; for char in text: ...  out += k; return out\<close>,
  where the body computes one character \<open>k\<close> from \<open>char\<close>, may mutate the
  device and may raise. The arguments are the body, the characters still to
  process, the output accumulated so far and the state.
\<close>

fun for_each_char :: "('c \<Rightarrow> ('s, 'o) prog) \<Rightarrow> 'c list \<Rightarrow> 'o list \<Rightarrow> ('s, 'o list) prog" where
  "for_each_char body [] out s = (Inr out, s)"
| "for_each_char body (c # cs) out s =
     (case body c s of
        (Inl e, s') \<Rightarrow> (Inl e, s')
      | (Inr k, s') \<Rightarrow> for_each_char body cs (out @ [k]) s')"

text \<open>The exception-free reading of such a loop: an output function \<open>f\<close> of state
  and character, and a state transformer \<open>g\<close> applied after every character.\<close>

fun keystream :: "('s \<Rightarrow> 'c \<Rightarrow> 'o) \<Rightarrow> ('s \<Rightarrow> 's) \<Rightarrow> 's \<Rightarrow> 'c list \<Rightarrow> 'o list" where
  "keystream f g s [] = []"
| "keystream f g s (c # cs) = f s c # keystream f g (g s) cs"

text \<open>The texts such a run accepts: every character is in the set \<open>A\<close> allows in
  the state the run has reached.\<close>

fun admitted :: "('s \<Rightarrow> 'c set) \<Rightarrow> ('s \<Rightarrow> 's) \<Rightarrow> 's \<Rightarrow> 'c list \<Rightarrow> bool" where
  "admitted A g s [] \<longleftrightarrow> True"
| "admitted A g s (c # cs) \<longleftrightarrow> c \<in> A s \<and> admitted A g (g s) cs"

subsection \<open>Facts about the primitives\<close>

declare string_of_nat.simps [simp del]

lemma map_sum_id_Inl_iff [simp]: "map_sum id f r = Inl e \<longleftrightarrow> r = Inl e"
  by (cases r) auto

lemma map_sum_id_Inr_iff [simp]: "map_sum id f r = Inr i \<longleftrightarrow> (\<exists>j. r = Inr j \<and> i = f j)"
  by (cases r) auto

lemma py_index_Inl_iff: "py_index xs x = Inl e \<longleftrightarrow> e = ValueError \<and> x \<notin> set xs"
  by (induction xs) auto

lemma py_index_notin [simp]: "x \<notin> set xs \<Longrightarrow> py_index xs x = Inl ValueError"
  by (simp add: py_index_Inl_iff)

lemma py_index_Inr_iff:
  "py_index xs x = Inr i \<longleftrightarrow> i < length xs \<and> xs ! i = x \<and> x \<notin> set (take i xs)"
proof (induction xs arbitrary: i)
  case Nil
  show ?case by simp
next
  case (Cons y ys)
  show ?case
  proof (cases i)
    case 0
    then show ?thesis by auto
  next
    case (Suc j)
    then show ?thesis by (auto simp: Cons.IH)
  qed
qed

lemma py_index_in_set: "x \<in> set xs \<Longrightarrow> \<exists>i. py_index xs x = Inr i"
  by (cases "py_index xs x") (auto simp: py_index_Inl_iff)

lemma py_index_nth_distinct [simp]:
  "distinct xs \<Longrightarrow> i < length xs \<Longrightarrow> py_index xs (xs ! i) = Inr i"
  by (auto simp: py_index_Inr_iff in_set_conv_nth nth_eq_iff_index_eq)

lemma py_index_nth: "py_index xs x = Inr i \<Longrightarrow> xs ! i = x"
  by (simp add: py_index_Inr_iff)

lemma py_index_less: "py_index xs x = Inr i \<Longrightarrow> i < length xs"
  by (simp add: py_index_Inr_iff)

lemma py_getitem_Inr_iff: "py_getitem xs i = Inr x \<longleftrightarrow> i < length xs \<and> xs ! i = x"
  by (auto simp: py_getitem_def)

lemma py_getitem_Inl_iff: "py_getitem xs i = Inl e \<longleftrightarrow> e = IndexError \<and> length xs \<le> i"
  by (auto simp: py_getitem_def)

lemma py_getitem_less [simp]: "i < length xs \<Longrightarrow> py_getitem xs i = Inr (xs ! i)"
  by (simp add: py_getitem_def)

lemma py_getitem_beyond [simp]: "length xs \<le> i \<Longrightarrow> py_getitem xs i = Inl IndexError"
  by (simp add: py_getitem_def)

lemma py_getitem_index: "py_index xs x = Inr i \<Longrightarrow> py_getitem xs i = Inr x"
  by (simp add: py_index_Inr_iff)

lemma pos_index: "py_index xs x = Inr i \<Longrightarrow> pos xs x = i"
  by (simp add: pos_def)

lemma py_index_pos: "x \<in> set xs \<Longrightarrow> py_index xs x = Inr (pos xs x)"
  using py_index_in_set [of x xs] by (auto simp: pos_def)

lemma pos_less [simp]: "x \<in> set xs \<Longrightarrow> pos xs x < length xs"
  using py_index_pos [of x xs] by (simp add: py_index_Inr_iff)

lemma nth_pos [simp]: "x \<in> set xs \<Longrightarrow> xs ! pos xs x = x"
  using py_index_pos [of x xs] by (simp add: py_index_Inr_iff)

lemma pos_nth_distinct [simp]: "distinct xs \<Longrightarrow> i < length xs \<Longrightarrow> pos xs (xs ! i) = i"
  by (simp add: pos_def)

lemma py_mod_zero [simp]: "py_mod a 0 = Inl ZeroDivisionError"
  by (simp add: py_mod_def)

lemma py_mod_pos [simp]: "0 < b \<Longrightarrow> py_mod a b = Inr (a mod b)"
  by (simp add: py_mod_def)

subsection \<open>Facts about the character loop\<close>

lemma for_each_char_append:
  "for_each_char body (cs @ cs') out s =
     (case for_each_char body cs out s of
        (Inl e, s') \<Rightarrow> (Inl e, s')
      | (Inr out', s') \<Rightarrow> for_each_char body cs' out' s')"
  by (induction cs arbitrary: out s) (auto split: prod.splits sum.splits)

lemma for_each_char_out:
  "for_each_char body cs out s =
     (case for_each_char body cs [] s of
        (Inl e, s') \<Rightarrow> (Inl e, s')
      | (Inr out', s') \<Rightarrow> (Inr (out @ out'), s'))"
proof (induction cs arbitrary: out s)
  case Nil
  show ?case by simp
next
  case (Cons c cs)
  show ?case
    by (simp add: Cons.IH [of "out @ _"] Cons.IH [of "[_]"] split: prod.splits sum.splits)
qed

lemma for_each_char_two:
  "for_each_char body (cs @ cs') [] s =
     (case for_each_char body cs [] s of
        (Inl e, s') \<Rightarrow> (Inl e, s')
      | (Inr out1, s') \<Rightarrow>
          (case for_each_char body cs' [] s' of
             (Inl e, s'') \<Rightarrow> (Inl e, s'')
           | (Inr out2, s'') \<Rightarrow> (Inr (out1 @ out2), s'')))"
proof (cases "for_each_char body cs [] s")
  case (Pair r s')
  show ?thesis
  proof (cases r)
    case (Inl e)
    with Pair show ?thesis by (simp add: for_each_char_append)
  next
    case (Inr out1)
    with Pair show ?thesis
      by (simp add: for_each_char_append for_each_char_out [of body cs' out1 s'])
  qed
qed

lemma for_each_char_invariant:
  assumes step: "\<And>c s. I s \<Longrightarrow> I (snd (body c s))" and init: "I s"
  shows "I (snd (for_each_char body cs out s))"
  using init
proof (induction cs arbitrary: out s)
  case Nil
  then show ?case by simp
next
  case (Cons c cs)
  from Cons.prems have "I (snd (body c s))" by (rule step)
  with Cons.IH show ?case
    by (auto split: prod.splits sum.splits)
qed

lemma admitted_const [simp]: "admitted (\<lambda>_. A) g s cs \<longleftrightarrow> set cs \<subseteq> A"
  by (induction cs arbitrary: s) auto

lemma admitted_append:
  "admitted A g s (cs @ cs') \<longleftrightarrow> admitted A g s cs \<and> admitted A g ((g ^^ length cs) s) cs'"
  by (induction cs arbitrary: s) (auto simp: funpow_swap1)

lemma admitted_invariant:
  assumes step: "\<And>c s. I s \<Longrightarrow> c \<in> A s \<Longrightarrow> I (g s)"
    and init: "I s" and adm: "admitted A g s cs"
  shows "I ((g ^^ length cs) s)"
  using init adm
proof (induction cs arbitrary: s)
  case Nil
  then show ?case by simp
next
  case (Cons c cs)
  from Cons.prems have "I (g s)" using step [of s c] by simp
  with Cons.prems(2) have "I ((g ^^ length cs) (g s))" by (intro Cons.IH) simp_all
  then show ?case by (simp add: funpow_swap1)
qed

lemma for_each_char_keystream:
  assumes step: "\<And>c s. I s \<Longrightarrow> c \<in> A s \<Longrightarrow> body c s = (Inr (f s c), g s) \<and> I (g s)"
    and init: "I s" and adm: "admitted A g s cs"
  shows "for_each_char body cs out s = (Inr (out @ keystream f g s cs), (g ^^ length cs) s)"
  using init adm
proof (induction cs arbitrary: out s)
  case Nil
  show ?case by simp
next
  case (Cons c cs)
  from Cons.prems have b: "body c s = (Inr (f s c), g s)" and i: "I (g s)"
    using step [of s c] by simp_all
  from i Cons.prems(2) have "for_each_char body cs (out @ [f s c]) (g s) =
      (Inr ((out @ [f s c]) @ keystream f g (g s) cs), (g ^^ length cs) (g s))"
    by (intro Cons.IH) simp_all
  with b show ?case by (simp add: funpow_swap1)
qed

lemma for_each_char_no_error:
  assumes "\<And>c s. c \<in> set cs \<Longrightarrow> fst (body c s) \<noteq> Inl e"
  shows "fst (for_each_char body cs out s) \<noteq> Inl e"
  using assms
proof (induction cs arbitrary: out s)
  case Nil
  show ?case by simp
next
  case (Cons c cs)
  from Cons.prems [of c s] have "fst (body c s) \<noteq> Inl e" by simp
  moreover have "fst (for_each_char body cs out' s') \<noteq> Inl e" for out' s'
    by (rule Cons.IH) (simp add: Cons.prems)
  ultimately show ?case by (auto split: prod.splits sum.splits)
qed

lemma for_each_char_first_failure:
  assumes step: "\<And>c s. I s \<Longrightarrow> c \<in> A s \<Longrightarrow> body c s = (Inr (f s c), g s) \<and> I (g s)"
    and init: "I s" and adm: "admitted A g s pre"
    and fail: "body c ((g ^^ length pre) s) = (Inl e, s')"
  shows "for_each_char body (pre @ c # rest) out s = (Inl e, s')"
proof -
  have "for_each_char body pre out s = (Inr (out @ keystream f g s pre), (g ^^ length pre) s)"
    using step init adm by (rule for_each_char_keystream)
  with fail show ?thesis by (simp add: for_each_char_append)
qed

lemma for_each_char_simulation:
  assumes step: "\<And>c s t. R s t \<Longrightarrow> rel_prod (=) R (body1 c s) (body2 c t)" and init: "R s t"
  shows "rel_prod (=) R (for_each_char body1 cs out s) (for_each_char body2 cs out t)"
  using init
proof (induction cs arbitrary: out s t)
  case Nil
  then show ?case by simp
next
  case (Cons c cs)
  from Cons.prems have "rel_prod (=) R (body1 c s) (body2 c t)" by (rule step)
  with Cons.IH show ?case
    by (cases "body1 c s"; cases "body2 c t") (auto split: sum.splits)
qed

lemma length_keystream [simp]: "length (keystream f g s cs) = length cs"
  by (induction cs arbitrary: s) simp_all

lemma keystream_append:
  "keystream f g s (cs @ cs') = keystream f g s cs @ keystream f g ((g ^^ length cs) s) cs'"
  by (induction cs arbitrary: s) (simp_all add: funpow_swap1)

lemma nth_keystream:
  "k < length cs \<Longrightarrow> keystream f g s cs ! k = f ((g ^^ k) s) (cs ! k)"
proof (induction cs arbitrary: s k)
  case Nil
  then show ?case by simp
next
  case (Cons c cs)
  then show ?case by (cases k) (simp_all add: funpow_swap1)
qed

subsection \<open>Facts about lists shared by the components\<close>

lemma mset_rotate1 [simp]: "mset (rotate1 xs) = mset xs"
  by (cases xs) simp_all

lemma mset_rotate [simp]: "mset (rotate n xs) = mset xs"
  by (induction n) simp_all

lemma rotate_eq_self_distinct:
  assumes "distinct xs" and "xs \<noteq> []"
  shows "rotate n xs = xs \<longleftrightarrow> n mod length xs = 0"
proof
  assume eq: "rotate n xs = xs"
  from assms(2) have len: "0 < length xs" by simp
  have "hd (rotate n xs) = xs ! (n mod length xs)"
    using assms(2) by (rule hd_rotate_conv_nth)
  with eq have "xs ! 0 = xs ! (n mod length xs)"
    using assms(2) by (simp add: hd_conv_nth)
  with assms(1) len show "n mod length xs = 0"
    by (simp add: nth_eq_iff_index_eq)
next
  assume "n mod length xs = 0"
  then show "rotate n xs = xs" by simp
qed

lemma map_mset_update_same:
  assumes "mset ys = mset (xss ! i)"
  shows "map mset (xss[i := ys]) = map mset xss"
proof (cases "i < length xss")
  case True
  with assms have "(map mset xss)[i := mset ys] = (map mset xss)[i := map mset xss ! i]"
    by simp
  then show ?thesis by (simp add: map_update)
next
  case False
  then show ?thesis by (simp add: list_update_beyond)
qed

end
