(* ===== verification/Alphabet.thy ===== *)
theory Alphabet
  imports Rotor_Prelude
begin

text \<open>
  The fixed alphabet of both devices and the text normaliser that \<open>encrypt\<close>
  runs before it substitutes.

  \<^item> \<open>alphabet\<close> is the class attribute \<open>__alphabet\<close> of \<open>OneRotorDevice\<close> and
    \<open>MultiRotorDevice\<close> (the same literal in both files): 26 letters, 10 digits,
    the period and the space, 38 symbols.
  \<^item> \<open>normalize_text\<close> is the first two statements of \<open>encrypt\<close>:
    \<open>plaintext.strip().upper()\<close> followed by the filter that keeps the characters
    for which \<open>isalnum()\<close> holds and the space and the period.
  \<^item> Text is modelled as \<open>string\<close>; the string methods \<open>strip\<close>, \<open>upper\<close> and
    \<open>isalnum\<close> are modelled on ASCII, where they are: whitespace is
    \<open>\t \n \v \f \r\<close>, the separators \<open>0x1C\<close> to \<open>0x1F\<close> and the space;
    \<open>upper\<close> maps \<open>a\<close>..\<open>z\<close> to \<open>A\<close>..\<open>Z\<close>; alphanumeric are the digits and
    the letters. Python's behaviour on code points beyond ASCII (where \<open>upper\<close>
    can lengthen a string and \<open>isalnum\<close> accepts letters of other scripts) is
    outside the model: statements about \<open>normalize_text\<close> of arbitrary text carry the
    hypothesis \<open>ascii_text\<close>.
  \<^item> The lemmas give the size of the alphabet, the range of the normaliser
    (alphabet symbols only) and the texts on which normalising twice is
    normalising once.
\<close>

definition alphabet :: string where
  "alphabet = ''ABCDEFGHIJKLMNOPQRSTUVWXYZ0123456789. ''"

definition ascii_uppercase :: string where
  "ascii_uppercase = ''ABCDEFGHIJKLMNOPQRSTUVWXYZ''"

definition ascii_lowercase :: string where
  "ascii_lowercase = ''abcdefghijklmnopqrstuvwxyz''"

definition ascii_digits :: string where
  "ascii_digits = ''0123456789''"

definition ascii_whitespace :: string where
  "ascii_whitespace =
     [CHR 0x09, CHR 0x0A, CHR 0x0B, CHR 0x0C, CHR 0x0D,
      CHR 0x1C, CHR 0x1D, CHR 0x1E, CHR 0x1F, CHR '' '']"

definition ascii_text :: "string \<Rightarrow> bool" where
  "ascii_text s \<longleftrightarrow> (\<forall>c \<in> set s. (of_char c :: nat) < 128)"

definition py_isspace :: "char \<Rightarrow> bool" where
  "py_isspace c \<longleftrightarrow> c \<in> set ascii_whitespace"

definition py_isalnum :: "char \<Rightarrow> bool" where
  "py_isalnum c \<longleftrightarrow> c \<in> set (ascii_digits @ ascii_uppercase @ ascii_lowercase)"

definition py_upper_char :: "char \<Rightarrow> char" where
  "py_upper_char c =
     (case map_of (zip ascii_lowercase ascii_uppercase) c of Some u \<Rightarrow> u | None \<Rightarrow> c)"

definition py_upper :: "string \<Rightarrow> string" where
  "py_upper s = map py_upper_char s"

definition py_strip :: "string \<Rightarrow> string" where
  "py_strip s = rev (dropWhile py_isspace (rev (dropWhile py_isspace s)))"

text \<open>The filter of \<open>encrypt\<close>: \<open>e.isalnum() or e in [' ', '.']\<close>.\<close>

definition keep_char :: "char \<Rightarrow> bool" where
  "keep_char e \<longleftrightarrow> py_isalnum e \<or> e \<in> set [CHR '' '', CHR ''.'']"

definition normalize_text :: "string \<Rightarrow> string" where
  "normalize_text plaintext = filter keep_char (py_upper (py_strip plaintext))"

subsection \<open>The alphabet\<close>

lemma length_alphabet [simp]: "length alphabet = 38"
  by (simp add: alphabet_def)

lemma distinct_alphabet [simp]: "distinct alphabet"
  by (simp add: alphabet_def)

lemma alphabet_nonempty [simp]: "alphabet \<noteq> []"
  by (simp add: alphabet_def)

lemma set_alphabet:
  "set alphabet = set ascii_uppercase \<union> set ascii_digits \<union> {CHR ''.'', CHR '' ''}"
  by (auto simp: alphabet_def ascii_uppercase_def ascii_digits_def)

lemma alphabet_index_total:
  "c \<in> set alphabet \<Longrightarrow> \<exists>i < length alphabet. py_index alphabet c = Inr i \<and> alphabet ! i = c"
  using py_index_in_set [of c alphabet] by (auto simp: py_index_Inr_iff)

lemma alphabet_index_nth [simp]: "i < 38 \<Longrightarrow> py_index alphabet (alphabet ! i) = Inr i"
  by simp

subsection \<open>The normaliser\<close>

lemma py_upper_char_upper: "c \<in> set ascii_lowercase \<Longrightarrow> py_upper_char c \<in> set ascii_uppercase"
  by (auto simp: py_upper_char_def ascii_lowercase_def ascii_uppercase_def)

lemma py_upper_char_other [simp]: "c \<notin> set ascii_lowercase \<Longrightarrow> py_upper_char c = c"
  by (auto simp: py_upper_char_def ascii_lowercase_def ascii_uppercase_def)

lemma lower_upper_disjoint: "c \<in> set ascii_uppercase \<Longrightarrow> c \<notin> set ascii_lowercase"
  by (auto simp: ascii_lowercase_def ascii_uppercase_def)

lemma py_upper_char_not_lower: "py_upper_char c \<notin> set ascii_lowercase"
  by (cases "c \<in> set ascii_lowercase") (auto dest: py_upper_char_upper lower_upper_disjoint)

lemma keep_char_upper_alphabet: "keep_char (py_upper_char c) \<Longrightarrow> py_upper_char c \<in> set alphabet"
  using py_upper_char_not_lower [of c]
  by (auto simp: keep_char_def py_isalnum_def set_alphabet)

lemma set_normalize_subset: "set (normalize_text p) \<subseteq> set alphabet"
  by (auto simp: normalize_text_def py_upper_def keep_char_upper_alphabet)

lemma keep_char_alphabet: "c \<in> set alphabet \<Longrightarrow> keep_char c"
  by (auto simp: keep_char_def py_isalnum_def set_alphabet)

lemma alphabet_not_lower: "c \<in> set alphabet \<Longrightarrow> c \<notin> set ascii_lowercase"
  by (auto simp: alphabet_def ascii_lowercase_def)

lemma py_upper_alphabet: "set s \<subseteq> set alphabet \<Longrightarrow> py_upper s = s"
proof -
  assume sub: "set s \<subseteq> set alphabet"
  have "py_upper_char c = c" if "c \<in> set s" for c
    using that sub alphabet_not_lower [of c] by auto
  then show "py_upper s = s"
    unfolding py_upper_def by (rule map_idI)
qed

lemma filter_keep_alphabet: "set s \<subseteq> set alphabet \<Longrightarrow> filter keep_char s = s"
  by (auto simp: keep_char_alphabet filter_id_conv)

lemma py_strip_noop:
  assumes "s = [] \<or> (\<not> py_isspace (hd s) \<and> \<not> py_isspace (last s))"
  shows "py_strip s = s"
proof (cases "s = []")
  case True
  then show ?thesis by (simp add: py_strip_def)
next
  case False
  with assms have h: "\<not> py_isspace (hd s)" and l: "\<not> py_isspace (hd (rev s))"
    by (auto simp: hd_rev)
  from False h have "dropWhile py_isspace s = s"
    by (cases s) auto
  moreover from False l have "dropWhile py_isspace (rev s) = rev s"
    by (cases "rev s") auto
  ultimately show ?thesis by (simp add: py_strip_def)
qed

lemma normalize_fixed:
  assumes "set s \<subseteq> set alphabet" and "s = [] \<or> (hd s \<noteq> CHR '' '' \<and> last s \<noteq> CHR '' '')"
  shows "normalize_text s = s"
proof -
  have sp: "py_isspace c \<longleftrightarrow> c = CHR '' ''" if "c \<in> set alphabet" for c
    using that by (auto simp: py_isspace_def ascii_whitespace_def alphabet_def)
  have "py_strip s = s"
  proof (rule py_strip_noop, cases "s = []")
    case False
    then have "hd s \<in> set alphabet" "last s \<in> set alphabet"
      using assms(1) by auto
    with False assms(2) show "s = [] \<or> (\<not> py_isspace (hd s) \<and> \<not> py_isspace (last s))"
      by (simp add: sp)
  qed simp
  with assms(1) show ?thesis
    by (simp add: normalize_text_def py_upper_alphabet filter_keep_alphabet)
qed

lemma keep_char_upper_iff: "keep_char (py_upper_char c) \<longleftrightarrow> py_upper_char c \<in> set alphabet"
  using keep_char_upper_alphabet keep_char_alphabet by blast

subsection \<open>Trimming, capitalising and normalising twice\<close>

lemma py_strip_subset: "set (py_strip s) \<subseteq> set s"
proof
  fix c
  assume "c \<in> set (py_strip s)"
  then have "c \<in> set (dropWhile py_isspace (rev (dropWhile py_isspace s)))"
    by (simp only: py_strip_def set_rev)
  then have "c \<in> set (rev (dropWhile py_isspace s))" by (rule set_dropWhileD)
  then have "c \<in> set (dropWhile py_isspace s)" by (simp only: set_rev)
  then show "c \<in> set s" by (rule set_dropWhileD)
qed

lemma py_strip_trimmed:
  "py_strip s = [] \<or> (\<not> py_isspace (hd (py_strip s)) \<and> \<not> py_isspace (last (py_strip s)))"
proof (cases "py_strip s = []")
  case False
  let ?ys = "dropWhile py_isspace s"
  let ?zs = "dropWhile py_isspace (rev ?ys)"
  from False have zs: "?zs \<noteq> []" by (simp add: py_strip_def)
  have ys: "?ys \<noteq> []"
  proof
    assume "?ys = []"
    then have "?zs = []" by (simp only: rev.simps dropWhile.simps)
    with zs show False by (rule notE)
  qed
  from zs have "\<not> py_isspace (hd ?zs)" by (rule hd_dropWhile)
  with zs have l: "\<not> py_isspace (last (py_strip s))" by (simp add: py_strip_def last_rev)
  have "rev ?ys = takeWhile py_isspace (rev ?ys) @ ?zs" by simp
  with zs have "last ?zs = last (rev ?ys)" by (metis last_appendR)
  with ys have "last ?zs = hd ?ys" by (simp add: last_rev)
  moreover from ys have "\<not> py_isspace (hd ?ys)" by (rule hd_dropWhile)
  ultimately have "\<not> py_isspace (hd (py_strip s))" using zs by (simp add: py_strip_def hd_rev)
  with l show ?thesis by simp
qed simp

lemma py_strip_idem [simp]: "py_strip (py_strip s) = py_strip s"
  using py_strip_trimmed by (rule py_strip_noop)

lemma letter_not_space:
  "c \<in> set ascii_uppercase \<Longrightarrow> \<not> py_isspace c"
  "c \<in> set ascii_lowercase \<Longrightarrow> \<not> py_isspace c"
  by (auto simp: py_isspace_def ascii_whitespace_def ascii_uppercase_def ascii_lowercase_def)

lemma py_isspace_upper [simp]: "py_isspace (py_upper_char c) \<longleftrightarrow> py_isspace c"
proof (cases "c \<in> set ascii_lowercase")
  case True
  then have "py_upper_char c \<in> set ascii_uppercase" by (rule py_upper_char_upper)
  with True show ?thesis by (simp add: letter_not_space)
qed simp

lemma py_strip_upper: "py_strip (py_upper s) = py_upper (py_strip s)"
proof -
  have "py_isspace \<circ> py_upper_char = py_isspace" by (simp add: fun_eq_iff)
  then show ?thesis by (simp add: py_strip_def py_upper_def dropWhile_map rev_map)
qed

lemma py_upper_idem [simp]: "py_upper (py_upper s) = py_upper s"
  using py_upper_char_not_lower by (simp add: py_upper_def)

lemma normalize_text_upper_alphabet:
  assumes "set (py_upper s) \<subseteq> set alphabet"
  shows "normalize_text s = py_upper (py_strip s)"
proof -
  from assms py_strip_subset [of s] have "set (py_upper (py_strip s)) \<subseteq> set alphabet"
    by (auto simp: py_upper_def)
  then show ?thesis by (simp add: normalize_text_def filter_keep_alphabet)
qed

lemma normalize_text_idem:
  assumes "set (py_upper plaintext) \<subseteq> set alphabet"
  shows "normalize_text (normalize_text plaintext) = normalize_text plaintext"
proof -
  from assms have n: "normalize_text plaintext = py_upper (py_strip plaintext)"
    by (rule normalize_text_upper_alphabet)
  have "set (py_upper (normalize_text plaintext)) \<subseteq> set alphabet"
    using set_normalize_subset [of plaintext] by (simp add: py_upper_alphabet)
  then have "normalize_text (normalize_text plaintext) =
      py_upper (py_strip (normalize_text plaintext))"
    by (rule normalize_text_upper_alphabet)
  also have "\<dots> = py_upper (py_strip plaintext)"
    by (simp add: n py_strip_upper)
  finally show ?thesis by (simp only: n)
qed

subsection \<open>Size of the alphabet, range of the normaliser\<close>



text \<open>
  C32 (equivalence). On ASCII text the filter of \<open>encrypt\<close> (alphanumeric, space or
  period, after \<open>strip\<close> and \<open>upper\<close>) keeps exactly the characters of the
  alphabet, so the normalised text consists of alphabet symbols only and
  \<open>alphabet.index\<close> cannot raise on it.
\<close>

theorem normalize_keeps_alphabet:
  assumes "ascii_text plaintext"
  shows "normalize_text plaintext =
           filter (\<lambda>c. c \<in> set alphabet) (py_upper (py_strip plaintext)) \<and>
         set (normalize_text plaintext) \<subseteq> set alphabet"
proof -
  have "filter keep_char (map py_upper_char s) =
      filter (\<lambda>c. c \<in> set alphabet) (map py_upper_char s)" for s
    by (induction s) (simp_all add: keep_char_upper_iff)
  then have "normalize_text plaintext =
      filter (\<lambda>c. c \<in> set alphabet) (py_upper (py_strip plaintext))"
    by (simp add: normalize_text_def py_upper_def)
  then show ?thesis
    using set_normalize_subset [of plaintext] by (rule conjI)
qed

theorem normalize_keeps_alphabet_witness:
  "ascii_text ''  Hello, World! 42.  '' \<and>
   normalize_text ''  Hello, World! 42.  '' = ''HELLO WORLD 42.'' \<and>
   set ''HELLO WORLD 42.'' \<subseteq> set alphabet"
proof -
  have asc: "ascii_text ''  Hello, World! 42.  ''" by code_simp
  have n: "normalize_text ''  Hello, World! 42.  '' = ''HELLO WORLD 42.''" by code_simp
  from normalize_keeps_alphabet [OF asc]
  have "set (normalize_text ''  Hello, World! 42.  '') \<subseteq> set alphabet"
    by (rule conjunct2)
  then have "set ''HELLO WORLD 42.'' \<subseteq> set alphabet" by (simp only: n)
  with asc n show ?thesis by (intro conjI)
qed

text \<open>
  C33 (functional). On text whose characters are, up to case, symbols of the
  alphabet the normaliser only trims and capitalises, and normalising twice is
  normalising once.
\<close>

theorem normalize_idempotent:
  assumes "set (py_upper plaintext) \<subseteq> set alphabet"
  shows "normalize_text plaintext = py_upper (py_strip plaintext) \<and>
         normalize_text (normalize_text plaintext) = normalize_text plaintext"
  using assms by (intro conjI normalize_text_upper_alphabet normalize_text_idem)

theorem normalize_idempotent_witness:
  "set (py_upper '' Attack at dawn. '') \<subseteq> set alphabet \<and>
   normalize_text '' Attack at dawn. '' = ''ATTACK AT DAWN.'' \<and>
   normalize_text ''ATTACK AT DAWN.'' = ''ATTACK AT DAWN.''"
proof -
  have s: "set (py_upper '' Attack at dawn. '') \<subseteq> set alphabet" by code_simp
  have n: "normalize_text '' Attack at dawn. '' = ''ATTACK AT DAWN.''" by code_simp
  from normalize_idempotent [OF s]
  have "normalize_text (normalize_text '' Attack at dawn. '') =
      normalize_text '' Attack at dawn. ''"
    by (rule conjunct2)
  then have "normalize_text ''ATTACK AT DAWN.'' = ''ATTACK AT DAWN.''" by (simp only: n)
  with s n show ?thesis by (intro conjI)
qed

end
