(* ===== verification/Rotor.thy ===== *)
theory Rotor
  imports Alphabet
begin

text \<open>
  A rotor and its rotation: the loop both devices run after every character,
  \<^verbatim>\<open>for i in range(0, n): rotor.append(rotor.pop(0))\<close>
  (\<open>OneRotorDevice.__rotate\<close>, \<open>MultiRotorDevice.__rotate\<close>).

  \<^item> \<open>pop0_append\<close> is one iteration, \<open>rotate_times\<close> the loop with a given number
    of iterations left, \<open>rotate_left\<close> the loop for a Python integer \<open>n\<close>
    (\<open>range(0, n)\<close> is empty for \<open>n \<le> 0\<close>). Each returns the list as the loop
    leaves it, also when \<open>pop\<close> raises on an empty rotor.
  \<^item> \<open>range_loop\<close> is the same loop with the counter \<open>i\<close> of \<open>range\<close> kept,
    defined by well-founded recursion with its termination proof.
  \<^item> \<open>shift_left\<close> is the reference a rotation is compared with: one cyclic
    left shift by \<open>k mod N\<close> positions.
  \<^item> \<open>wf_rotor\<close> is what the devices need of a rotor to work (no repeated symbol,
    as long as the alphabet); \<open>valid_rotor\<close> is the stronger requirement of being
    a permutation of the alphabet. Rotation keeps both.
\<close>

definition pop0_append :: "'a list \<Rightarrow> unit result \<times> 'a list" where
  "pop0_append rotor =
     (case rotor of [] \<Rightarrow> (Inl IndexError, []) | x # xs \<Rightarrow> (Inr (), xs @ [x]))"

fun rotate_times :: "nat \<Rightarrow> 'a list \<Rightarrow> unit result \<times> 'a list" where
  "rotate_times 0 rotor = (Inr (), rotor)"
| "rotate_times (Suc k) rotor =
     (case pop0_append rotor of
        (Inl e, rotor') \<Rightarrow> (Inl e, rotor')
      | (Inr _, rotor') \<Rightarrow> rotate_times k rotor')"

text \<open>The same loop with its counter: \<open>i\<close> runs from its start up to \<open>n\<close>.\<close>

function range_loop :: "int \<Rightarrow> int \<Rightarrow> 'a list \<Rightarrow> unit result \<times> 'a list" where
  "range_loop i n rotor =
     (if i < n then
        (case pop0_append rotor of
           (Inl e, rotor') \<Rightarrow> (Inl e, rotor')
         | (Inr u, rotor') \<Rightarrow> range_loop (i + 1) n rotor')
      else (Inr (), rotor))"
  by pat_completeness auto
termination
  by (relation "measure (\<lambda>(i, n, rotor). nat (n - i))") auto

definition rotate_left :: "int \<Rightarrow> 'a list \<Rightarrow> unit result \<times> 'a list" where
  "rotate_left n rotor = rotate_times (nat n) rotor"

definition shift_left :: "nat \<Rightarrow> 'a list \<Rightarrow> 'a list" where
  "shift_left k xs = drop (k mod length xs) xs @ take (k mod length xs) xs"

definition wf_rotor :: "string \<Rightarrow> bool" where
  "wf_rotor r \<longleftrightarrow> distinct r \<and> length r = length alphabet"

definition valid_rotor :: "string \<Rightarrow> bool" where
  "valid_rotor r \<longleftrightarrow> mset r = mset alphabet"

subsection \<open>The loop computes a rotation\<close>

declare range_loop.simps [simp del]

lemma range_loop_rotate_times: "range_loop i n rotor = rotate_times (nat (n - i)) rotor"
proof (induction i n rotor rule: range_loop.induct)
  case (1 i n rotor)
  show ?case
  proof (cases "i < n")
    case False
    then show ?thesis by (simp add: range_loop.simps [of i n rotor])
  next
    case True
    then have n: "nat (n - i) = Suc (nat (n - (i + 1)))" by simp
    from True "1.IH" show ?thesis
      unfolding n by (auto simp: range_loop.simps [of i n rotor] split: sum.splits prod.splits)
  qed
qed

lemma pop0_append_Nil [simp]: "pop0_append [] = (Inl IndexError, [])"
  by (simp add: pop0_append_def)

lemma pop0_append_rotate1 [simp]: "rotor \<noteq> [] \<Longrightarrow> pop0_append rotor = (Inr (), rotate1 rotor)"
  by (cases rotor) (simp_all add: pop0_append_def)

lemma rotate_times_Nil: "rotate_times k [] = (if k = 0 then Inr () else Inl IndexError, [])"
  by (cases k) simp_all

lemma rotate_times_rotate: "rotor \<noteq> [] \<Longrightarrow> rotate_times k rotor = (Inr (), rotate k rotor)"
proof (induction k arbitrary: rotor)
  case 0
  show ?case by simp
next
  case (Suc k)
  from Suc.prems have "rotate1 rotor \<noteq> []" by simp
  then have "rotate_times k (rotate1 rotor) = (Inr (), rotate k (rotate1 rotor))"
    by (rule Suc.IH)
  with Suc.prems show ?case by (simp add: rotate1_rotate_swap)
qed

lemma rotate_left_eq:
  "rotate_left n rotor =
     (if rotor = [] \<and> 0 < n then (Inl IndexError, rotor) else (Inr (), rotate (nat n) rotor))"
  by (cases "rotor = []") (auto simp: rotate_left_def rotate_times_Nil rotate_times_rotate)

lemma rotate_left_nonempty [simp]:
  "rotor \<noteq> [] \<Longrightarrow> rotate_left n rotor = (Inr (), rotate (nat n) rotor)"
  by (simp add: rotate_left_eq)

lemma rotate_left_nonpos [simp]: "n \<le> 0 \<Longrightarrow> rotate_left n rotor = (Inr (), rotor)"
  by (simp add: rotate_left_eq)

lemma rotate_left_Inl_iff:
  "fst (rotate_left n rotor) = Inl e \<longleftrightarrow> e = IndexError \<and> rotor = [] \<and> 0 < n"
  by (auto simp: rotate_left_eq)

lemma snd_rotate_left [simp]: "snd (rotate_left n rotor) = rotate (nat n) rotor"
  by (simp add: rotate_left_eq)

lemma shift_left_rotate: "shift_left k xs = rotate k xs"
  by (simp add: shift_left_def rotate_drop_take)

subsection \<open>What a rotation keeps\<close>

lemma valid_rotor_wf [rotor_wf]: "valid_rotor r \<Longrightarrow> wf_rotor r"
proof -
  assume "valid_rotor r"
  then have m: "mset r = mset alphabet" by (simp add: valid_rotor_def)
  then have "distinct r" by (metis distinct_alphabet mset_eq_imp_distinct_iff)
  moreover from m have "length r = length alphabet" by (rule mset_eq_length)
  ultimately show "wf_rotor r" by (simp add: wf_rotor_def)
qed

lemma wf_rotor_length [rotor_wf]: "wf_rotor r \<Longrightarrow> length r = 38"
  by (simp add: wf_rotor_def)

lemma wf_rotor_distinct [rotor_wf]: "wf_rotor r \<Longrightarrow> distinct r"
  by (simp add: wf_rotor_def)

lemma wf_rotor_nonempty [rotor_wf]: "wf_rotor r \<Longrightarrow> r \<noteq> []"
  by (auto simp: wf_rotor_def)

lemma wf_rotor_rotate [rotor_wf, simp]: "wf_rotor (rotate k r) \<longleftrightarrow> wf_rotor r"
  by (simp add: wf_rotor_def)

lemma valid_rotor_rotate [rotor_wf, simp]: "valid_rotor (rotate k r) \<longleftrightarrow> valid_rotor r"
  by (simp add: valid_rotor_def)

lemma valid_rotor_set: "valid_rotor r \<Longrightarrow> set r = set alphabet"
  by (metis mset_eq_setD valid_rotor_def)

lemma wf_rotor_index_nth [rotor_wf]: "wf_rotor r \<Longrightarrow> i < 38 \<Longrightarrow> py_index r (r ! i) = Inr i"
  by (simp add: wf_rotor_def)

subsection \<open>Rotation as a cyclic shift, its invariants and its period\<close>

text \<open>
  C9 (equivalence). The rotation loop is one cyclic left shift: for a non-empty
  rotor, \<open>n\<close> times \<open>rotor.append(rotor.pop(0))\<close> leaves the rotor shifted left by
  \<open>n mod N\<close> positions, and a speed \<open>n \<le> 0\<close> leaves it as it is. On an empty
  rotor the loop raises IndexError at its first iteration, if it has one.
\<close>

theorem rotate_left_is_shift:
  "rotate_left n rotor =
     (if rotor = [] \<and> 0 < n then (Inl IndexError, rotor)
      else (Inr (), shift_left (nat n) rotor))"
  by (simp add: rotate_left_eq shift_left_rotate)

theorem rotate_left_is_shift_witness:
  "shift_left 2 ''ABCDE'' = ''CDEAB'' \<and> rotate_left 2 ''ABCDE'' = (Inr (), ''CDEAB'') \<and>
   rotate_left 7 ''ABCDE'' = (Inr (), ''CDEAB'') \<and> rotate_left (- 1) ''ABCDE'' = (Inr (), ''ABCDE'')"
proof -
  have run: "rotate_left 2 ''ABCDE'' = (Inr (), ''CDEAB'')" by code_simp
  with rotate_left_is_shift [of 2 "''ABCDE''"] have "shift_left 2 ''ABCDE'' = ''CDEAB''" by simp
  moreover have "shift_left (nat 7) ''ABCDE'' = ''CDEAB''" "shift_left (nat (- 1)) ''ABCDE'' = ''ABCDE''"
    by (simp_all add: shift_left_def)
  ultimately show ?thesis
    using run rotate_left_is_shift [of 7 "''ABCDE''"] rotate_left_is_shift [of "- 1" "''ABCDE''"]
    by simp
qed

text \<open>
  C17 (invariant). A rotation keeps the rotor's symbols with their multiplicities,
  hence its length and the absence of repetitions: a permutation of the
  alphabet stays one, whether the loop returns or raises.
\<close>

theorem rotation_keeps_rotor:
  "mset (snd (rotate_left n r)) = mset r \<and>
   length (snd (rotate_left n r)) = length r \<and>
   (wf_rotor (snd (rotate_left n r)) \<longleftrightarrow> wf_rotor r) \<and>
   (valid_rotor (snd (rotate_left n r)) \<longleftrightarrow> valid_rotor r)"
  by simp

text \<open>
  Period of one rotation: a rotor without repeated symbols is
  back at its starting position after a rotation by \<open>n\<close> exactly when \<open>n\<close> is a
  multiple of its length.
\<close>

lemma rotor_period:
  assumes "distinct r" and "r \<noteq> []"
  shows "snd (rotate_left n r) = r \<longleftrightarrow> nat n mod length r = 0"
  using assms by (simp add: rotate_eq_self_distinct)

lemma rotor_period_example:
  "distinct ''ABC'' \<and> ''ABC'' \<noteq> [] \<and>
   snd (rotate_left 6 ''ABC'') = ''ABC'' \<and> snd (rotate_left 7 ''ABC'') \<noteq> ''ABC''"
proof -
  have d: "distinct ''ABC''" and n: "''ABC'' \<noteq> []" by simp_all
  from rotor_period [OF d n, of 6] rotor_period [OF d n, of 7] d n show ?thesis by simp
qed

subsection \<open>Termination of the loop\<close>

text \<open>
  C23 (termination). The loop \<open>for i in range(0, n)\<close> with its counter terminates
  for every \<open>n\<close> and every rotor: it is defined by well-founded recursion on
  \<open>n - i\<close>, makes \<open>n - i\<close> iterations where that is positive and none
  otherwise, unless \<open>pop\<close> raises in the first one, and returns what the
  structural recursion \<open>rotate_left\<close> returns.
\<close>

theorem range_loop_terminates:
  "range_loop 0 n rotor = rotate_left n rotor \<and>
   range_loop i n rotor =
     (if rotor = [] \<and> i < n then (Inl IndexError, rotor)
      else (Inr (), rotate (nat (n - i)) rotor))"
  by (cases "rotor = []")
    (auto simp: range_loop_rotate_times rotate_left_def rotate_times_Nil rotate_times_rotate)

theorem range_loop_terminates_witness:
  "range_loop 0 7 ''ABCDE'' = (Inr (), ''CDEAB'') \<and> range_loop 3 2 ''ABCDE'' = (Inr (), ''ABCDE'') \<and>
   rotate_left 7 ''ABCDE'' = (Inr (), ''CDEAB'')"
proof -
  have "range_loop 0 7 ''ABCDE'' = (Inr (), ''CDEAB'')" "range_loop 3 2 ''ABCDE'' = (Inr (), ''ABCDE'')"
    by code_simp+
  with range_loop_terminates [of 7 "''ABCDE''" 0] show ?thesis by simp
qed

end
