(* ===== verification/MultiRotorDevice.thy ===== *)
theory MultiRotorDevice
  imports Rotor
begin

text \<open>
  The class \<open>MultiRotorDevice\<close> (\<open>src/MultiRotorDevice.py\<close>): a bank of rotors,
  one rotation speed per rotor and a cursor that selects the rotor of the next
  character.

  \<^item> The record \<open>multi_rotor_device\<close> holds the instance attributes \<open>__key\<close>,
    \<open>__speeds\<close>, \<open>__cur_rotor_idx\<close> and \<open>__tracing\<close>.
  \<^item> One definition per method: \<open>multi_init\<close> (\<open>__init__\<close>),
    \<open>multi_enable_tracing\<close>, \<open>multi_current_rotor\<close>, \<open>multi_next_rotor\<close>,
    \<open>multi_rotate\<close> (\<open>__rotate\<close>), \<open>multi_encrypt\<close>, \<open>multi_decrypt\<close>. The body
    of each \<open>for char in ...\<close> loop is \<open>multi_encrypt_char\<close> and
    \<open>multi_decrypt_char\<close>; the loop itself, with the string it accumulates, is
    \<open>for_each_char\<close> of the prelude.
  \<^item> Every method that mutates the device returns the state it leaves behind
    together with its result, so the state after an exception is part of the
    model: an unsupported character raises before the cursor moves, a foreign
    ciphertext character after it has moved.
  \<^item> The \<open>print\<close> calls guarded by \<open>__tracing\<close> write to standard output only and
    are left out here, the flag itself is kept; theory \<open>Tracing\<close> has the methods
    with their output. Rotors and speeds are values here; theory
    \<open>Device_Store\<close> has the methods on list objects with addresses.
  \<^item> \<open>multi_wf\<close> is what the methods need of a device to run without an
    exception; \<open>next_idx\<close> and \<open>multi_advance\<close> say what one processed character
    does to the state, \<open>cursor_moved\<close> what a call that raises after the cursor
    has advanced leaves behind. The lemmas of this theory give every branch of
    each method as one equation, and the per-character steps on a well-formed
    device.
\<close>

record multi_rotor_device =
  key :: "string list"
  speeds :: "int list"
  cur_rotor_idx :: nat
  tracing :: bool

definition multi_init :: "string list \<Rightarrow> int list \<Rightarrow> multi_rotor_device" where
  "multi_init k rotation_speeds =
     \<lparr>key = k, speeds = rotation_speeds, cur_rotor_idx = 0, tracing = False\<rparr>"

definition multi_enable_tracing :: "multi_rotor_device \<Rightarrow> multi_rotor_device" where
  "multi_enable_tracing d = d\<lparr>tracing := True\<rparr>"

definition multi_current_rotor :: "multi_rotor_device \<Rightarrow> string result" where
  "multi_current_rotor d = py_getitem (key d) (cur_rotor_idx d)"

definition multi_next_rotor :: "(multi_rotor_device, string) prog" where
  "multi_next_rotor d =
     (case py_mod (cur_rotor_idx d + 1) (length (key d)) of
        Inl e \<Rightarrow> (Inl e, d)
      | Inr i \<Rightarrow> (multi_current_rotor (d\<lparr>cur_rotor_idx := i\<rparr>), d\<lparr>cur_rotor_idx := i\<rparr>))"

definition multi_rotate :: "(multi_rotor_device, unit) prog" where
  "multi_rotate d =
     (case multi_current_rotor d of
        Inl e \<Rightarrow> (Inl e, d)
      | Inr rotor \<Rightarrow>
          (case py_getitem (speeds d) (cur_rotor_idx d) of
             Inl e \<Rightarrow> (Inl e, d)
           | Inr speed \<Rightarrow>
               (case rotate_left speed rotor of
                  (r, rotor') \<Rightarrow> (r, d\<lparr>key := (key d)[cur_rotor_idx d := rotor']\<rparr>))))"

definition multi_encrypt_char :: "char \<Rightarrow> (multi_rotor_device, char) prog" where
  "multi_encrypt_char c d =
     (case py_index alphabet c of
        Inl e \<Rightarrow> (Inl e, d)
      | Inr i \<Rightarrow>
          (case multi_next_rotor d of
             (Inl e, d1) \<Rightarrow> (Inl e, d1)
           | (Inr rotor, d1) \<Rightarrow>
               (case py_getitem rotor i of
                  Inl e \<Rightarrow> (Inl e, d1)
                | Inr k \<Rightarrow>
                    (case multi_rotate d1 of
                       (Inl e, d2) \<Rightarrow> (Inl e, d2)
                     | (Inr _, d2) \<Rightarrow> (Inr k, d2)))))"

definition multi_encrypt :: "string \<Rightarrow> (multi_rotor_device, string) prog" where
  "multi_encrypt plaintext d = for_each_char multi_encrypt_char (normalize_text plaintext) [] d"

definition multi_decrypt_char :: "char \<Rightarrow> (multi_rotor_device, char) prog" where
  "multi_decrypt_char c d =
     (case multi_next_rotor d of
        (Inl e, d1) \<Rightarrow> (Inl e, d1)
      | (Inr rotor, d1) \<Rightarrow>
          (case py_index rotor c of
             Inl e \<Rightarrow> (Inl e, d1)
           | Inr i \<Rightarrow>
               (case py_getitem alphabet i of
                  Inl e \<Rightarrow> (Inl e, d1)
                | Inr a \<Rightarrow>
                    (case multi_rotate d1 of
                       (Inl e, d2) \<Rightarrow> (Inl e, d2)
                     | (Inr _, d2) \<Rightarrow> (Inr a, d2)))))"

definition multi_decrypt :: "string \<Rightarrow> (multi_rotor_device, string) prog" where
  "multi_decrypt ciphertext d = for_each_char multi_decrypt_char ciphertext [] d"

text \<open>Well-formed devices, and the effect of one processed character on the state.\<close>

definition multi_wf :: "multi_rotor_device \<Rightarrow> bool" where
  "multi_wf d \<longleftrightarrow>
     key d \<noteq> [] \<and> length (key d) \<le> length (speeds d) \<and> list_all wf_rotor (key d)"

definition next_idx :: "multi_rotor_device \<Rightarrow> nat" where
  "next_idx d = Suc (cur_rotor_idx d) mod length (key d)"

definition multi_advance :: "multi_rotor_device \<Rightarrow> multi_rotor_device" where
  "multi_advance d =
     d\<lparr>cur_rotor_idx := next_idx d,
       key := (key d)[next_idx d := rotate (nat (speeds d ! next_idx d)) (key d ! next_idx d)]\<rparr>"

definition cursor_moved :: "multi_rotor_device \<Rightarrow> multi_rotor_device" where
  "cursor_moved d = d\<lparr>cur_rotor_idx := next_idx d\<rparr>"

lemmas multi_char_defs [rotor_defs] =
  multi_encrypt_char_def multi_decrypt_char_def multi_next_rotor_def multi_rotate_def
  multi_current_rotor_def

subsection \<open>Well-formed devices\<close>

lemma multi_wf_key_nonempty [rotor_wf]: "multi_wf d \<Longrightarrow> key d \<noteq> []"
  by (simp add: multi_wf_def)

lemma multi_wf_next_idx_less [rotor_wf]: "multi_wf d \<Longrightarrow> next_idx d < length (key d)"
  by (simp add: multi_wf_def next_idx_def)

lemma multi_wf_next_idx_speeds [rotor_wf]: "multi_wf d \<Longrightarrow> next_idx d < length (speeds d)"
  using multi_wf_next_idx_less [of d] by (simp add: multi_wf_def)

lemma multi_wf_rotor [rotor_wf]: "multi_wf d \<Longrightarrow> i < length (key d) \<Longrightarrow> wf_rotor (key d ! i)"
  by (simp add: multi_wf_def list_all_length)

lemma multi_wf_next_rotor [rotor_wf]: "multi_wf d \<Longrightarrow> wf_rotor (key d ! next_idx d)"
  by (simp add: multi_wf_rotor multi_wf_next_idx_less)

lemma multi_wf_init_iff:
  "multi_wf (multi_init k s) \<longleftrightarrow> k \<noteq> [] \<and> length k \<le> length s \<and> list_all wf_rotor k"
  by (simp add: multi_wf_def multi_init_def)

lemma multi_wf_advance [rotor_wf]: "multi_wf d \<Longrightarrow> multi_wf (multi_advance d)"
proof -
  assume wf: "multi_wf d"
  then have "wf_rotor (rotate (nat (speeds d ! next_idx d)) (key d ! next_idx d))"
    by (simp add: multi_wf_next_rotor)
  with wf multi_wf_next_idx_less [of d] show "multi_wf (multi_advance d)"
    by (auto simp: multi_wf_def multi_advance_def list_all_length nth_list_update)
qed

lemma multi_wf_tracing [simp]: "multi_wf (multi_enable_tracing d) \<longleftrightarrow> multi_wf d"
  by (simp add: multi_wf_def multi_enable_tracing_def)

lemma multi_advance_frame [simp]:
  "speeds (multi_advance d) = speeds d"
  "tracing (multi_advance d) = tracing d"
  "length (key (multi_advance d)) = length (key d)"
  "cur_rotor_idx (multi_advance d) = next_idx d"
  by (simp_all add: multi_advance_def)

subsection \<open>Every branch of the methods\<close>

lemma multi_next_rotor_cases:
  "multi_next_rotor d =
     (if key d = [] then (Inl ZeroDivisionError, d)
      else (Inr (key d ! next_idx d), d\<lparr>cur_rotor_idx := next_idx d\<rparr>))"
  by (simp add: multi_next_rotor_def multi_current_rotor_def next_idx_def)

lemma multi_rotate_cases:
  "multi_rotate d =
     (if length (key d) \<le> cur_rotor_idx d \<or> length (speeds d) \<le> cur_rotor_idx d
        \<or> (key d ! cur_rotor_idx d = [] \<and> 0 < speeds d ! cur_rotor_idx d)
      then (Inl IndexError, d)
      else (Inr (), d\<lparr>key := (key d)[cur_rotor_idx d :=
              rotate (nat (speeds d ! cur_rotor_idx d)) (key d ! cur_rotor_idx d)]\<rparr>))"
proof (cases "key d ! cur_rotor_idx d = [] \<and> 0 < speeds d ! cur_rotor_idx d")
  case True
  then have "(key d)[cur_rotor_idx d := []] = key d"
    by (metis list_update_id)
  with True show ?thesis
    by (simp add: multi_rotate_def multi_current_rotor_def py_getitem_def rotate_left_eq)
next
  case False
  then show ?thesis
    by (auto simp: multi_rotate_def multi_current_rotor_def py_getitem_def rotate_left_eq)
qed

lemma multi_rotate_moved:
  assumes "key d \<noteq> []"
  shows "multi_rotate (cursor_moved d) =
     (if length (speeds d) \<le> next_idx d \<or> (key d ! next_idx d = [] \<and> 0 < speeds d ! next_idx d)
      then (Inl IndexError, cursor_moved d) else (Inr (), multi_advance d))"
proof -
  from assms have "next_idx d < length (key d)" by (simp add: next_idx_def)
  then show ?thesis
    by (simp add: multi_rotate_cases cursor_moved_def multi_advance_def)
qed

lemma multi_encrypt_char_eq:
  "multi_encrypt_char c d =
     (if c \<notin> set alphabet then (Inl ValueError, d)
      else if key d = [] then (Inl ZeroDivisionError, d)
      else if length (key d ! next_idx d) \<le> pos alphabet c \<or> length (speeds d) \<le> next_idx d
        then (Inl IndexError, cursor_moved d)
      else (Inr (key d ! next_idx d ! pos alphabet c), multi_advance d))"
proof (cases "c \<in> set alphabet")
  case False
  then show ?thesis by (simp add: multi_encrypt_char_def)
next
  case True
  then have i: "py_index alphabet c = Inr (pos alphabet c)" by (rule py_index_pos)
  show ?thesis
  proof (cases "key d = []")
    case True
    with i \<open>c \<in> set alphabet\<close> show ?thesis
      by (simp add: multi_encrypt_char_def multi_next_rotor_cases)
  next
    case False
    with i \<open>c \<in> set alphabet\<close> show ?thesis
      by (auto simp: multi_encrypt_char_def multi_next_rotor_cases py_getitem_def
          multi_rotate_moved [unfolded cursor_moved_def] cursor_moved_def)
  qed
qed

lemma multi_decrypt_char_eq:
  "multi_decrypt_char c d =
     (if key d = [] then (Inl ZeroDivisionError, d)
      else if c \<notin> set (key d ! next_idx d) then (Inl ValueError, cursor_moved d)
      else if length alphabet \<le> pos (key d ! next_idx d) c \<or> length (speeds d) \<le> next_idx d
        then (Inl IndexError, cursor_moved d)
      else (Inr (alphabet ! pos (key d ! next_idx d) c), multi_advance d))"
proof (cases "key d = []")
  case True
  then show ?thesis by (simp add: multi_decrypt_char_def multi_next_rotor_cases)
next
  case False
  show ?thesis
  proof (cases "c \<in> set (key d ! next_idx d)")
    case False
    with \<open>key d \<noteq> []\<close> show ?thesis
      by (simp add: multi_decrypt_char_def multi_next_rotor_cases cursor_moved_def)
  next
    case True
    then have i: "py_index (key d ! next_idx d) c = Inr (pos (key d ! next_idx d) c)"
      by (rule py_index_pos)
    from True have "key d ! next_idx d \<noteq> []" by auto
    with i True \<open>key d \<noteq> []\<close> show ?thesis
      by (auto simp: multi_decrypt_char_def multi_next_rotor_cases py_getitem_def
          multi_rotate_moved [unfolded cursor_moved_def] cursor_moved_def
          simp del: length_alphabet)
  qed
qed

subsection \<open>The per-character steps on a well-formed device\<close>

lemma multi_encrypt_char_wf:
  assumes "multi_wf d" and "c \<in> set alphabet"
  shows "multi_encrypt_char c d = (Inr (key d ! next_idx d ! pos alphabet c), multi_advance d)"
proof -
  from assms(2) have "pos alphabet c < 38" using pos_less [of c alphabet] by simp
  moreover from assms(1) have "next_idx d < length (speeds d)"
    by (rule multi_wf_next_idx_speeds)
  ultimately show ?thesis
    using assms
    by (simp add: multi_encrypt_char_eq multi_wf_key_nonempty
        wf_rotor_length [OF multi_wf_next_rotor])
qed

lemma multi_decrypt_char_wf:
  assumes "multi_wf d" and "c \<in> set (key d ! next_idx d)"
  shows "multi_decrypt_char c d = (Inr (alphabet ! pos (key d ! next_idx d) c), multi_advance d)"
proof -
  from assms have "pos (key d ! next_idx d) c < 38"
    using pos_less [of c "key d ! next_idx d"]
    by (simp add: wf_rotor_length [OF multi_wf_next_rotor])
  moreover from assms(1) have "next_idx d < length (speeds d)"
    by (rule multi_wf_next_idx_speeds)
  ultimately show ?thesis
    using assms
    by (simp add: multi_decrypt_char_eq multi_wf_key_nonempty
        wf_rotor_length [OF multi_wf_next_rotor])
qed

end
