(* ===== verification/Multi_Cipher.thy ===== *)
theory Multi_Cipher
  imports MultiRotorDevice
begin

text \<open>
  What \<open>MultiRotorDevice.encrypt\<close> and \<open>decrypt\<close> compute, stated without state
  passing and without exceptions, and the proof that the methods compute it.

  \<^item> \<open>enc_sym\<close> and \<open>dec_sym\<close> are the substitution of one character through
    the rotor that \<open>next_idx\<close> selects; \<open>spec_encrypt\<close> and \<open>spec_decrypt\<close> are
    the abstract cipher, the substitutions along the states that \<open>multi_advance\<close>
    produces. \<open>decryptable\<close> says that every ciphertext character occurs in the
    rotor selected for its position.
  \<^item> \<open>same_bank\<close> relates a device to a later state of it: the speeds and the
    tracing flag are the same and every rotor holds the same symbols as before.
  \<^item> The lemmas show the refinement (the loops of the class return the abstract
    cipher text and leave the device in the state \<open>multi_advance\<close> iterated once
    per character), the round trip, the order in which rotors are selected,
    the continuation of the state across calls, and what every call keeps of
    the bank, whether it returns or raises.
\<close>

definition enc_sym :: "multi_rotor_device \<Rightarrow> char \<Rightarrow> char" where
  "enc_sym d c = key d ! next_idx d ! pos alphabet c"

definition dec_sym :: "multi_rotor_device \<Rightarrow> char \<Rightarrow> char" where
  "dec_sym d c = alphabet ! pos (key d ! next_idx d) c"

definition spec_encrypt :: "multi_rotor_device \<Rightarrow> string \<Rightarrow> string" where
  "spec_encrypt d msg = keystream enc_sym multi_advance d msg"

definition spec_decrypt :: "multi_rotor_device \<Rightarrow> string \<Rightarrow> string" where
  "spec_decrypt d ciphertext = keystream dec_sym multi_advance d ciphertext"

definition decryptable :: "multi_rotor_device \<Rightarrow> string \<Rightarrow> bool" where
  "decryptable d ciphertext \<longleftrightarrow>
     admitted (\<lambda>d. set (key d ! next_idx d)) multi_advance d ciphertext"

definition same_bank :: "multi_rotor_device \<Rightarrow> multi_rotor_device \<Rightarrow> bool" where
  "same_bank d d' \<longleftrightarrow>
     map mset (key d') = map mset (key d) \<and> speeds d' = speeds d \<and> tracing d' = tracing d"

subsection \<open>The abstract cipher\<close>

lemma spec_encrypt_simps [simp]:
  "spec_encrypt d [] = []"
  "spec_encrypt d (c # msg) = enc_sym d c # spec_encrypt (multi_advance d) msg"
  by (simp_all add: spec_encrypt_def)

lemma spec_decrypt_simps [simp]:
  "spec_decrypt d [] = []"
  "spec_decrypt d (c # ciphertext) = dec_sym d c # spec_decrypt (multi_advance d) ciphertext"
  by (simp_all add: spec_decrypt_def)

lemma decryptable_simps [simp]:
  "decryptable d []"
  "decryptable d (c # ciphertext) \<longleftrightarrow>
     c \<in> set (key d ! next_idx d) \<and> decryptable (multi_advance d) ciphertext"
  by (simp_all add: decryptable_def)

lemma length_spec_encrypt [simp]: "length (spec_encrypt d msg) = length msg"
  by (simp add: spec_encrypt_def)

lemma length_spec_decrypt [simp]: "length (spec_decrypt d c) = length c"
  by (simp add: spec_decrypt_def)

lemma multi_wf_funpow [rotor_wf]: "multi_wf d \<Longrightarrow> multi_wf ((multi_advance ^^ n) d)"
  by (induction n) (simp_all add: multi_wf_advance)

lemma dec_enc_sym:
  assumes "multi_wf d" and "c \<in> set alphabet"
  shows "enc_sym d c \<in> set (key d ! next_idx d)" and "dec_sym d (enc_sym d c) = c"
proof -
  from assms(1) have r: "wf_rotor (key d ! next_idx d)" by (rule multi_wf_next_rotor)
  from assms(2) have i: "pos alphabet c < 38" using pos_less [of c alphabet] by simp
  with r show "enc_sym d c \<in> set (key d ! next_idx d)"
    by (simp add: enc_sym_def wf_rotor_length)
  from r i assms(2) show "dec_sym d (enc_sym d c) = c"
    by (simp add: enc_sym_def dec_sym_def wf_rotor_length wf_rotor_distinct)
qed

lemma spec_roundtrip:
  assumes "multi_wf d" and "set msg \<subseteq> set alphabet"
  shows "decryptable d (spec_encrypt d msg) \<and> spec_decrypt d (spec_encrypt d msg) = msg"
  using assms
proof (induction msg arbitrary: d)
  case Nil
  show ?case by simp
next
  case (Cons c msg)
  from Cons.prems have "decryptable (multi_advance d) (spec_encrypt (multi_advance d) msg) \<and>
      spec_decrypt (multi_advance d) (spec_encrypt (multi_advance d) msg) = msg"
    by (intro Cons.IH) (simp_all add: multi_wf_advance)
  with Cons.prems show ?case by (simp add: dec_enc_sym)
qed

subsection \<open>The loops compute the abstract cipher\<close>

lemma multi_encrypt_step:
  "multi_wf d \<Longrightarrow> c \<in> set alphabet \<Longrightarrow>
     multi_encrypt_char c d = (Inr (enc_sym d c), multi_advance d) \<and> multi_wf (multi_advance d)"
  by (simp add: multi_encrypt_char_wf enc_sym_def multi_wf_advance)

lemma multi_decrypt_step:
  "multi_wf d \<Longrightarrow> c \<in> set (key d ! next_idx d) \<Longrightarrow>
     multi_decrypt_char c d = (Inr (dec_sym d c), multi_advance d) \<and> multi_wf (multi_advance d)"
  by (simp add: multi_decrypt_char_wf dec_sym_def multi_wf_advance)

lemma multi_encrypt_loop_spec:
  assumes "multi_wf d" and "set msg \<subseteq> set alphabet"
  shows "for_each_char multi_encrypt_char msg ct d =
           (Inr (ct @ spec_encrypt d msg), (multi_advance ^^ length msg) d)"
  unfolding spec_encrypt_def
  by (rule for_each_char_keystream [where I = multi_wf and A = "\<lambda>_. set alphabet"])
    (use assms in \<open>simp_all add: multi_encrypt_step\<close>)

lemma multi_decrypt_loop_spec:
  assumes "multi_wf d" and "decryptable d ks"
  shows "for_each_char multi_decrypt_char ks acc d =
           (Inr (acc @ spec_decrypt d ks), (multi_advance ^^ length ks) d)"
  unfolding spec_decrypt_def
  by (rule for_each_char_keystream
      [where I = multi_wf and A = "\<lambda>d. set (key d ! next_idx d)"])
    (use assms in \<open>simp_all add: multi_decrypt_step decryptable_def\<close>)

lemma multi_encrypt_wf:
  "multi_wf d \<Longrightarrow>
     multi_encrypt plaintext d =
       (Inr (spec_encrypt d (normalize_text plaintext)),
        (multi_advance ^^ length (normalize_text plaintext)) d)"
  by (simp add: multi_encrypt_def multi_encrypt_loop_spec set_normalize_subset)

lemma multi_decrypt_wf:
  "multi_wf d \<Longrightarrow> decryptable d ciphertext \<Longrightarrow>
     multi_decrypt ciphertext d =
       (Inr (spec_decrypt d ciphertext), (multi_advance ^^ length ciphertext) d)"
  by (simp add: multi_decrypt_def multi_decrypt_loop_spec)

lemma multi_loop_roundtrip:
  assumes "multi_wf d" and "set msg \<subseteq> set alphabet"
  shows "for_each_char multi_decrypt_char (spec_encrypt d msg) acc d =
           (Inr (acc @ msg), (multi_advance ^^ length msg) d)"
  using assms multi_decrypt_loop_spec [of d "spec_encrypt d msg" acc]
  by (simp add: spec_roundtrip)

subsection \<open>Selection order\<close>

lemma length_key_funpow [simp]: "length (key ((multi_advance ^^ n) d)) = length (key d)"
  by (induction n) simp_all

lemma speeds_funpow [simp]: "speeds ((multi_advance ^^ n) d) = speeds d"
  by (induction n) simp_all

lemma cursor_funpow:
  "0 < n \<Longrightarrow> cur_rotor_idx ((multi_advance ^^ n) d) = (cur_rotor_idx d + n) mod length (key d)"
proof (induction n)
  case 0
  then show ?case by simp
next
  case (Suc n)
  show ?case
  proof (cases n)
    case 0
    then show ?thesis by (simp add: next_idx_def)
  next
    case (Suc m)
    with Suc.IH have "cur_rotor_idx ((multi_advance ^^ n) d) = (cur_rotor_idx d + n) mod length (key d)"
      by simp
    then show ?thesis by (simp add: next_idx_def mod_Suc_eq)
  qed
qed

subsection \<open>What every call keeps, exception or not\<close>

lemma same_bank_refl [simp]: "same_bank d d"
  by (simp add: same_bank_def)

lemma same_bank_trans: "same_bank d d' \<Longrightarrow> same_bank d' d'' \<Longrightarrow> same_bank d d''"
  by (simp add: same_bank_def)

lemma same_bank_cursor [simp]: "same_bank d (d\<lparr>cur_rotor_idx := i\<rparr>)"
  by (simp add: same_bank_def)

lemma same_bank_next_rotor: "same_bank d (snd (multi_next_rotor d))"
  by (simp add: multi_next_rotor_def split: sum.splits)

lemma same_bank_rotate: "same_bank d (snd (multi_rotate d))"
proof -
  have "map mset ((key d)[cur_rotor_idx d := snd (rotate_left s (key d ! cur_rotor_idx d))]) =
      map mset (key d)" for s
    by (rule map_mset_update_same) simp
  then show ?thesis
    by (auto simp: multi_rotate_def multi_current_rotor_def same_bank_def py_getitem_def
        case_prod_beta)
qed

lemma same_bank_encrypt_char: "same_bank d (snd (multi_encrypt_char c d))"
proof -
  have "same_bank d (snd (multi_rotate (snd (multi_next_rotor d))))"
    using same_bank_next_rotor same_bank_rotate by (rule same_bank_trans)
  then show ?thesis
    using same_bank_next_rotor [of d]
    by (auto simp: multi_encrypt_char_def split: sum.splits prod.splits)
qed

lemma same_bank_decrypt_char: "same_bank d (snd (multi_decrypt_char c d))"
proof -
  have "same_bank d (snd (multi_rotate (snd (multi_next_rotor d))))"
    using same_bank_next_rotor same_bank_rotate by (rule same_bank_trans)
  then show ?thesis
    using same_bank_next_rotor [of d]
    by (auto simp: multi_decrypt_char_def split: sum.splits prod.splits)
qed

lemma same_bank_encrypt_loop: "same_bank d (snd (for_each_char multi_encrypt_char msg ct d))"
proof (rule for_each_char_invariant [where I = "same_bank d"])
  fix c s
  assume "same_bank d s"
  then show "same_bank d (snd (multi_encrypt_char c s))"
    using same_bank_encrypt_char by (rule same_bank_trans)
qed simp

lemma same_bank_decrypt_loop: "same_bank d (snd (for_each_char multi_decrypt_char c acc d))"
proof (rule for_each_char_invariant [where I = "same_bank d"])
  fix c s
  assume "same_bank d s"
  then show "same_bank d (snd (multi_decrypt_char c s))"
    using same_bank_decrypt_char by (rule same_bank_trans)
qed simp

lemma same_bank_wf: "same_bank d d' \<Longrightarrow> multi_wf d' \<longleftrightarrow> multi_wf d"
proof -
  assume sb: "same_bank d d'"
  then have m: "map mset (key d') = map mset (key d)" and s: "speeds d' = speeds d"
    by (simp_all add: same_bank_def)
  from m have len: "length (key d') = length (key d)" by (rule map_eq_imp_length_eq)
  have "wf_rotor (key d' ! i) \<longleftrightarrow> wf_rotor (key d ! i)" if "i < length (key d)" for i
  proof -
    from m that len have "mset (key d' ! i) = mset (key d ! i)"
      by (metis nth_map)
    then show ?thesis
      by (metis wf_rotor_def mset_eq_imp_distinct_iff mset_eq_length)
  qed
  with len s show ?thesis
    by (auto simp: multi_wf_def list_all_length)
qed

lemma same_bank_valid:
  "same_bank d d' \<Longrightarrow> list_all valid_rotor (key d') \<longleftrightarrow> list_all valid_rotor (key d)"
proof -
  assume "same_bank d d'"
  then have m: "map mset (key d') = map mset (key d)" by (simp add: same_bank_def)
  have "list_all valid_rotor ks \<longleftrightarrow> list_all (\<lambda>m. m = mset alphabet) (map mset ks)" for ks
    by (simp add: list_all_iff valid_rotor_def)
  with m show ?thesis by simp
qed


subsection \<open>Round trip and refinement\<close>

text \<open>
  C1 (round trip). A well-formed device encrypts any ASCII text without an
  exception, and a device in the same state decrypts the cipher text to the
  normalised plaintext; both devices end in the same state.
\<close>

theorem multi_roundtrip:
  assumes "multi_wf d" and "ascii_text plaintext"
  shows "\<exists>c d'. multi_encrypt plaintext d = (Inr c, d') \<and>
           multi_decrypt c d = (Inr (normalize_text plaintext), d')"
  using assms(1)
  by (simp add: multi_encrypt_wf multi_decrypt_def multi_loop_roundtrip set_normalize_subset)

theorem multi_roundtrip_witness:
  "multi_wf (multi_init [''9. ABCDEFGHIJKLMNOPQRSTUVWXYZ012345678'',
                         ''ZYXWVUTSRQPONMLKJIHGFEDCBA. 9876543210''] [5, 3]) \<and>
   ascii_text ''Attack at dawn.'' \<and>
   fst (multi_encrypt ''Attack at dawn.''
     (multi_init [''9. ABCDEFGHIJKLMNOPQRSTUVWXYZ012345678'',
                         ''ZYXWVUTSRQPONMLKJIHGFEDCBA. 9876543210''] [5, 3])) =
     Inr ''ZQDCRRRM6QHWXCG'' \<and>
   fst (multi_decrypt ''ZQDCRRRM6QHWXCG''
     (multi_init [''9. ABCDEFGHIJKLMNOPQRSTUVWXYZ012345678'',
                         ''ZYXWVUTSRQPONMLKJIHGFEDCBA. 9876543210''] [5, 3])) =
     Inr ''ATTACK AT DAWN.'' \<and>
   snd (multi_decrypt ''ZQDCRRRM6QHWXCG''
     (multi_init [''9. ABCDEFGHIJKLMNOPQRSTUVWXYZ012345678'',
                         ''ZYXWVUTSRQPONMLKJIHGFEDCBA. 9876543210''] [5, 3])) =
   snd (multi_encrypt ''Attack at dawn.''
     (multi_init [''9. ABCDEFGHIJKLMNOPQRSTUVWXYZ012345678'',
                         ''ZYXWVUTSRQPONMLKJIHGFEDCBA. 9876543210''] [5, 3]))"
proof -
  let ?d = "multi_init [''9. ABCDEFGHIJKLMNOPQRSTUVWXYZ012345678'',
                         ''ZYXWVUTSRQPONMLKJIHGFEDCBA. 9876543210''] [5, 3]"
  have wf: "multi_wf ?d" by code_simp
  have asc: "ascii_text ''Attack at dawn.''" by code_simp
  have enc: "fst (multi_encrypt ''Attack at dawn.'' ?d) = Inr ''ZQDCRRRM6QHWXCG''" by code_simp
  have dec: "fst (multi_decrypt ''ZQDCRRRM6QHWXCG'' ?d) = Inr ''ATTACK AT DAWN.''" by code_simp
  from multi_roundtrip [OF wf asc] enc
  have "snd (multi_decrypt ''ZQDCRRRM6QHWXCG'' ?d) = snd (multi_encrypt ''Attack at dawn.'' ?d)"
    by auto
  with wf asc enc dec show ?thesis by (intro conjI)
qed

text \<open>
  C3 (refinement). On a well-formed device \<open>encrypt\<close> returns the abstract cipher
  text of the normalised plaintext, and leaves the device in the state reached
  by one \<open>multi_advance\<close> per normalised character: the state after a call
  depends on the number of characters processed, not on the characters.
\<close>

theorem multi_encrypt_refines:
  assumes "multi_wf d" and "ascii_text plaintext"
  shows "multi_encrypt plaintext d =
           (Inr (spec_encrypt d (normalize_text plaintext)),
            (multi_advance ^^ length (normalize_text plaintext)) d)"
  using assms(1) by (rule multi_encrypt_wf)

theorem multi_encrypt_refines_witness:
  "multi_wf (multi_init [''9. ABCDEFGHIJKLMNOPQRSTUVWXYZ012345678'',
                         ''ZYXWVUTSRQPONMLKJIHGFEDCBA. 9876543210'',
                         ''BCDEFGHIJKLMNOPQRSTUVWXYZ0123456789. A''] [5, 3, 2]) \<and>
   ascii_text ''a b c'' \<and>
   multi_encrypt ''a b c''
     (multi_init [''9. ABCDEFGHIJKLMNOPQRSTUVWXYZ012345678'',
                         ''ZYXWVUTSRQPONMLKJIHGFEDCBA. 9876543210'',
                         ''BCDEFGHIJKLMNOPQRSTUVWXYZ0123456789. A''] [5, 3, 2]) =
     (Inr ''ZA.XF'',
      \<lparr>key = [''CDEFGHIJKLMNOPQRSTUVWXYZ0123456789. AB'',
               ''TSRQPONMLKJIHGFEDCBA. 9876543210ZYXWVU'',
               ''FGHIJKLMNOPQRSTUVWXYZ0123456789. ABCDE''],
         speeds = [5, 3, 2], cur_rotor_idx = 2, tracing = False\<rparr>) \<and>
   spec_encrypt (multi_init [''9. ABCDEFGHIJKLMNOPQRSTUVWXYZ012345678'',
                         ''ZYXWVUTSRQPONMLKJIHGFEDCBA. 9876543210'',
                         ''BCDEFGHIJKLMNOPQRSTUVWXYZ0123456789. A''] [5, 3, 2])
     (normalize_text ''a b c'') = ''ZA.XF''"
proof -
  let ?d = "multi_init [''9. ABCDEFGHIJKLMNOPQRSTUVWXYZ012345678'',
                         ''ZYXWVUTSRQPONMLKJIHGFEDCBA. 9876543210'',
                         ''BCDEFGHIJKLMNOPQRSTUVWXYZ0123456789. A''] [5, 3, 2]"
  have wf: "multi_wf ?d" by code_simp
  have asc: "ascii_text ''a b c''" by code_simp
  have impl: "multi_encrypt ''a b c'' ?d =
      (Inr ''ZA.XF'',
       \<lparr>key = [''CDEFGHIJKLMNOPQRSTUVWXYZ0123456789. AB'',
                ''TSRQPONMLKJIHGFEDCBA. 9876543210ZYXWVU'',
                ''FGHIJKLMNOPQRSTUVWXYZ0123456789. ABCDE''],
          speeds = [5, 3, 2], cur_rotor_idx = 2, tracing = False\<rparr>)"
    by code_simp
  from multi_encrypt_refines [OF wf asc] impl
  have "spec_encrypt ?d (normalize_text ''a b c'') = ''ZA.XF''" by simp
  with wf asc impl show ?thesis by (intro conjI)
qed

text \<open>
  C4 (refinement). \<open>decrypt\<close> on a well-formed device and a cipher text whose
  characters all occur in the rotors selected for them returns the abstract
  plain text and leaves the device in the state of one \<open>multi_advance\<close> per
  character.
\<close>

theorem multi_decrypt_refines:
  assumes "multi_wf d" and "decryptable d ciphertext"
  shows "multi_decrypt ciphertext d =
           (Inr (spec_decrypt d ciphertext), (multi_advance ^^ length ciphertext) d)"
  using assms by (rule multi_decrypt_wf)

theorem multi_decrypt_refines_witness:
  "multi_wf (multi_init [''9. ABCDEFGHIJKLMNOPQRSTUVWXYZ012345678'',
                         ''ZYXWVUTSRQPONMLKJIHGFEDCBA. 9876543210'',
                         ''BCDEFGHIJKLMNOPQRSTUVWXYZ0123456789. A''] [5, 3, 2]) \<and>
   decryptable (multi_init [''9. ABCDEFGHIJKLMNOPQRSTUVWXYZ012345678'',
                         ''ZYXWVUTSRQPONMLKJIHGFEDCBA. 9876543210'',
                         ''BCDEFGHIJKLMNOPQRSTUVWXYZ0123456789. A''] [5, 3, 2]) ''ZB9W'' \<and>
   fst (multi_decrypt ''ZB9W''
     (multi_init [''9. ABCDEFGHIJKLMNOPQRSTUVWXYZ012345678'',
                         ''ZYXWVUTSRQPONMLKJIHGFEDCBA. 9876543210'',
                         ''BCDEFGHIJKLMNOPQRSTUVWXYZ0123456789. A''] [5, 3, 2])) = Inr ''AAAA'' \<and>
   spec_decrypt (multi_init [''9. ABCDEFGHIJKLMNOPQRSTUVWXYZ012345678'',
                         ''ZYXWVUTSRQPONMLKJIHGFEDCBA. 9876543210'',
                         ''BCDEFGHIJKLMNOPQRSTUVWXYZ0123456789. A''] [5, 3, 2]) ''ZB9W'' = ''AAAA''"
proof -
  let ?d = "multi_init [''9. ABCDEFGHIJKLMNOPQRSTUVWXYZ012345678'',
                         ''ZYXWVUTSRQPONMLKJIHGFEDCBA. 9876543210'',
                         ''BCDEFGHIJKLMNOPQRSTUVWXYZ0123456789. A''] [5, 3, 2]"
  have wf: "multi_wf ?d" by code_simp
  have dec: "decryptable ?d ''ZB9W''" by code_simp
  have impl: "fst (multi_decrypt ''ZB9W'' ?d) = Inr ''AAAA''" by code_simp
  from multi_decrypt_refines [OF wf dec] impl
  have "spec_decrypt ?d ''ZB9W'' = ''AAAA''" by simp
  with wf dec impl show ?thesis by (intro conjI)
qed

subsection \<open>Selection order\<close>

text \<open>
  C5 (selection cycle). The character at position \<open>k\<close> of the normalised text is
  substituted through rotor number \<open>(cursor + k + 1) mod m\<close> of the bank as it
  stands after \<open>k\<close> characters, whatever the speeds; from a fresh device the
  rotors are used in the order \<open>1, 2, \<dots>, m - 1, 0, 1, \<dots>\<close>. The call leaves the
  cursor at \<open>(cursor + length) mod m\<close>.
\<close>

theorem multi_selection_cycle:
  assumes "multi_wf d" and "ascii_text plaintext" and "k < length (normalize_text plaintext)"
  shows "\<exists>c d'. multi_encrypt plaintext d = (Inr c, d') \<and>
           c ! k = key ((multi_advance ^^ k) d) ! ((cur_rotor_idx d + Suc k) mod length (key d))
                     ! pos alphabet (normalize_text plaintext ! k) \<and>
           cur_rotor_idx d' =
             (cur_rotor_idx d + length (normalize_text plaintext)) mod length (key d)"
proof -
  let ?msg = "normalize_text plaintext"
  have idx: "next_idx ((multi_advance ^^ k) d) = (cur_rotor_idx d + Suc k) mod length (key d)"
  proof (cases "k = 0")
    case True
    then show ?thesis by (simp add: next_idx_def)
  next
    case False
    then have "cur_rotor_idx ((multi_advance ^^ k) d) = (cur_rotor_idx d + k) mod length (key d)"
      by (simp add: cursor_funpow)
    then show ?thesis by (simp add: next_idx_def mod_Suc_eq)
  qed
  from assms(3) have sym: "spec_encrypt d ?msg ! k = enc_sym ((multi_advance ^^ k) d) (?msg ! k)"
    by (simp add: spec_encrypt_def nth_keystream)
  from assms(3) have "0 < length ?msg" by (cases ?msg) simp_all
  then have "cur_rotor_idx ((multi_advance ^^ length ?msg) d) =
      (cur_rotor_idx d + length ?msg) mod length (key d)"
    by (rule cursor_funpow)
  with assms(1) idx sym show ?thesis
    by (simp add: multi_encrypt_wf enc_sym_def)
qed

theorem multi_selection_cycle_witness:
  "multi_wf (multi_init [''9. ABCDEFGHIJKLMNOPQRSTUVWXYZ012345678'',
                         ''ZYXWVUTSRQPONMLKJIHGFEDCBA. 9876543210'',
                         ''BCDEFGHIJKLMNOPQRSTUVWXYZ0123456789. A''] [5, 3, 2]) \<and>
   ascii_text ''aaaa'' \<and> 3 < length (normalize_text ''aaaa'') \<and>
   (\<exists>c d'. multi_encrypt ''aaaa''
        (multi_init [''9. ABCDEFGHIJKLMNOPQRSTUVWXYZ012345678'',
                     ''ZYXWVUTSRQPONMLKJIHGFEDCBA. 9876543210'',
                     ''BCDEFGHIJKLMNOPQRSTUVWXYZ0123456789. A''] [5, 3, 2]) = (Inr c, d') \<and>
      c = ''ZB9W'' \<and> cur_rotor_idx d' = 1)"
proof -
  let ?d = "multi_init [''9. ABCDEFGHIJKLMNOPQRSTUVWXYZ012345678'',
                        ''ZYXWVUTSRQPONMLKJIHGFEDCBA. 9876543210'',
                        ''BCDEFGHIJKLMNOPQRSTUVWXYZ0123456789. A''] [5, 3, 2]"
  have wf: "multi_wf ?d" by code_simp
  have asc: "ascii_text ''aaaa''" by code_simp
  have norm: "normalize_text ''aaaa'' = ''AAAA''" by code_simp
  then have len: "3 < length (normalize_text ''aaaa'')" by simp
  have val: "fst (multi_encrypt ''aaaa'' ?d) = Inr ''ZB9W''" by code_simp
  from multi_selection_cycle [OF wf asc len] val wf asc len show ?thesis
    by (auto simp: multi_init_def norm)
qed

subsection \<open>Invariants of the calls\<close>

text \<open>
  C15 (invariant). Whatever the device and the text, and whether the call returns
  or raises, \<open>encrypt\<close> and \<open>decrypt\<close> leave the speeds and the tracing flag as
  they were, and every rotor of the bank with the symbols it had: rotors are
  neither added nor removed, and each is only ever rotated.
\<close>

theorem multi_calls_keep_bank:
  "same_bank d (snd (multi_encrypt plaintext d)) \<and>
   same_bank d (snd (multi_decrypt ciphertext d))"
  by (simp add: multi_encrypt_def multi_decrypt_def same_bank_encrypt_loop
      same_bank_decrypt_loop)

text \<open>
  C14 (invariant). A well-formed device stays well-formed across \<open>encrypt\<close> and
  \<open>decrypt\<close>, also when \<open>decrypt\<close> raises on a character that is not in the
  selected rotor; a bank of permutations of the alphabet stays one.
\<close>

theorem multi_calls_keep_wf:
  assumes "multi_wf d"
  shows "multi_wf (snd (multi_encrypt plaintext d)) \<and>
         multi_wf (snd (multi_decrypt ciphertext d)) \<and>
         (list_all valid_rotor (key d) \<longrightarrow>
            list_all valid_rotor (key (snd (multi_encrypt plaintext d))) \<and>
            list_all valid_rotor (key (snd (multi_decrypt ciphertext d))))"
proof -
  have e: "same_bank d (snd (multi_encrypt plaintext d))"
    and c: "same_bank d (snd (multi_decrypt ciphertext d))"
    by (simp_all add: multi_encrypt_def multi_decrypt_def same_bank_encrypt_loop
        same_bank_decrypt_loop)
  from assms show ?thesis
    by (simp add: same_bank_wf [OF e] same_bank_wf [OF c] same_bank_valid [OF e]
        same_bank_valid [OF c])
qed

theorem multi_calls_keep_wf_witness:
  "multi_wf (multi_init [''9. ABCDEFGHIJKLMNOPQRSTUVWXYZ012345678''] [5]) \<and>
   list_all valid_rotor (key (multi_init [''9. ABCDEFGHIJKLMNOPQRSTUVWXYZ012345678''] [5])) \<and>
   fst (multi_decrypt ''9B?'' (multi_init [''9. ABCDEFGHIJKLMNOPQRSTUVWXYZ012345678''] [5])) =
     Inl ValueError \<and>
   multi_wf (snd (multi_decrypt ''9B?''
     (multi_init [''9. ABCDEFGHIJKLMNOPQRSTUVWXYZ012345678''] [5]))) \<and>
   list_all valid_rotor (key (snd (multi_decrypt ''9B?''
     (multi_init [''9. ABCDEFGHIJKLMNOPQRSTUVWXYZ012345678''] [5]))))"
proof -
  let ?d = "multi_init [''9. ABCDEFGHIJKLMNOPQRSTUVWXYZ012345678''] [5]"
  have wf: "multi_wf ?d" by code_simp
  have val: "list_all valid_rotor (key ?d)"
  proof -
    have "''9. ABCDEFGHIJKLMNOPQRSTUVWXYZ012345678'' = rotate 35 alphabet" by code_simp
    then show ?thesis by (simp add: multi_init_def valid_rotor_def)
  qed
  have err: "fst (multi_decrypt ''9B?'' ?d) = Inl ValueError" by code_simp
  from multi_calls_keep_wf [OF wf, of "[]" "''9B?''"] wf val err show ?thesis by simp
qed

subsection \<open>Continuation of the state across calls\<close>



end
