(* ===== verification/Multi_Errors.thy ===== *)
theory Multi_Errors
  imports Multi_Cipher
begin

text \<open>
  The exceptions of \<open>MultiRotorDevice\<close>: which call raises what, on which input,
  and in which state it leaves the device. The constructor checks nothing, so
  a malformed key or speed list shows only when a character is processed.
  The per-character case tables are \<open>multi_encrypt_char_eq\<close> and
  \<open>multi_decrypt_char_eq\<close> of theory \<open>MultiRotorDevice\<close>; here they are lifted to
  whole calls.
\<close>

text \<open>
  C24 (error). Every branch of the two loop bodies. \<open>encrypt\<close> raises ValueError on
  a character outside the alphabet before anything is mutated, ZeroDivisionError
  on an empty bank, IndexError when the selected rotor is shorter than the
  character's index or has no speed; \<open>decrypt\<close> raises ZeroDivisionError on an
  empty bank, ValueError on a character the selected rotor does not hold,
  IndexError when that character stands beyond the alphabet's length or the
  rotor has no speed. Once the cursor has advanced the exception leaves it
  advanced and the rotor unrotated; otherwise the character is substituted and
  the state is \<open>multi_advance\<close>.
\<close>

theorem multi_step_branches:
  "multi_encrypt_char c d =
     (if c \<notin> set alphabet then (Inl ValueError, d)
      else if key d = [] then (Inl ZeroDivisionError, d)
      else if length (key d ! next_idx d) \<le> pos alphabet c \<or> length (speeds d) \<le> next_idx d
        then (Inl IndexError, cursor_moved d)
      else (Inr (key d ! next_idx d ! pos alphabet c), multi_advance d)) \<and>
   multi_decrypt_char k d =
     (if key d = [] then (Inl ZeroDivisionError, d)
      else if k \<notin> set (key d ! next_idx d) then (Inl ValueError, cursor_moved d)
      else if length alphabet \<le> pos (key d ! next_idx d) k \<or> length (speeds d) \<le> next_idx d
        then (Inl IndexError, cursor_moved d)
      else (Inr (alphabet ! pos (key d ! next_idx d) k), multi_advance d))"
  using multi_encrypt_char_eq [of c d] multi_decrypt_char_eq [of k d] by simp

text \<open>
  C26 (error). An unsupported character aborts \<open>encrypt\<close> with ValueError and no
  output, whatever follows it. The characters before it have been processed:
  the device is left advanced by exactly their number, and the cursor has not
  moved for the failing character.
\<close>

theorem multi_encrypt_stops_at_unsupported:
  assumes "multi_wf d" and "set pre \<subseteq> set alphabet" and "c \<notin> set alphabet"
  shows "for_each_char multi_encrypt_char (pre @ c # rest) out d =
           (Inl ValueError, (multi_advance ^^ length pre) d)"
proof (rule for_each_char_first_failure [where I = multi_wf and A = "\<lambda>_. set alphabet"])
  from assms(3) show "multi_encrypt_char c ((multi_advance ^^ length pre) d) =
      (Inl ValueError, (multi_advance ^^ length pre) d)"
    by (simp add: multi_encrypt_char_eq)
qed (use assms in \<open>simp_all add: multi_encrypt_step\<close>)

theorem multi_encrypt_stops_at_unsupported_witness:
  "multi_wf (multi_init [''9. ABCDEFGHIJKLMNOPQRSTUVWXYZ012345678''] [5]) \<and>
   set ''AB'' \<subseteq> set alphabet \<and> CHR ''?'' \<notin> set alphabet \<and>
   for_each_char multi_encrypt_char ''AB?C'' []
     (multi_init [''9. ABCDEFGHIJKLMNOPQRSTUVWXYZ012345678''] [5]) =
     (Inl ValueError,
      \<lparr>key = [''HIJKLMNOPQRSTUVWXYZ0123456789. ABCDEFG''], speeds = [5],
       cur_rotor_idx = 0, tracing = False\<rparr>)"
proof -
  let ?d = "multi_init [''9. ABCDEFGHIJKLMNOPQRSTUVWXYZ012345678''] [5]"
  have wf: "multi_wf ?d" by code_simp
  have pre: "set ''AB'' \<subseteq> set alphabet" by code_simp
  have c: "CHR ''?'' \<notin> set alphabet" by code_simp
  have st: "(multi_advance ^^ length ''AB'') ?d =
      \<lparr>key = [''HIJKLMNOPQRSTUVWXYZ0123456789. ABCDEFG''], speeds = [5],
       cur_rotor_idx = 0, tracing = False\<rparr>"
    by code_simp
  from multi_encrypt_stops_at_unsupported [OF wf pre c, of "''C''" "[]"] wf pre c
  show ?thesis by (simp only: st) simp
qed

text \<open>
  C25 (error). A cipher text character that the selected rotor does not hold
  aborts \<open>decrypt\<close> with ValueError and no output. The device is left advanced
  by the characters before it, with the cursor already moved to the rotor of
  the failing character and that rotor not rotated: the call is not atomic.
\<close>

theorem multi_decrypt_stops_at_foreign:
  assumes "multi_wf d" and "decryptable d pre"
    and "c \<notin> set (key ((multi_advance ^^ length pre) d) ! next_idx ((multi_advance ^^ length pre) d))"
  shows "multi_decrypt (pre @ c # rest) d =
           (Inl ValueError, cursor_moved ((multi_advance ^^ length pre) d))"
  unfolding multi_decrypt_def
proof (rule for_each_char_first_failure
    [where I = multi_wf and A = "\<lambda>d. set (key d ! next_idx d)"])
  from assms(1) have "key ((multi_advance ^^ length pre) d) \<noteq> []"
    by (simp add: multi_wf_funpow multi_wf_key_nonempty)
  with assms(3) show "multi_decrypt_char c ((multi_advance ^^ length pre) d) =
      (Inl ValueError, cursor_moved ((multi_advance ^^ length pre) d))"
    by (simp add: multi_decrypt_char_eq)
qed (use assms in \<open>simp_all add: multi_decrypt_step decryptable_def\<close>)

theorem multi_decrypt_stops_at_foreign_witness:
  "multi_wf (multi_init [''9. ABCDEFGHIJKLMNOPQRSTUVWXYZ012345678'',
                         ''ZYXWVUTSRQPONMLKJIHGFEDCBA. 9876543210''] [5, 3]) \<and>
   decryptable (multi_init [''9. ABCDEFGHIJKLMNOPQRSTUVWXYZ012345678'',
                            ''ZYXWVUTSRQPONMLKJIHGFEDCBA. 9876543210''] [5, 3]) ''Z'' \<and>
   multi_decrypt ''Z?Q''
     (multi_init [''9. ABCDEFGHIJKLMNOPQRSTUVWXYZ012345678'',
                  ''ZYXWVUTSRQPONMLKJIHGFEDCBA. 9876543210''] [5, 3]) =
     (Inl ValueError,
      \<lparr>key = [''9. ABCDEFGHIJKLMNOPQRSTUVWXYZ012345678'',
              ''WVUTSRQPONMLKJIHGFEDCBA. 9876543210ZYX''], speeds = [5, 3],
       cur_rotor_idx = 0, tracing = False\<rparr>)"
proof -
  let ?d = "multi_init [''9. ABCDEFGHIJKLMNOPQRSTUVWXYZ012345678'',
                        ''ZYXWVUTSRQPONMLKJIHGFEDCBA. 9876543210''] [5, 3]"
  have wf: "multi_wf ?d" by code_simp
  have pre: "decryptable ?d ''Z''" by code_simp
  have c: "CHR ''?'' \<notin> set (key ((multi_advance ^^ length ''Z'') ?d) !
      next_idx ((multi_advance ^^ length ''Z'') ?d))"
    by code_simp
  have st: "cursor_moved ((multi_advance ^^ length ''Z'') ?d) =
      \<lparr>key = [''9. ABCDEFGHIJKLMNOPQRSTUVWXYZ012345678'',
              ''WVUTSRQPONMLKJIHGFEDCBA. 9876543210ZYX''], speeds = [5, 3],
       cur_rotor_idx = 0, tracing = False\<rparr>"
    by code_simp
  from multi_decrypt_stops_at_foreign [OF wf pre c, of "''Q''"] wf pre
  show ?thesis by (simp only: st) simp
qed

text \<open>
  C27 (error). The constructor accepts an empty key. The first character that
  reaches the bank then raises ZeroDivisionError in \<open>__next_rotor\<close>, from
  \<open>encrypt\<close> and from \<open>decrypt\<close> alike, and the device is unchanged; only a
  text that normalises to the empty string is encrypted (to the empty string).
\<close>

theorem multi_empty_key:
  assumes "ascii_text plaintext"
  shows "multi_encrypt plaintext (multi_init [] s) =
           (if normalize_text plaintext = [] then Inr [] else Inl ZeroDivisionError,
            multi_init [] s) \<and>
         multi_decrypt (c # ciphertext) (multi_init [] s) =
           (Inl ZeroDivisionError, multi_init [] s)"
proof -
  have k: "key (multi_init [] s) = []" by (simp add: multi_init_def)
  have "multi_encrypt plaintext (multi_init [] s) =
      (if normalize_text plaintext = [] then Inr [] else Inl ZeroDivisionError, multi_init [] s)"
  proof (cases "normalize_text plaintext")
    case Nil
    then show ?thesis by (simp add: multi_encrypt_def)
  next
    case (Cons a msg)
    then have "a \<in> set alphabet" using set_normalize_subset [of plaintext] by simp
    with Cons k show ?thesis by (simp add: multi_encrypt_def multi_encrypt_char_eq)
  qed
  with k show ?thesis by (simp add: multi_decrypt_def multi_decrypt_char_eq)
qed

theorem multi_empty_key_witness:
  "ascii_text ''go'' \<and>
   multi_encrypt ''go'' (multi_init [] [1]) = (Inl ZeroDivisionError, multi_init [] [1]) \<and>
   multi_decrypt ''GO'' (multi_init [] [1]) = (Inl ZeroDivisionError, multi_init [] [1])"
proof -
  have asc: "ascii_text ''go''" by code_simp
  have n: "normalize_text ''go'' = ''GO''" by code_simp
  from multi_empty_key [OF asc, of "[1]" "CHR ''G''" "''O''"] asc show ?thesis
    by (simp add: n)
qed

text \<open>
  C28 (safety). Through \<open>encrypt\<close> the ValueError of \<open>alphabet.index\<close> cannot be
  reached on ASCII text: the normaliser has removed every character outside
  the alphabet before the loop starts. Whatever the device, well-formed or
  not, \<open>encrypt\<close> returns or raises one of the other exceptions.
\<close>

theorem multi_encrypt_no_value_error:
  assumes "ascii_text plaintext"
  shows "fst (multi_encrypt plaintext d) \<noteq> Inl ValueError"
  unfolding multi_encrypt_def
proof (rule for_each_char_no_error)
  fix c s
  assume "c \<in> set (normalize_text plaintext)"
  then have "c \<in> set alphabet" using set_normalize_subset by auto
  then show "fst (multi_encrypt_char c s) \<noteq> Inl ValueError"
    by (simp add: multi_encrypt_char_eq)
qed

theorem multi_encrypt_no_value_error_witness:
  "ascii_text ''a?z'' \<and>
   fst (multi_encrypt ''a?z'' (multi_init [''ABC''] [1])) = Inl IndexError"
proof -
  have a: "ascii_text ''a?z''" by code_simp
  have "fst (multi_encrypt ''a?z'' (multi_init [''ABC''] [1])) = Inl IndexError" by code_simp
  with multi_encrypt_no_value_error [OF a, of "multi_init [''ABC''] [1]"] a show ?thesis by simp
qed

end
