(* ===== verification/Tracing.thy ===== *)
theory Tracing
  imports Multi_Cipher "HOL-Library.Sublist"
begin

text \<open>
  \<open>MultiRotorDevice\<close> with its diagnostic output: the methods of
  \<open>src/MultiRotorDevice.py\<close> statement by statement, the \<open>print\<close> calls guarded by
  \<open>__tracing\<close> included.

  \<^item> Standard output is a string; \<open>py_print\<close> appends the arguments of one
    \<open>print\<close> call, joined by spaces, and a newline. \<open>py_str_int\<close> is \<open>str\<close> of an
    integer, as \<open>'%s' % speed\<close> formats it.
  \<^item> A traced state is the device together with the output written so far.
    \<open>show_rotors\<close> is \<open>__show_rotors\<close>; \<open>multi_init_t\<close>, \<open>multi_rotate_t\<close>,
    \<open>multi_encrypt_t\<close> and \<open>multi_decrypt_t\<close> are the methods with their output,
    \<open>multi_encrypt_char_t\<close> and \<open>multi_decrypt_char_t\<close> the loop bodies. The
    body of \<open>encrypt\<close> prints the cipher text accumulated so far, so its loop
    (\<open>for_each_acc\<close>) hands the accumulator to the body.
  \<^item> \<open>erase\<close> forgets the output. The lemmas show that every traced method,
    with the output erased, is the method of theory \<open>MultiRotorDevice\<close>
    (so every theorem about the methods holds with tracing on or off), that
    nothing is written while the flag is off, and that output is only ever
    appended.
\<close>

type_synonym traced = "multi_rotor_device \<times> string"

text \<open>\<open>if self.__tracing: print(...)\<close>\<close>

definition trace_print :: "multi_rotor_device \<Rightarrow> string list \<Rightarrow> string \<Rightarrow> string" where
  "trace_print d args out = (if tracing d then py_print args out else out)"

definition show_rotors :: "multi_rotor_device \<Rightarrow> string \<Rightarrow> string" where
  "show_rotors d out =
     py_print [replicate 10 (CHR ''*''), ''/rotors'', replicate 10 (CHR ''*'')]
       (fold (\<lambda>rotor. py_print [rotor]) (key d)
          (py_print [replicate 10 (CHR ''*''), ''rotors'', replicate 10 (CHR ''*'')] out))"

definition trace_rotors :: "multi_rotor_device \<Rightarrow> string \<Rightarrow> string" where
  "trace_rotors d out = (if tracing d then show_rotors d out else out)"

definition multi_init_t :: "string list \<Rightarrow> int list \<Rightarrow> string \<Rightarrow> traced" where
  "multi_init_t k rotation_speeds out =
     (let d = multi_init k rotation_speeds in (d, trace_rotors d out))"

definition multi_enable_tracing_t :: "traced \<Rightarrow> traced" where
  "multi_enable_tracing_t s = (multi_enable_tracing (fst s), snd s)"

fun multi_rotate_t :: "(traced, unit) prog" where
  "multi_rotate_t (d, out) =
     (let out1 = trace_print d [replicate 10 (CHR ''-''), ''rotate....''] out in
      case multi_current_rotor d of
        Inl e \<Rightarrow> (Inl e, (d, out1))
      | Inr rotor \<Rightarrow>
          (case py_getitem (speeds d) (cur_rotor_idx d) of
             Inl e \<Rightarrow> (Inl e, (d, out1))
           | Inr speed \<Rightarrow>
               (let out2 = trace_print d
                      [''rotating rotor by '' @ py_str_int speed @ '':   '', rotor] out1 in
                case rotate_left speed rotor of
                  (Inl e, rotor') \<Rightarrow> (Inl e, (d\<lparr>key := (key d)[cur_rotor_idx d := rotor']\<rparr>, out2))
                | (Inr u, rotor') \<Rightarrow>
                    (let d' = d\<lparr>key := (key d)[cur_rotor_idx d := rotor']\<rparr>
                     in (Inr u, (d', trace_rotors d' out2))))))"

fun multi_encrypt_char_t :: "string \<Rightarrow> char \<Rightarrow> (traced, char) prog" where
  "multi_encrypt_char_t ciphertext c (d, out) =
     (let out1 = trace_print d [replicate 10 (CHR ''-''), ''char -> '' @ [c]] out in
      case py_index alphabet c of
        Inl e \<Rightarrow> (Inl e, (d, out1))
      | Inr i \<Rightarrow>
          (case multi_next_rotor d of
             (Inl e, d1) \<Rightarrow> (Inl e, (d1, out1))
           | (Inr rotor, d1) \<Rightarrow>
               (let out2 = trace_print d1 [''rotor:'', rotor] out1 in
                case py_getitem rotor i of
                  Inl e \<Rightarrow> (Inl e, (d1, out2))
                | Inr k \<Rightarrow>
                    (let out3 = trace_print d1 [''ciphertext:'', ciphertext @ [k]] out2 in
                     case multi_rotate_t (d1, out3) of
                       (Inl e, s2) \<Rightarrow> (Inl e, s2)
                     | (Inr _, s2) \<Rightarrow> (Inr k, s2)))))"

fun for_each_acc ::
  "('o list \<Rightarrow> 'c \<Rightarrow> ('s, 'o) prog) \<Rightarrow> 'c list \<Rightarrow> 'o list \<Rightarrow> ('s, 'o list) prog" where
  "for_each_acc body [] out s = (Inr out, s)"
| "for_each_acc body (c # cs) out s =
     (case body out c s of
        (Inl e, s') \<Rightarrow> (Inl e, s')
      | (Inr k, s') \<Rightarrow> for_each_acc body cs (out @ [k]) s')"

fun multi_encrypt_t :: "string \<Rightarrow> (traced, string) prog" where
  "multi_encrypt_t plaintext (d, out) =
     (let msg = normalize_text plaintext;
          out0 = trace_print d
            [[CHR 0x0A, CHR 0x0A], replicate 10 (CHR ''=''), ''encrypting...''] out
      in for_each_acc multi_encrypt_char_t msg [] (d, out0))"

fun multi_decrypt_char_t :: "char \<Rightarrow> (traced, char) prog" where
  "multi_decrypt_char_t c (d, out) =
     (case multi_next_rotor d of
        (Inl e, d1) \<Rightarrow> (Inl e, (d1, out))
      | (Inr rotor, d1) \<Rightarrow>
          (let out1 = trace_print d1 [''rotor:'', rotor] out in
           case py_index rotor c of
             Inl e \<Rightarrow> (Inl e, (d1, out1))
           | Inr i \<Rightarrow>
               (let out2 = trace_print d1 [''char at rotor position'', string_of_nat i] out1 in
                case py_getitem alphabet i of
                  Inl e \<Rightarrow> (Inl e, (d1, out2))
                | Inr a \<Rightarrow>
                    (case multi_rotate_t (d1, out2) of
                       (Inl e, s2) \<Rightarrow> (Inl e, s2)
                     | (Inr _, s2) \<Rightarrow> (Inr a, s2)))))"

fun multi_decrypt_t :: "string \<Rightarrow> (traced, string) prog" where
  "multi_decrypt_t ciphertext (d, out) =
     (let out0 = trace_print d
            [[CHR 0x0A, CHR 0x0A], replicate 10 (CHR ''=''), ''decrypting...''] out
      in for_each_char multi_decrypt_char_t ciphertext [] (d, out0))"

text \<open>Forgetting the output.\<close>

definition erase :: "'a \<times> traced \<Rightarrow> 'a \<times> multi_rotor_device" where
  "erase r = (fst r, fst (snd r))"

declare multi_rotate_t.simps [simp del] multi_encrypt_char_t.simps [simp del]
  multi_decrypt_char_t.simps [simp del] multi_encrypt_t.simps [simp del]
  multi_decrypt_t.simps [simp del]

lemmas traced_defs [rotor_defs] =
  multi_rotate_t.simps multi_encrypt_char_t.simps multi_decrypt_char_t.simps

subsection \<open>Erasure\<close>

lemma erase_simps [simp]: "erase (r, (d, out)) = (r, d)"
  by (simp add: erase_def)

lemma erase_rotate: "erase (multi_rotate_t (d, out)) = multi_rotate d"
  by (simp add: multi_rotate_t.simps multi_rotate_def Let_def split: sum.splits prod.splits)

lemma erase_eq_iff: "erase x = (r, d) \<longleftrightarrow> (\<exists>out. x = (r, (d, out)))"
  by (cases x) (auto simp: erase_def)

lemma erase_rotate_cases:
  obtains out' where "multi_rotate_t (d, out) = (fst (multi_rotate d), (snd (multi_rotate d), out'))"
proof -
  obtain r d' out' where t: "multi_rotate_t (d, out) = (r, (d', out'))"
    by (metis surj_pair)
  with erase_rotate [of d out] have "multi_rotate d = (r, d')" by simp
  with t that [of out'] show thesis by simp
qed

lemma erase_after_rotate:
  "erase (case multi_rotate_t (d, out) of
            (Inl e, s') \<Rightarrow> (Inl e, s') | (Inr u, s') \<Rightarrow> (Inr k, s')) =
     (case multi_rotate d of (Inl e, d') \<Rightarrow> (Inl e, d') | (Inr u, d') \<Rightarrow> (Inr k, d'))"
  by (rule erase_rotate_cases [of d out]) (auto simp: erase_def split: sum.splits prod.splits)

lemma erase_encrypt_char:
  "erase (multi_encrypt_char_t acc c (d, out)) = multi_encrypt_char c d"
  by (simp add: multi_encrypt_char_t.simps multi_encrypt_char_def Let_def erase_after_rotate
      split: sum.splits prod.splits)

lemma erase_decrypt_char:
  "erase (multi_decrypt_char_t c (d, out)) = multi_decrypt_char c d"
  by (simp add: multi_decrypt_char_t.simps multi_decrypt_char_def Let_def erase_after_rotate
      split: sum.splits prod.splits)

lemma erase_for_each_acc:
  assumes "\<And>acc c d out. erase (body_t acc c (d, out)) = body c d"
  shows "erase (for_each_acc body_t cs acc (d, out)) = for_each_char body cs acc d"
proof (induction cs arbitrary: acc d out)
  case Nil
  show ?case by simp
next
  case (Cons c cs)
  obtain r d' out' where b: "body_t acc c (d, out) = (r, (d', out'))"
    by (metis surj_pair)
  with assms [of acc c d out] have "body c d = (r, d')" by simp
  with b Cons.IH show ?case by (cases r) simp_all
qed

lemma for_each_acc_const: "for_each_acc (\<lambda>_. body) cs acc s = for_each_char body cs acc s"
  by (induction cs arbitrary: acc s) (simp_all split: prod.splits sum.splits)

lemma erase_for_each_char:
  assumes "\<And>c d out. erase (body_t c (d, out)) = body c d"
  shows "erase (for_each_char body_t cs acc (d, out)) = for_each_char body cs acc d"
  using erase_for_each_acc [of "\<lambda>_. body_t" body cs acc d out] assms
  by (simp add: for_each_acc_const)

lemma erase_encrypt: "erase (multi_encrypt_t plaintext (d, out)) = multi_encrypt plaintext d"
  by (simp add: multi_encrypt_t.simps multi_encrypt_def Let_def erase_for_each_acc
      erase_encrypt_char)

lemma erase_decrypt: "erase (multi_decrypt_t ciphertext (d, out)) = multi_decrypt ciphertext d"
  by (simp add: multi_decrypt_t.simps multi_decrypt_def Let_def erase_for_each_char
      erase_decrypt_char)

subsection \<open>Output\<close>

lemma trace_print_off [simp]: "\<not> tracing d \<Longrightarrow> trace_print d args out = out"
  by (simp add: trace_print_def)

lemma trace_rotors_off [simp]: "\<not> tracing d \<Longrightarrow> trace_rotors d out = out"
  by (simp add: trace_rotors_def)

lemma tracing_next_rotor [simp]: "tracing (snd (multi_next_rotor d)) = tracing d"
  using same_bank_next_rotor [of d] by (simp add: same_bank_def)

lemma tracing_rotate [simp]: "tracing (snd (multi_rotate d)) = tracing d"
  using same_bank_rotate [of d] by (simp add: same_bank_def)

lemma prefix_py_print [simp]: "prefix out (py_print args out)"
  by (simp add: py_print_def)

lemma prefix_trace_print [simp]: "prefix out (trace_print d args out)"
  by (simp add: trace_print_def)

lemma prefix_print_trans [intro]:
  "prefix out out' \<Longrightarrow> prefix out (py_print args out')"
  "prefix out out' \<Longrightarrow> prefix out (trace_print d args out')"
  by (auto simp: trace_print_def py_print_def intro: prefix_order.trans)

lemma prefix_show_rotors [simp]: "prefix out (show_rotors d out)"
proof -
  have "prefix out' (fold (\<lambda>rotor. py_print [rotor]) rs out')" for rs out'
    by (induction rs arbitrary: out') (auto intro: prefix_order.trans [OF prefix_py_print])
  then show ?thesis
    unfolding show_rotors_def
    by (blast intro: prefix_order.trans prefix_py_print)
qed

lemma prefix_trace_rotors [simp]: "prefix out (trace_rotors d out)"
  by (simp add: trace_rotors_def)

lemma prefix_rotate_t: "prefix out (snd (snd (multi_rotate_t (d, out))))"
  by (auto simp: multi_rotate_t.simps Let_def split: sum.splits prod.splits
      intro: prefix_order.trans [OF prefix_trace_print] prefix_order.trans [OF _ prefix_trace_rotors])

lemma silent_rotate_t: "\<not> tracing d \<Longrightarrow> snd (snd (multi_rotate_t (d, out))) = out"
  by (simp add: multi_rotate_t.simps Let_def split: sum.splits prod.splits)

lemma tracing_encrypt_char_t [simp]:
  "tracing (fst (snd (multi_encrypt_char_t acc c (d, out)))) = tracing d"
proof -
  have "fst (snd (multi_encrypt_char_t acc c (d, out))) = snd (multi_encrypt_char c d)"
    using erase_encrypt_char [of acc c d out] by (simp add: erase_def prod_eq_iff)
  then show ?thesis using same_bank_encrypt_char [of d c] by (simp add: same_bank_def)
qed

lemma tracing_decrypt_char_t [simp]:
  "tracing (fst (snd (multi_decrypt_char_t c (d, out)))) = tracing d"
proof -
  have "fst (snd (multi_decrypt_char_t c (d, out))) = snd (multi_decrypt_char c d)"
    using erase_decrypt_char [of c d out] by (simp add: erase_def prod_eq_iff)
  then show ?thesis using same_bank_decrypt_char [of d c] by (simp add: same_bank_def)
qed

lemma next_rotor_tracingD: "multi_next_rotor d = (r, d1) \<Longrightarrow> tracing d1 = tracing d"
  using tracing_next_rotor [of d] by simp

lemma rotate_t_silentD:
  "multi_rotate_t (d, out) = (r, (d', out')) \<Longrightarrow> \<not> tracing d \<Longrightarrow> out' = out"
  using silent_rotate_t [of d out] by simp

lemma rotate_t_prefixD:
  "multi_rotate_t (d, out') = (r, (d', out'')) \<Longrightarrow> prefix out out' \<Longrightarrow> prefix out out''"
  using prefix_rotate_t [of out' d] by (auto intro: prefix_order.trans)

lemma silent_encrypt_char:
  "\<not> tracing d \<Longrightarrow> snd (snd (multi_encrypt_char_t acc c (d, out))) = out"
  by (auto simp: multi_encrypt_char_t.simps Let_def split: sum.splits prod.splits
      dest!: next_rotor_tracingD dest: rotate_t_silentD)

lemma silent_decrypt_char:
  "\<not> tracing d \<Longrightarrow> snd (snd (multi_decrypt_char_t c (d, out))) = out"
  by (auto simp: multi_decrypt_char_t.simps Let_def split: sum.splits prod.splits
      dest!: next_rotor_tracingD dest: rotate_t_silentD)

lemma prefix_encrypt_char: "prefix out (snd (snd (multi_encrypt_char_t acc c (d, out))))"
  by (auto simp: multi_encrypt_char_t.simps Let_def split: sum.splits prod.splits
      intro!: prefix_print_trans elim!: rotate_t_prefixD)

lemma prefix_decrypt_char: "prefix out (snd (snd (multi_decrypt_char_t c (d, out))))"
  by (auto simp: multi_decrypt_char_t.simps Let_def split: sum.splits prod.splits
      intro!: prefix_print_trans elim!: rotate_t_prefixD)

lemma for_each_acc_invariant:
  assumes step: "\<And>acc c s. I s \<Longrightarrow> I (snd (body acc c s))" and init: "I s"
  shows "I (snd (for_each_acc body cs out s))"
  using init
proof (induction cs arbitrary: out s)
  case Nil
  then show ?case by simp
next
  case (Cons c cs)
  from Cons.prems have "I (snd (body out c s))" by (rule step)
  with Cons.IH show ?case by (auto split: prod.splits sum.splits)
qed

lemma silent_encrypt:
  assumes "\<not> tracing d"
  shows "snd (snd (multi_encrypt_t plaintext (d, out))) = out"
proof -
  let ?I = "\<lambda>s. \<not> tracing (fst s) \<and> snd s = out"
  have "?I (snd (for_each_acc multi_encrypt_char_t (normalize_text plaintext) [] (d, out)))"
  proof (rule for_each_acc_invariant [where I = ?I])
    fix acc c and s :: traced
    assume "?I s"
    then show "?I (snd (multi_encrypt_char_t acc c s))"
      by (cases s) (simp add: silent_encrypt_char)
  qed (use assms in simp)
  with assms show ?thesis by (simp add: multi_encrypt_t.simps Let_def)
qed

lemma silent_decrypt:
  assumes "\<not> tracing d"
  shows "snd (snd (multi_decrypt_t ciphertext (d, out))) = out"
proof -
  let ?I = "\<lambda>s. \<not> tracing (fst s) \<and> snd s = out"
  have "?I (snd (for_each_char multi_decrypt_char_t ciphertext [] (d, out)))"
  proof (rule for_each_char_invariant [where I = ?I])
    fix c and s :: traced
    assume "?I s"
    then show "?I (snd (multi_decrypt_char_t c s))"
      by (cases s) (simp add: silent_decrypt_char)
  qed (use assms in simp)
  with assms show ?thesis by (simp add: multi_decrypt_t.simps Let_def)
qed

lemma prefix_encrypt: "prefix out (snd (snd (multi_encrypt_t plaintext (d, out))))"
proof -
  let ?out0 = "trace_print d [[CHR 0x0A, CHR 0x0A], replicate 10 (CHR ''=''), ''encrypting...''] out"
  have "prefix out (snd (snd (for_each_acc multi_encrypt_char_t (normalize_text plaintext) []
      (d, ?out0))))"
  proof (rule for_each_acc_invariant [where I = "\<lambda>s. prefix out (snd s)"])
    fix acc c and s :: traced
    assume "prefix out (snd s)"
    then show "prefix out (snd (snd (multi_encrypt_char_t acc c s)))"
      using prefix_encrypt_char [of "snd s" acc c "fst s"] by (auto intro: prefix_order.trans)
  qed simp
  then show ?thesis by (simp add: multi_encrypt_t.simps Let_def)
qed

lemma prefix_decrypt: "prefix out (snd (snd (multi_decrypt_t ciphertext (d, out))))"
proof -
  let ?out0 = "trace_print d [[CHR 0x0A, CHR 0x0A], replicate 10 (CHR ''=''), ''decrypting...''] out"
  have "prefix out (snd (snd (for_each_char multi_decrypt_char_t ciphertext [] (d, ?out0))))"
  proof (rule for_each_char_invariant [where I = "\<lambda>s. prefix out (snd s)"])
    fix c and s :: traced
    assume "prefix out (snd s)"
    then show "prefix out (snd (snd (multi_decrypt_char_t c s)))"
      using prefix_decrypt_char [of "snd s" c "fst s"] by (auto intro: prefix_order.trans)
  qed simp
  then show ?thesis by (simp add: multi_decrypt_t.simps Let_def)
qed

lemma multi_init_t_silent: "multi_init_t k s out = (multi_init k s, out)"
  by (simp add: multi_init_t_def multi_init_def trace_rotors_def)

subsection \<open>Tracing changes no result\<close>

text \<open>
  C10 (refinement). The methods with their output refine the methods without:
  with the output erased, \<open>encrypt\<close>, \<open>decrypt\<close>, \<open>__rotate\<close> and the
  constructor return the results and leave the device states of theory
  \<open>MultiRotorDevice\<close>, whatever the device, the text, the flag and the output
  written before. Every theorem about the methods therefore holds with
  tracing on.
\<close>

theorem trace_erasure:
  "erase (multi_encrypt_t plaintext (d, out)) = multi_encrypt plaintext d \<and>
   erase (multi_decrypt_t ciphertext (d, out)) = multi_decrypt ciphertext d \<and>
   erase (multi_rotate_t (d, out)) = multi_rotate d \<and>
   fst (multi_init_t k s out) = multi_init k s"
  by (simp add: erase_encrypt erase_decrypt erase_rotate multi_init_t_silent)

theorem trace_erasure_witness:
  "multi_encrypt_t ''b'' (multi_enable_tracing (multi_init [''BCD'', ''XYZ''] [2, 1]), []) =
     (Inr ''Y'',
      \<lparr>key = [''BCD'', ''YZX''], speeds = [2, 1], cur_rotor_idx = 1, tracing = True\<rparr>,
      ''\<newline>\<newline> ========== encrypting...\<newline>---------- char -> B\<newline>rotor: XYZ\<newline>ciphertext: Y\<newline>---------- rotate....\<newline>rotating rotor by 1:    XYZ\<newline>********** rotors **********\<newline>BCD\<newline>YZX\<newline>********** /rotors **********\<newline>'') \<and>
   multi_encrypt ''b'' (multi_enable_tracing (multi_init [''BCD'', ''XYZ''] [2, 1])) =
     (Inr ''Y'',
      \<lparr>key = [''BCD'', ''YZX''], speeds = [2, 1], cur_rotor_idx = 1, tracing = True\<rparr>) \<and>
   multi_encrypt_t ''ab'' (multi_init [''BCD'', ''XYZ''] [2, 1], []) =
     (Inr ''XC'',
      \<lparr>key = [''DBC'', ''YZX''], speeds = [2, 1], cur_rotor_idx = 0, tracing = False\<rparr>, []) \<and>
   multi_encrypt ''ab'' (multi_init [''BCD'', ''XYZ''] [2, 1]) =
     (Inr ''XC'',
      \<lparr>key = [''DBC'', ''YZX''], speeds = [2, 1], cur_rotor_idx = 0, tracing = False\<rparr>)"
proof -
  let ?on = "multi_enable_tracing (multi_init [''BCD'', ''XYZ''] [2, 1])"
  let ?off = "multi_init [''BCD'', ''XYZ''] [2, 1]"
  have on: "multi_encrypt_t ''b'' (?on, []) =
      (Inr ''Y'',
       \<lparr>key = [''BCD'', ''YZX''], speeds = [2, 1], cur_rotor_idx = 1, tracing = True\<rparr>,
       ''\<newline>\<newline> ========== encrypting...\<newline>---------- char -> B\<newline>rotor: XYZ\<newline>ciphertext: Y\<newline>---------- rotate....\<newline>rotating rotor by 1:    XYZ\<newline>********** rotors **********\<newline>BCD\<newline>YZX\<newline>********** /rotors **********\<newline>'')"
    by code_simp
  have off: "multi_encrypt_t ''ab'' (?off, []) =
      (Inr ''XC'',
       \<lparr>key = [''DBC'', ''YZX''], speeds = [2, 1], cur_rotor_idx = 0, tracing = False\<rparr>, [])"
    by code_simp
  from trace_erasure [of "''b''" ?on "[]"] trace_erasure [of "''ab''" ?off "[]"] on off
  show ?thesis by (simp add: erase_def)
qed

subsection \<open>What is written, and when\<close>

text \<open>
  C22 (safety). Output is only ever appended: what was written before a call is
  a prefix of what is written after it, also when the call raises. While the
  flag is off \<open>encrypt\<close> and \<open>decrypt\<close> write nothing. The constructor never
  writes: its call of \<open>__show_rotors\<close> is guarded by a flag that is still off.
\<close>

theorem trace_output:
  "prefix out (snd (snd (multi_encrypt_t plaintext (d, out)))) \<and>
   prefix out (snd (snd (multi_decrypt_t ciphertext (d, out)))) \<and>
   (\<not> tracing d \<longrightarrow>
      snd (snd (multi_encrypt_t plaintext (d, out))) = out \<and>
      snd (snd (multi_decrypt_t ciphertext (d, out))) = out) \<and>
   snd (multi_init_t k s out) = out"
  by (simp add: prefix_encrypt prefix_decrypt silent_encrypt silent_decrypt multi_init_t_silent)

theorem trace_output_witness:
  "\<not> tracing (multi_init [''BCD'', ''XYZ''] [2, 1]) \<and>
   snd (snd (multi_decrypt_t ''Y?'' (multi_init [''BCD'', ''XYZ''] [2, 1], ''log''))) = ''log'' \<and>
   multi_decrypt_t ''Y?'' (multi_enable_tracing (multi_init [''BCD'', ''XYZ''] [2, 1]), ''log'') =
     (Inl ValueError,
      \<lparr>key = [''BCD'', ''YZX''], speeds = [2, 1], cur_rotor_idx = 0, tracing = True\<rparr>,
      ''log\<newline>\<newline> ========== decrypting...\<newline>rotor: XYZ\<newline>char at rotor position 1\<newline>---------- rotate....\<newline>rotating rotor by 1:    XYZ\<newline>********** rotors **********\<newline>BCD\<newline>YZX\<newline>********** /rotors **********\<newline>rotor: BCD\<newline>'') \<and>
   prefix ''log''
     ''log\<newline>\<newline> ========== decrypting...\<newline>rotor: XYZ\<newline>char at rotor position 1\<newline>---------- rotate....\<newline>rotating rotor by 1:    XYZ\<newline>********** rotors **********\<newline>BCD\<newline>YZX\<newline>********** /rotors **********\<newline>rotor: BCD\<newline>''"
proof -
  let ?on = "multi_enable_tracing (multi_init [''BCD'', ''XYZ''] [2, 1])"
  let ?off = "multi_init [''BCD'', ''XYZ''] [2, 1]"
  have f: "\<not> tracing ?off" by (simp add: multi_init_def)
  have on: "multi_decrypt_t ''Y?'' (?on, ''log'') =
      (Inl ValueError,
       \<lparr>key = [''BCD'', ''YZX''], speeds = [2, 1], cur_rotor_idx = 0, tracing = True\<rparr>,
       ''log\<newline>\<newline> ========== decrypting...\<newline>rotor: XYZ\<newline>char at rotor position 1\<newline>---------- rotate....\<newline>rotating rotor by 1:    XYZ\<newline>********** rotors **********\<newline>BCD\<newline>YZX\<newline>********** /rotors **********\<newline>rotor: BCD\<newline>'')"
    by code_simp
  from trace_output [of "''log''" "[]" ?on "''Y?''" "[]" "[]"] on
  have "prefix ''log''
      ''log\<newline>\<newline> ========== decrypting...\<newline>rotor: XYZ\<newline>char at rotor position 1\<newline>---------- rotate....\<newline>rotating rotor by 1:    XYZ\<newline>********** rotors **********\<newline>BCD\<newline>YZX\<newline>********** /rotors **********\<newline>rotor: BCD\<newline>''"
    by simp
  moreover from trace_output [of "''log''" "[]" ?off "''Y?''" "[]" "[]"] f
  have "snd (snd (multi_decrypt_t ''Y?'' (?off, ''log''))) = ''log''" by simp
  ultimately show ?thesis using f on by (intro conjI)
qed

end
