(* ===== verification/Multi_Schedule.thy ===== *)
theory Multi_Schedule
  imports Multi_Cipher
begin

text \<open>
  The schedule of the bank: which rotor a position of the message selects, how
  often a rotor has been selected so far, and from these the closed form of
  the multi-rotor cipher.

  \<^item> \<open>selected d k\<close> is the index of the rotor that substitutes the character
    at position \<open>k\<close> of a message processed from the state \<open>d\<close>.
  \<^item> \<open>uses d k j\<close> counts the positions below \<open>k\<close> that select rotor \<open>j\<close>.
  \<^item> The lemmas show that after \<open>k\<close> characters rotor \<open>j\<close> stands rotated by
    \<open>uses d k j\<close> times its own speed (a rotor that was not selected has not
    moved), and give each cipher text character as a symbol of the key the
    device was built from.
\<close>

definition selected :: "multi_rotor_device \<Rightarrow> nat \<Rightarrow> nat" where
  "selected d k = (cur_rotor_idx d + Suc k) mod length (key d)"

definition uses :: "multi_rotor_device \<Rightarrow> nat \<Rightarrow> nat \<Rightarrow> nat" where
  "uses d k j = length (filter (\<lambda>i. selected d i = j) [0..<k])"

lemma uses_0 [simp]: "uses d 0 j = 0"
  by (simp add: uses_def)

lemma uses_Suc: "uses d (Suc k) j = uses d k j + (if selected d k = j then 1 else 0)"
  by (simp add: uses_def)

lemma selected_less: "key d \<noteq> [] \<Longrightarrow> selected d k < length (key d)"
  by (simp add: selected_def)

lemma next_idx_funpow: "next_idx ((multi_advance ^^ k) d) = selected d k"
proof (cases k)
  case 0
  then show ?thesis by (simp add: next_idx_def selected_def)
next
  case (Suc n)
  then have "cur_rotor_idx ((multi_advance ^^ k) d) = (cur_rotor_idx d + k) mod length (key d)"
    by (simp add: cursor_funpow del: funpow.simps)
  then show ?thesis by (simp add: next_idx_def selected_def mod_Suc_eq)
qed

lemma key_funpow:
  assumes "j < length (key d)"
  shows "key ((multi_advance ^^ k) d) ! j =
           rotate (uses d k j * nat (speeds d ! j)) (key d ! j)"
proof (induction k)
  case 0
  show ?case by simp
next
  case (Suc k)
  let ?dk = "(multi_advance ^^ k) d"
  have n: "next_idx ?dk = selected d k" by (rule next_idx_funpow)
  have "key ((multi_advance ^^ Suc k) d) ! j =
      (key ?dk)[selected d k := rotate (nat (speeds d ! selected d k)) (key ?dk ! selected d k)] ! j"
    by (simp add: multi_advance_def n)
  also have "\<dots> = rotate (uses d (Suc k) j * nat (speeds d ! j)) (key d ! j)"
  proof (cases "selected d k = j")
    case True
    with assms Suc.IH show ?thesis
      by (simp add: uses_Suc rotate_rotate add.commute)
  next
    case False
    with Suc.IH show ?thesis by (simp add: uses_Suc)
  qed
  finally show ?case .
qed

lemma spec_encrypt_nth:
  assumes "multi_wf d" and "set msg \<subseteq> set alphabet" and "k < length msg"
  shows "spec_encrypt d msg ! k =
           key d ! selected d k !
             ((pos alphabet (msg ! k) + uses d k (selected d k) * nat (speeds d ! selected d k)) mod 38)"
proof -
  let ?j = "selected d k"
  from assms(1) have j: "?j < length (key d)"
    by (simp add: selected_less multi_wf_key_nonempty)
  with assms(1) have len: "length (key d ! ?j) = 38"
    by (simp add: wf_rotor_length [OF multi_wf_rotor])
  from assms(2,3) have "msg ! k \<in> set alphabet" by auto
  then have i: "pos alphabet (msg ! k) < 38" using pos_less [of "msg ! k" alphabet] by simp
  from assms(3) have "spec_encrypt d msg ! k = enc_sym ((multi_advance ^^ k) d) (msg ! k)"
    by (simp add: spec_encrypt_def nth_keystream)
  also have "\<dots> = rotate (uses d k ?j * nat (speeds d ! ?j)) (key d ! ?j) ! pos alphabet (msg ! k)"
    by (simp add: enc_sym_def next_idx_funpow key_funpow [OF j])
  also from i len have "\<dots> =
      key d ! ?j ! ((uses d k ?j * nat (speeds d ! ?j) + pos alphabet (msg ! k)) mod 38)"
    by (simp add: nth_rotate)
  finally show ?thesis by (simp add: add.commute)
qed

text \<open>
  C8 (functional). The closed form of the multi-rotor cipher: the character at
  position \<open>k\<close> of the normalised text, of alphabet index \<open>i\<close>, goes through the
  rotor \<open>j\<close> selected for \<open>k\<close> and is replaced by the symbol at index
  \<open>(i + u * speed j) mod 38\<close> of that rotor as the device was built, where
  \<open>u\<close> is the number of earlier positions that selected the same rotor.
\<close>

theorem multi_closed_form:
  assumes "multi_wf d" and "ascii_text plaintext" and "k < length (normalize_text plaintext)"
  shows "\<exists>c d'. multi_encrypt plaintext d = (Inr c, d') \<and>
           c ! k = key d ! selected d k !
             ((pos alphabet (normalize_text plaintext ! k) +
               uses d k (selected d k) * nat (speeds d ! selected d k)) mod 38)"
  using assms(1,3) by (simp add: multi_encrypt_wf spec_encrypt_nth set_normalize_subset)

theorem multi_closed_form_witness:
  "multi_wf (multi_init [''9. ABCDEFGHIJKLMNOPQRSTUVWXYZ012345678'',
                         ''ZYXWVUTSRQPONMLKJIHGFEDCBA. 9876543210'',
                         ''BCDEFGHIJKLMNOPQRSTUVWXYZ0123456789. A''] [5, 3, 2]) \<and>
   ascii_text ''aaaa'' \<and> 3 < length (normalize_text ''aaaa'') \<and>
   fst (multi_encrypt ''aaaa''
     (multi_init [''9. ABCDEFGHIJKLMNOPQRSTUVWXYZ012345678'',
                  ''ZYXWVUTSRQPONMLKJIHGFEDCBA. 9876543210'',
                  ''BCDEFGHIJKLMNOPQRSTUVWXYZ0123456789. A''] [5, 3, 2])) = Inr ''ZB9W'' \<and>
   selected (multi_init [''9. ABCDEFGHIJKLMNOPQRSTUVWXYZ012345678'',
                         ''ZYXWVUTSRQPONMLKJIHGFEDCBA. 9876543210'',
                         ''BCDEFGHIJKLMNOPQRSTUVWXYZ0123456789. A''] [5, 3, 2]) 3 = 1 \<and>
   uses (multi_init [''9. ABCDEFGHIJKLMNOPQRSTUVWXYZ012345678'',
                     ''ZYXWVUTSRQPONMLKJIHGFEDCBA. 9876543210'',
                     ''BCDEFGHIJKLMNOPQRSTUVWXYZ0123456789. A''] [5, 3, 2]) 3 1 = 1 \<and>
   ''ZB9W'' ! 3 = ''ZYXWVUTSRQPONMLKJIHGFEDCBA. 9876543210'' ! ((0 + 1 * 3) mod 38)"
proof -
  let ?d = "multi_init [''9. ABCDEFGHIJKLMNOPQRSTUVWXYZ012345678'',
                        ''ZYXWVUTSRQPONMLKJIHGFEDCBA. 9876543210'',
                        ''BCDEFGHIJKLMNOPQRSTUVWXYZ0123456789. A''] [5, 3, 2]"
  have wf: "multi_wf ?d" by code_simp
  have asc: "ascii_text ''aaaa''" by code_simp
  have norm: "normalize_text ''aaaa'' = ''AAAA''" by code_simp
  then have len: "3 < length (normalize_text ''aaaa'')" by simp
  have run: "fst (multi_encrypt ''aaaa'' ?d) = Inr ''ZB9W''" by code_simp
  have sel: "selected ?d 3 = 1" by code_simp
  have u: "uses ?d 3 1 = 1" by code_simp
  have p: "pos alphabet (normalize_text ''aaaa'' ! 3) = 0" by code_simp
  have k: "key ?d ! 1 = ''ZYXWVUTSRQPONMLKJIHGFEDCBA. 9876543210''"
    and s: "nat (speeds ?d ! 1) = 3"
    by (simp_all add: multi_init_def)
  from multi_closed_form [OF wf asc len] obtain c d' where
    e: "multi_encrypt ''aaaa'' ?d = (Inr c, d')" and
    c: "c ! 3 = key ?d ! selected ?d 3 !
      ((pos alphabet (normalize_text ''aaaa'' ! 3) +
        uses ?d 3 (selected ?d 3) * nat (speeds ?d ! selected ?d 3)) mod 38)"
    by blast
  from e run have "c = ''ZB9W''" by simp
  with c have "''ZB9W'' ! 3 = ''ZYXWVUTSRQPONMLKJIHGFEDCBA. 9876543210'' ! ((0 + 1 * 3) mod 38)"
    unfolding sel u p k s by (simp only:)
  with wf asc len run sel u show ?thesis by (intro conjI)
qed

text \<open>
  C18 (functional). The rotors after a call: \<open>encrypt\<close> leaves rotor \<open>j\<close> rotated by
  its own speed once for every character that selected it, and a rotor that no
  character selected as it was.
\<close>

theorem multi_rotors_after_call:
  assumes "multi_wf d" and "ascii_text plaintext" and "j < length (key d)"
  shows "key (snd (multi_encrypt plaintext d)) ! j =
           rotate (uses d (length (normalize_text plaintext)) j * nat (speeds d ! j)) (key d ! j)"
  using assms(1) by (simp add: multi_encrypt_wf key_funpow [OF assms(3)])

theorem multi_rotors_after_call_witness:
  "multi_wf (multi_init [''9. ABCDEFGHIJKLMNOPQRSTUVWXYZ012345678'',
                         ''ZYXWVUTSRQPONMLKJIHGFEDCBA. 9876543210'',
                         ''BCDEFGHIJKLMNOPQRSTUVWXYZ0123456789. A''] [5, 3, 2]) \<and>
   ascii_text ''a b c'' \<and>
   2 < length (key (multi_init [''9. ABCDEFGHIJKLMNOPQRSTUVWXYZ012345678'',
                         ''ZYXWVUTSRQPONMLKJIHGFEDCBA. 9876543210'',
                         ''BCDEFGHIJKLMNOPQRSTUVWXYZ0123456789. A''] [5, 3, 2])) \<and>
   key (snd (multi_encrypt ''a b c''
     (multi_init [''9. ABCDEFGHIJKLMNOPQRSTUVWXYZ012345678'',
                  ''ZYXWVUTSRQPONMLKJIHGFEDCBA. 9876543210'',
                  ''BCDEFGHIJKLMNOPQRSTUVWXYZ0123456789. A''] [5, 3, 2]))) ! 2 =
     ''FGHIJKLMNOPQRSTUVWXYZ0123456789. ABCDE'' \<and>
   ''FGHIJKLMNOPQRSTUVWXYZ0123456789. ABCDE'' =
     rotate (2 * 2) ''BCDEFGHIJKLMNOPQRSTUVWXYZ0123456789. A''"
proof -
  let ?d = "multi_init [''9. ABCDEFGHIJKLMNOPQRSTUVWXYZ012345678'',
                        ''ZYXWVUTSRQPONMLKJIHGFEDCBA. 9876543210'',
                        ''BCDEFGHIJKLMNOPQRSTUVWXYZ0123456789. A''] [5, 3, 2]"
  have wf: "multi_wf ?d" by code_simp
  have asc: "ascii_text ''a b c''" by code_simp
  have j: "2 < length (key ?d)" by (simp add: multi_init_def)
  have st: "key (snd (multi_encrypt ''a b c'' ?d)) ! 2 =
      ''FGHIJKLMNOPQRSTUVWXYZ0123456789. ABCDE''"
    by code_simp
  have u: "uses ?d (length (normalize_text ''a b c'')) 2 = 2" by code_simp
  have k: "key ?d ! 2 = ''BCDEFGHIJKLMNOPQRSTUVWXYZ0123456789. A''"
    and s: "nat (speeds ?d ! 2) = 2"
    by (simp_all add: multi_init_def)
  from multi_rotors_after_call [OF wf asc j]
  have "''FGHIJKLMNOPQRSTUVWXYZ0123456789. ABCDE'' =
      rotate (2 * 2) ''BCDEFGHIJKLMNOPQRSTUVWXYZ0123456789. A''"
    unfolding st u k s .
  with wf asc j st show ?thesis by (intro conjI)
qed

end
