(* ===== verification/Multi_Valid.thy ===== *)
theory Multi_Valid
  imports Multi_Schedule
begin

text \<open>
  Banks of permutations. The scripts build every device from rotors that
  \<open>random.sample(alphabet, len(alphabet))\<close> returns, permutations of the
  alphabet. On such a bank the two methods are total on text over the
  alphabet and their results are text over the alphabet again.

  \<^item> \<open>valid_bank\<close>: at least one rotor, a speed for every rotor, every rotor a
    permutation of the alphabet.
  \<^item> The lemmas show that \<open>valid_bank\<close> is kept by every processed character,
    that every text over the alphabet is \<open>decryptable\<close>, the closed form of a
    decrypted character, and the type of the results.
\<close>

definition valid_bank :: "multi_rotor_device \<Rightarrow> bool" where
  "valid_bank d \<longleftrightarrow>
     key d \<noteq> [] \<and> length (key d) \<le> length (speeds d) \<and> list_all valid_rotor (key d)"

lemma valid_bank_wf [rotor_wf]: "valid_bank d \<Longrightarrow> multi_wf d"
  by (auto simp: valid_bank_def multi_wf_def list_all_iff valid_rotor_wf)

lemma valid_bank_init_iff:
  "valid_bank (multi_init k s) \<longleftrightarrow> k \<noteq> [] \<and> length k \<le> length s \<and> list_all valid_rotor k"
  by (simp add: valid_bank_def multi_init_def)

lemma valid_bank_rotor: "valid_bank d \<Longrightarrow> i < length (key d) \<Longrightarrow> valid_rotor (key d ! i)"
  by (simp add: valid_bank_def list_all_length)

lemma valid_bank_advance [rotor_wf]: "valid_bank d \<Longrightarrow> valid_bank (multi_advance d)"
proof -
  assume v: "valid_bank d"
  then have n: "next_idx d < length (key d)" by (simp add: valid_bank_def next_idx_def)
  with v have "valid_rotor (rotate (nat (speeds d ! next_idx d)) (key d ! next_idx d))"
    by (simp add: valid_bank_rotor)
  with v n show "valid_bank (multi_advance d)"
    by (auto simp: valid_bank_def multi_advance_def list_all_length nth_list_update)
qed

lemma valid_bank_funpow [rotor_wf]: "valid_bank d \<Longrightarrow> valid_bank ((multi_advance ^^ n) d)"
  by (induction n) (simp_all add: valid_bank_advance)

lemma valid_bank_next_rotor_set: "valid_bank d \<Longrightarrow> set (key d ! next_idx d) = set alphabet"
  by (simp add: valid_rotor_set valid_bank_rotor multi_wf_next_idx_less valid_bank_wf)

lemma valid_bank_decryptable:
  "valid_bank d \<Longrightarrow> set ct \<subseteq> set alphabet \<Longrightarrow> decryptable d ct"
  by (induction ct arbitrary: d) (simp_all add: valid_bank_next_rotor_set valid_bank_advance)

lemma set_spec_encrypt: "valid_bank d \<Longrightarrow> set msg \<subseteq> set alphabet \<Longrightarrow> set (spec_encrypt d msg) \<subseteq> set alphabet"
proof (induction msg arbitrary: d)
  case Nil
  show ?case by simp
next
  case (Cons c msg)
  from Cons.prems have "enc_sym d c \<in> set (key d ! next_idx d)"
    by (simp add: dec_enc_sym valid_bank_wf)
  with Cons show ?case by (simp add: valid_bank_next_rotor_set valid_bank_advance)
qed

lemma set_spec_decrypt:
  "multi_wf d \<Longrightarrow> decryptable d ct \<Longrightarrow> set (spec_decrypt d ct) \<subseteq> set alphabet"
proof (induction ct arbitrary: d)
  case Nil
  show ?case by simp
next
  case (Cons c ct)
  then have "pos (key d ! next_idx d) c < 38"
    using pos_less [of c "key d ! next_idx d"]
    by (simp add: wf_rotor_length [OF multi_wf_next_rotor])
  then have "dec_sym d c \<in> set alphabet" by (simp add: dec_sym_def)
  with Cons show ?case by (simp add: multi_wf_advance)
qed

lemma spec_decrypt_nth:
  assumes "key d \<noteq> []" and "k < length ct"
  shows "spec_decrypt d ct ! k =
           alphabet ! pos (rotate (uses d k (selected d k) * nat (speeds d ! selected d k))
                             (key d ! selected d k)) (ct ! k)"
proof -
  from assms(1) have j: "selected d k < length (key d)" by (rule selected_less)
  from assms(2) have "spec_decrypt d ct ! k = dec_sym ((multi_advance ^^ k) d) (ct ! k)"
    by (simp add: spec_decrypt_def nth_keystream)
  then show ?thesis by (simp add: dec_sym_def next_idx_funpow key_funpow [OF j])
qed

lemma schedule_cong:
  assumes "length (key e) = length (key d)" and "cur_rotor_idx e = cur_rotor_idx d"
  shows "selected e k = selected d k" and "uses e k j = uses d k j"
  using assms by (simp_all add: selected_def uses_def)

lemma spec_decrypt_agree:
  assumes "key d \<noteq> []" and "length (key e) = length (key d)"
    and "cur_rotor_idx e = cur_rotor_idx d" and "k < length ct"
    and "key e ! selected d k = key d ! selected d k"
    and "uses d k (selected d k) = 0 \<or> speeds e ! selected d k = speeds d ! selected d k"
  shows "spec_decrypt e ct ! k = spec_decrypt d ct ! k"
proof -
  from assms(1,2) have "key e \<noteq> []" by auto
  with assms show ?thesis
    by (auto simp: spec_decrypt_nth schedule_cong [OF assms(2,3)])
qed

lemma multi_decrypt_valid:
  "valid_bank d \<Longrightarrow> set ct \<subseteq> set alphabet \<Longrightarrow>
     multi_decrypt ct d = (Inr (spec_decrypt d ct), (multi_advance ^^ length ct) d)"
  by (simp add: multi_decrypt_wf valid_bank_wf valid_bank_decryptable)

lemma decrypt_agrees_spec:
  assumes "valid_bank d" and "valid_bank e" and "set msg \<subseteq> set alphabet"
    and "length (key e) = length (key d)" and "cur_rotor_idx e = cur_rotor_idx d"
    and "k < length msg" and "key e ! selected d k = key d ! selected d k"
    and "uses d k (selected d k) = 0 \<or> speeds e ! selected d k = speeds d ! selected d k"
  shows "spec_decrypt e (spec_encrypt d msg) ! k = msg ! k"
proof -
  from assms(1) have "key d \<noteq> []" by (simp add: valid_bank_def)
  with assms have "spec_decrypt e (spec_encrypt d msg) ! k =
      spec_decrypt d (spec_encrypt d msg) ! k"
    by (intro spec_decrypt_agree) simp_all
  with assms(1,3) show ?thesis by (simp add: spec_roundtrip valid_bank_wf)
qed

lemma multi_encrypt_valid:
  "valid_bank d \<Longrightarrow>
     multi_encrypt plaintext d =
       (Inr (spec_encrypt d (normalize_text plaintext)),
        (multi_advance ^^ length (normalize_text plaintext)) d)"
  by (simp add: multi_encrypt_wf valid_bank_wf)

subsection \<open>The type of the results\<close>

text \<open>
  C16 (type). On a bank of permutations both methods are total on text over the
  alphabet and stay within it: \<open>encrypt\<close> returns a text over the alphabet as
  long as the normalised plaintext, \<open>decrypt\<close> of any text over the alphabet
  returns a text over the alphabet of the same length, and each leaves a bank
  of permutations. No \<open>decrypt\<close> on such a bank raises, whatever key the cipher
  text was made with.
\<close>

theorem valid_bank_results:
  assumes "valid_bank d" and "ascii_text plaintext" and "set ct \<subseteq> set alphabet"
  shows "\<exists>c m. fst (multi_encrypt plaintext d) = Inr c \<and>
           length c = length (normalize_text plaintext) \<and> set c \<subseteq> set alphabet \<and>
           fst (multi_decrypt ct d) = Inr m \<and> length m = length ct \<and> set m \<subseteq> set alphabet \<and>
           valid_bank (snd (multi_encrypt plaintext d)) \<and>
           valid_bank (snd (multi_decrypt ct d))"
  using assms(1,3)
  by (simp add: multi_encrypt_valid multi_decrypt_valid set_spec_encrypt set_spec_decrypt
      set_normalize_subset valid_bank_wf valid_bank_decryptable valid_bank_funpow)

theorem valid_bank_results_witness:
  "valid_bank (multi_init [''9. ABCDEFGHIJKLMNOPQRSTUVWXYZ012345678'',
                           ''ZYXWVUTSRQPONMLKJIHGFEDCBA. 9876543210''] [5, 3]) \<and>
   ascii_text ''Dawn!'' \<and> set ''Q.Q'' \<subseteq> set alphabet \<and>
   fst (multi_encrypt ''Dawn!''
     (multi_init [''9. ABCDEFGHIJKLMNOPQRSTUVWXYZ012345678'',
                  ''ZYXWVUTSRQPONMLKJIHGFEDCBA. 9876543210''] [5, 3])) = Inr ''W9AP'' \<and>
   fst (multi_decrypt ''Q.Q''
     (multi_init [''9. ABCDEFGHIJKLMNOPQRSTUVWXYZ012345678'',
                  ''ZYXWVUTSRQPONMLKJIHGFEDCBA. 9876543210''] [5, 3])) = Inr ''JBG'' \<and>
   set ''W9AP'' \<subseteq> set alphabet \<and> set ''JBG'' \<subseteq> set alphabet"
proof -
  let ?d = "multi_init [''9. ABCDEFGHIJKLMNOPQRSTUVWXYZ012345678'',
                        ''ZYXWVUTSRQPONMLKJIHGFEDCBA. 9876543210''] [5, 3]"
  have v: "valid_bank ?d" by code_simp
  have asc: "ascii_text ''Dawn!''" by code_simp
  have ct: "set ''Q.Q'' \<subseteq> set alphabet" by code_simp
  have enc: "fst (multi_encrypt ''Dawn!'' ?d) = Inr ''W9AP''" by code_simp
  have dec: "fst (multi_decrypt ''Q.Q'' ?d) = Inr ''JBG''" by code_simp
  from valid_bank_results [OF v asc ct] enc dec
  have "set ''W9AP'' \<subseteq> set alphabet \<and> set ''JBG'' \<subseteq> set alphabet" by auto
  with v asc ct enc dec show ?thesis by (intro conjI) simp_all
qed

subsection \<open>Decryption is local to the rotors\<close>

text \<open>
  C13 (equivalence). A position of the message is decrypted through one rotor,
  rotated by that rotor's speed only. A device \<open>e\<close> with a bank of the same
  size that shares with the encrypting device \<open>d\<close> the rotor selected for
  position \<open>k\<close>, and its speed unless the rotor is used for the first time,
  decrypts position \<open>k\<close> of the cipher text of \<open>d\<close> to the plaintext
  character, whatever its other rotors and speeds are; the call does not raise.
\<close>

theorem known_rotor_is_read:
  assumes "valid_bank d" and "valid_bank e"
    and "length (key e) = length (key d)" and "cur_rotor_idx e = cur_rotor_idx d"
    and "ascii_text plaintext" and "k < length (normalize_text plaintext)"
    and "key e ! selected d k = key d ! selected d k"
    and "uses d k (selected d k) = 0 \<or> speeds e ! selected d k = speeds d ! selected d k"
  shows "\<exists>c m. fst (multi_encrypt plaintext d) = Inr c \<and> fst (multi_decrypt c e) = Inr m \<and>
           length m = length (normalize_text plaintext) \<and>
           m ! k = normalize_text plaintext ! k"
proof -
  let ?msg = "normalize_text plaintext"
  have msg: "set ?msg \<subseteq> set alphabet" by (rule set_normalize_subset)
  with assms(1) have "set (spec_encrypt d ?msg) \<subseteq> set alphabet" by (rule set_spec_encrypt)
  with assms(2) have "fst (multi_decrypt (spec_encrypt d ?msg) e) =
      Inr (spec_decrypt e (spec_encrypt d ?msg))"
    by (simp add: multi_decrypt_valid)
  moreover from assms msg have "spec_decrypt e (spec_encrypt d ?msg) ! k = ?msg ! k"
    by (intro decrypt_agrees_spec)
  ultimately show ?thesis using assms(1) by (simp add: multi_encrypt_valid)
qed

theorem known_rotor_is_read_witness:
  "valid_bank (multi_init [''9. ABCDEFGHIJKLMNOPQRSTUVWXYZ012345678'',
                  ''ZYXWVUTSRQPONMLKJIHGFEDCBA. 9876543210'',
                  ''BCDEFGHIJKLMNOPQRSTUVWXYZ0123456789. A''] [5, 3, 2]) \<and>
   valid_bank (multi_init [''ABCDEFGHIJKLMNOPQRSTUVWXYZ0123456789. '',
                  ''ZYXWVUTSRQPONMLKJIHGFEDCBA. 9876543210'',
                  ''BCDEFGHIJKLMNOPQRSTUVWXYZ0123456789. A''] [1, 3, 2]) \<and>
   ascii_text ''attack'' \<and> 3 < length (normalize_text ''attack'') \<and>
   selected (multi_init [''9. ABCDEFGHIJKLMNOPQRSTUVWXYZ012345678'',
                  ''ZYXWVUTSRQPONMLKJIHGFEDCBA. 9876543210'',
                  ''BCDEFGHIJKLMNOPQRSTUVWXYZ0123456789. A''] [5, 3, 2]) 3 = 1 \<and>
   fst (multi_encrypt ''attack''
     (multi_init [''9. ABCDEFGHIJKLMNOPQRSTUVWXYZ012345678'',
                  ''ZYXWVUTSRQPONMLKJIHGFEDCBA. 9876543210'',
                  ''BCDEFGHIJKLMNOPQRSTUVWXYZ0123456789. A''] [5, 3, 2])) = Inr ''ZUQWFM'' \<and>
   fst (multi_decrypt ''ZUQWFM''
     (multi_init [''ABCDEFGHIJKLMNOPQRSTUVWXYZ0123456789. '',
                  ''ZYXWVUTSRQPONMLKJIHGFEDCBA. 9876543210'',
                  ''BCDEFGHIJKLMNOPQRSTUVWXYZ0123456789. A''] [1, 3, 2])) = Inr ''ATQACL'' \<and>
   ''ATQACL'' ! 3 = normalize_text ''attack'' ! 3 \<and>
   fst (multi_encrypt ''at''
     (multi_init [''9. ABCDEFGHIJKLMNOPQRSTUVWXYZ012345678'',
                  ''ZYXWVUTSRQPONMLKJIHGFEDCBA. 9876543210'',
                  ''BCDEFGHIJKLMNOPQRSTUVWXYZ0123456789. A''] [5, 3, 2])) = Inr ''ZU'' \<and>
   fst (multi_decrypt ''ZU''
     (multi_init [''ABCDEFGHIJKLMNOPQRSTUVWXYZ0123456789. '',
                  ''ZYXWVUTSRQPONMLKJIHGFEDCBA. 9876543210'',
                  ''BCDEFGHIJKLMNOPQRSTUVWXYZ0123456789. A''] [1, 3, 2])) = Inr ''AT''"
proof -
  let ?d = "multi_init [''9. ABCDEFGHIJKLMNOPQRSTUVWXYZ012345678'',
                  ''ZYXWVUTSRQPONMLKJIHGFEDCBA. 9876543210'',
                  ''BCDEFGHIJKLMNOPQRSTUVWXYZ0123456789. A''] [5, 3, 2]"
  let ?e = "multi_init [''ABCDEFGHIJKLMNOPQRSTUVWXYZ0123456789. '',
                  ''ZYXWVUTSRQPONMLKJIHGFEDCBA. 9876543210'',
                  ''BCDEFGHIJKLMNOPQRSTUVWXYZ0123456789. A''] [1, 3, 2]"
  have d: "valid_bank ?d" and e: "valid_bank ?e" by code_simp+
  have len: "length (key ?e) = length (key ?d)" and cur: "cur_rotor_idx ?e = cur_rotor_idx ?d"
    by (simp_all add: multi_init_def)
  have asc: "ascii_text ''attack''" by code_simp
  have k: "3 < length (normalize_text ''attack'')" by code_simp
  have sel: "selected ?d 3 = 1" by code_simp
  have rot: "key ?e ! selected ?d 3 = key ?d ! selected ?d 3" by code_simp
  have sp: "uses ?d 3 (selected ?d 3) = 0 \<or> speeds ?e ! selected ?d 3 = speeds ?d ! selected ?d 3"
    by code_simp
  have enc: "fst (multi_encrypt ''attack'' ?d) = Inr ''ZUQWFM''" by code_simp
  have dec: "fst (multi_decrypt ''ZUQWFM'' ?e) = Inr ''ATQACL''" by code_simp
  have short: "fst (multi_encrypt ''at'' ?d) = Inr ''ZU''" "fst (multi_decrypt ''ZU'' ?e) = Inr ''AT''"
    by code_simp+
  from known_rotor_is_read [OF d e len cur asc k rot sp] enc dec
  have "''ATQACL'' ! 3 = normalize_text ''attack'' ! 3" by auto
  with d e asc k sel enc dec short show ?thesis by (intro conjI)
qed

end
