(* ===== verification/OneRotorDevice.thy ===== *)
theory OneRotorDevice
  imports Rotor
begin

text \<open>
  The class \<open>OneRotorDevice\<close> (\<open>src/OneRotorDevice.py\<close>): one rotor, rotated by a
  fixed number of positions after every character.

  \<^item> The record \<open>one_rotor_device\<close> holds the instance attributes \<open>__key\<close> and
    \<open>__speed\<close>; \<open>one_init\<close> is \<open>__init__\<close>, \<open>one_init_default\<close> the constructor
    called without a speed.
  \<^item> \<open>one_rotate\<close> is \<open>__rotate\<close>, \<open>one_encrypt_char\<close> and \<open>one_decrypt_char\<close> the
    bodies of the two loops, \<open>one_encrypt\<close> and \<open>one_decrypt\<close> the methods.
  \<^item> \<open>one_wf\<close> is what the methods need of the device; \<open>one_advance\<close> is the
    effect of one processed character on the state; \<open>one_enc_sym\<close>,
    \<open>one_dec_sym\<close>, \<open>one_spec_encrypt\<close> and \<open>one_spec_decrypt\<close> are the cipher
    without state passing and exceptions.
  \<^item> The lemmas give every branch of the two loop bodies, the refinement of the
    methods to the abstract cipher, the round trip, the closed form of the
    cipher text (a substitution whose shift grows with the position), the
    period of the rotor, the invariant of the calls and the continuation of
    the state from one call to the next.
\<close>

record one_rotor_device =
  one_key :: string
  one_speed :: int

definition one_init :: "string \<Rightarrow> int \<Rightarrow> one_rotor_device" where
  "one_init k rotation_speed = \<lparr>one_key = k, one_speed = rotation_speed\<rparr>"

definition one_init_default :: "string \<Rightarrow> one_rotor_device" where
  "one_init_default k = one_init k 1"

definition one_rotate :: "int \<Rightarrow> (one_rotor_device, unit) prog" where
  "one_rotate n d = (case rotate_left n (one_key d) of (r, k') \<Rightarrow> (r, d\<lparr>one_key := k'\<rparr>))"

definition one_encrypt_char :: "char \<Rightarrow> (one_rotor_device, char) prog" where
  "one_encrypt_char c d =
     (case py_index alphabet c of
        Inl e \<Rightarrow> (Inl e, d)
      | Inr i \<Rightarrow>
          (case py_getitem (one_key d) i of
             Inl e \<Rightarrow> (Inl e, d)
           | Inr k \<Rightarrow>
               (case one_rotate (one_speed d) d of
                  (Inl e, d') \<Rightarrow> (Inl e, d')
                | (Inr _, d') \<Rightarrow> (Inr k, d'))))"

definition one_encrypt :: "string \<Rightarrow> (one_rotor_device, string) prog" where
  "one_encrypt plaintext d = for_each_char one_encrypt_char (normalize_text plaintext) [] d"

definition one_decrypt_char :: "char \<Rightarrow> (one_rotor_device, char) prog" where
  "one_decrypt_char c d =
     (case py_index (one_key d) c of
        Inl e \<Rightarrow> (Inl e, d)
      | Inr i \<Rightarrow>
          (case py_getitem alphabet i of
             Inl e \<Rightarrow> (Inl e, d)
           | Inr a \<Rightarrow>
               (case one_rotate (one_speed d) d of
                  (Inl e, d') \<Rightarrow> (Inl e, d')
                | (Inr _, d') \<Rightarrow> (Inr a, d'))))"

definition one_decrypt :: "string \<Rightarrow> (one_rotor_device, string) prog" where
  "one_decrypt ciphertext d = for_each_char one_decrypt_char ciphertext [] d"

text \<open>Well-formed devices, the effect of one character, the abstract cipher.\<close>

definition one_wf :: "one_rotor_device \<Rightarrow> bool" where
  "one_wf d \<longleftrightarrow> wf_rotor (one_key d)"

definition one_advance :: "one_rotor_device \<Rightarrow> one_rotor_device" where
  "one_advance d = d\<lparr>one_key := rotate (nat (one_speed d)) (one_key d)\<rparr>"

definition one_enc_sym :: "one_rotor_device \<Rightarrow> char \<Rightarrow> char" where
  "one_enc_sym d c = one_key d ! pos alphabet c"

definition one_dec_sym :: "one_rotor_device \<Rightarrow> char \<Rightarrow> char" where
  "one_dec_sym d c = alphabet ! pos (one_key d) c"

definition one_spec_encrypt :: "one_rotor_device \<Rightarrow> string \<Rightarrow> string" where
  "one_spec_encrypt d msg = keystream one_enc_sym one_advance d msg"

definition one_spec_decrypt :: "one_rotor_device \<Rightarrow> string \<Rightarrow> string" where
  "one_spec_decrypt d ciphertext = keystream one_dec_sym one_advance d ciphertext"

definition one_decryptable :: "one_rotor_device \<Rightarrow> string \<Rightarrow> bool" where
  "one_decryptable d ciphertext \<longleftrightarrow> admitted (\<lambda>d. set (one_key d)) one_advance d ciphertext"

lemmas one_char_defs [rotor_defs] = one_encrypt_char_def one_decrypt_char_def one_rotate_def

subsection \<open>Every branch of the methods\<close>

lemma one_rotate_eq:
  "one_rotate n d =
     (if one_key d = [] \<and> 0 < n then (Inl IndexError, d)
      else (Inr (), d\<lparr>one_key := rotate (nat n) (one_key d)\<rparr>))"
  by (simp add: one_rotate_def rotate_left_eq)

lemma one_encrypt_char_eq:
  "one_encrypt_char c d =
     (if c \<notin> set alphabet then (Inl ValueError, d)
      else if length (one_key d) \<le> pos alphabet c then (Inl IndexError, d)
      else (Inr (one_key d ! pos alphabet c), one_advance d))"
proof (cases "c \<in> set alphabet")
  case False
  then show ?thesis by (simp add: one_encrypt_char_def)
next
  case True
  then have "py_index alphabet c = Inr (pos alphabet c)" by (rule py_index_pos)
  with True show ?thesis
    by (auto simp: one_encrypt_char_def py_getitem_def one_rotate_eq one_advance_def)
qed

lemma one_decrypt_char_eq:
  "one_decrypt_char c d =
     (if c \<notin> set (one_key d) then (Inl ValueError, d)
      else if length alphabet \<le> pos (one_key d) c then (Inl IndexError, d)
      else (Inr (alphabet ! pos (one_key d) c), one_advance d))"
proof (cases "c \<in> set (one_key d)")
  case False
  then show ?thesis by (simp add: one_decrypt_char_def)
next
  case True
  then have "py_index (one_key d) c = Inr (pos (one_key d) c)" by (rule py_index_pos)
  moreover from True have "one_key d \<noteq> []" by auto
  ultimately show ?thesis
    using True
    by (auto simp: one_decrypt_char_def py_getitem_def one_rotate_eq one_advance_def
        simp del: length_alphabet)
qed

subsection \<open>Well-formed devices\<close>

lemma one_wf_advance [rotor_wf]: "one_wf (one_advance d) \<longleftrightarrow> one_wf d"
  by (simp add: one_wf_def one_advance_def)

lemma one_wf_funpow [rotor_wf]: "one_wf ((one_advance ^^ n) d) \<longleftrightarrow> one_wf d"
  by (induction n) (simp_all add: one_wf_advance)

lemma one_advance_speed [simp]: "one_speed (one_advance d) = one_speed d"
  by (simp add: one_advance_def)

lemma one_advance_funpow:
  "(one_advance ^^ n) d = d\<lparr>one_key := rotate (n * nat (one_speed d)) (one_key d)\<rparr>"
proof (induction n)
  case 0
  show ?case by simp
next
  case (Suc n)
  then show ?case by (simp add: one_advance_def rotate_rotate)
qed

lemma one_wf_length: "one_wf d \<Longrightarrow> length (one_key d) = 38"
  by (simp add: one_wf_def wf_rotor_length)

lemma one_encrypt_step:
  "one_wf d \<Longrightarrow> c \<in> set alphabet \<Longrightarrow>
     one_encrypt_char c d = (Inr (one_enc_sym d c), one_advance d) \<and> one_wf (one_advance d)"
  using pos_less [of c alphabet]
  by (simp add: one_encrypt_char_eq one_enc_sym_def one_wf_advance one_wf_length)

lemma one_decrypt_step:
  "one_wf d \<Longrightarrow> c \<in> set (one_key d) \<Longrightarrow>
     one_decrypt_char c d = (Inr (one_dec_sym d c), one_advance d) \<and> one_wf (one_advance d)"
  using pos_less [of c "one_key d"]
  by (simp add: one_decrypt_char_eq one_dec_sym_def one_wf_advance one_wf_length)

subsection \<open>The abstract cipher and the loops\<close>

lemma one_spec_simps [simp]:
  "one_spec_encrypt d [] = []"
  "one_spec_encrypt d (c # msg) = one_enc_sym d c # one_spec_encrypt (one_advance d) msg"
  "one_spec_decrypt d [] = []"
  "one_spec_decrypt d (c # ct) = one_dec_sym d c # one_spec_decrypt (one_advance d) ct"
  "one_decryptable d []"
  "one_decryptable d (c # ct) \<longleftrightarrow> c \<in> set (one_key d) \<and> one_decryptable (one_advance d) ct"
  by (simp_all add: one_spec_encrypt_def one_spec_decrypt_def one_decryptable_def)

lemma length_one_spec [simp]:
  "length (one_spec_encrypt d msg) = length msg"
  "length (one_spec_decrypt d ct) = length ct"
  by (simp_all add: one_spec_encrypt_def one_spec_decrypt_def)

lemma one_encrypt_loop_spec:
  assumes "one_wf d" and "set msg \<subseteq> set alphabet"
  shows "for_each_char one_encrypt_char msg out d =
           (Inr (out @ one_spec_encrypt d msg), (one_advance ^^ length msg) d)"
  unfolding one_spec_encrypt_def
  by (rule for_each_char_keystream [where I = one_wf and A = "\<lambda>_. set alphabet"])
    (use assms in \<open>simp_all add: one_encrypt_step\<close>)

lemma one_decrypt_loop_spec:
  assumes "one_wf d" and "one_decryptable d ct"
  shows "for_each_char one_decrypt_char ct out d =
           (Inr (out @ one_spec_decrypt d ct), (one_advance ^^ length ct) d)"
  unfolding one_spec_decrypt_def
  by (rule for_each_char_keystream [where I = one_wf and A = "\<lambda>d. set (one_key d)"])
    (use assms in \<open>simp_all add: one_decrypt_step one_decryptable_def\<close>)

lemma one_dec_enc_sym:
  assumes "one_wf d" and "c \<in> set alphabet"
  shows "one_enc_sym d c \<in> set (one_key d)" and "one_dec_sym d (one_enc_sym d c) = c"
proof -
  from assms(1) have r: "wf_rotor (one_key d)" by (simp add: one_wf_def)
  from assms(2) have i: "pos alphabet c < 38" using pos_less [of c alphabet] by simp
  with r show "one_enc_sym d c \<in> set (one_key d)"
    by (simp add: one_enc_sym_def wf_rotor_length)
  from r i assms(2) show "one_dec_sym d (one_enc_sym d c) = c"
    by (simp add: one_enc_sym_def one_dec_sym_def wf_rotor_length wf_rotor_distinct)
qed

lemma one_spec_roundtrip:
  assumes "one_wf d" and "set msg \<subseteq> set alphabet"
  shows "one_decryptable d (one_spec_encrypt d msg) \<and>
         one_spec_decrypt d (one_spec_encrypt d msg) = msg"
  using assms
proof (induction msg arbitrary: d)
  case Nil
  show ?case by simp
next
  case (Cons c msg)
  from Cons.prems have "one_decryptable (one_advance d) (one_spec_encrypt (one_advance d) msg) \<and>
      one_spec_decrypt (one_advance d) (one_spec_encrypt (one_advance d) msg) = msg"
    by (intro Cons.IH) (simp_all add: one_wf_advance)
  with Cons.prems show ?case by (simp add: one_dec_enc_sym)
qed

lemma one_encrypt_wf:
  "one_wf d \<Longrightarrow>
     one_encrypt plaintext d =
       (Inr (one_spec_encrypt d (normalize_text plaintext)),
        (one_advance ^^ length (normalize_text plaintext)) d)"
  by (simp add: one_encrypt_def one_encrypt_loop_spec set_normalize_subset)

lemma one_decrypt_wf:
  "one_wf d \<Longrightarrow> one_decryptable d ct \<Longrightarrow>
     one_decrypt ct d = (Inr (one_spec_decrypt d ct), (one_advance ^^ length ct) d)"
  by (simp add: one_decrypt_def one_decrypt_loop_spec)

lemma one_key_funpow: "one_key ((one_advance ^^ n) d) = rotate (n * nat (one_speed d)) (one_key d)"
  by (simp add: one_advance_funpow)

lemma one_spec_encrypt_nth:
  assumes "one_wf d" and "set msg \<subseteq> set alphabet" and "k < length msg"
  shows "one_spec_encrypt d msg ! k =
           one_key d ! ((pos alphabet (msg ! k) + k * nat (one_speed d)) mod 38)"
proof -
  from assms(2,3) have "msg ! k \<in> set alphabet" by auto
  then have i: "pos alphabet (msg ! k) < 38" using pos_less [of "msg ! k" alphabet] by simp
  from assms(3) have "one_spec_encrypt d msg ! k = one_enc_sym ((one_advance ^^ k) d) (msg ! k)"
    by (simp add: one_spec_encrypt_def nth_keystream)
  also have "\<dots> = rotate (k * nat (one_speed d)) (one_key d) ! pos alphabet (msg ! k)"
    by (simp add: one_enc_sym_def one_key_funpow)
  also from i assms(1) have "\<dots> =
      one_key d ! ((k * nat (one_speed d) + pos alphabet (msg ! k)) mod 38)"
    by (simp add: nth_rotate one_wf_length)
  finally show ?thesis by (simp add: add.commute)
qed

lemma one_wf_encrypt_char: "one_wf d \<Longrightarrow> one_wf (snd (one_encrypt_char c d))"
  by (simp add: one_encrypt_char_eq one_wf_advance)

lemma one_wf_decrypt_char: "one_wf d \<Longrightarrow> one_wf (snd (one_decrypt_char c d))"
  by (simp add: one_decrypt_char_eq one_wf_advance del: length_alphabet)

subsection \<open>Round trip, closed form and period\<close>

text \<open>
  C2 (round trip). A well-formed one-rotor device encrypts any ASCII text without
  an exception, and a device in the same state decrypts the cipher text to the
  normalised plaintext; both devices end in the same state.
\<close>

theorem one_roundtrip:
  assumes "one_wf d" and "ascii_text plaintext"
  shows "\<exists>c d'. one_encrypt plaintext d = (Inr c, d') \<and>
           one_decrypt c d = (Inr (normalize_text plaintext), d')"
  using assms(1)
  by (simp add: one_encrypt_wf one_decrypt_wf one_spec_roundtrip set_normalize_subset)

theorem one_roundtrip_witness:
  "one_wf (one_init ''BCDEFGHIJKLMNOPQRSTUVWXYZ0123456789. A'' 2) \<and>
   ascii_text ''Do not engage.'' \<and>
   fst (one_encrypt ''Do not engage.'' (one_init ''BCDEFGHIJKLMNOPQRSTUVWXYZ0123456789. A'' 2)) =
     Inr ''EREUX4MT4ZV33Z'' \<and>
   fst (one_decrypt ''EREUX4MT4ZV33Z'' (one_init ''BCDEFGHIJKLMNOPQRSTUVWXYZ0123456789. A'' 2)) =
     Inr ''DO NOT ENGAGE.'' \<and>
   snd (one_decrypt ''EREUX4MT4ZV33Z'' (one_init ''BCDEFGHIJKLMNOPQRSTUVWXYZ0123456789. A'' 2)) =
   snd (one_encrypt ''Do not engage.'' (one_init ''BCDEFGHIJKLMNOPQRSTUVWXYZ0123456789. A'' 2))"
proof -
  let ?d = "one_init ''BCDEFGHIJKLMNOPQRSTUVWXYZ0123456789. A'' 2"
  have wf: "one_wf ?d" by code_simp
  have asc: "ascii_text ''Do not engage.''" by code_simp
  have enc: "fst (one_encrypt ''Do not engage.'' ?d) = Inr ''EREUX4MT4ZV33Z''" by code_simp
  have dec: "fst (one_decrypt ''EREUX4MT4ZV33Z'' ?d) = Inr ''DO NOT ENGAGE.''" by code_simp
  from one_roundtrip [OF wf asc] enc
  have "snd (one_decrypt ''EREUX4MT4ZV33Z'' ?d) = snd (one_encrypt ''Do not engage.'' ?d)"
    by auto
  with wf asc enc dec show ?thesis by (intro conjI)
qed

text \<open>
  C7 (functional). The closed form of the one-rotor cipher: the character at
  position \<open>k\<close> of the normalised text, of alphabet index \<open>i\<close>, is replaced by
  the key symbol at index \<open>(i + k * speed) mod 38\<close> of the key as it stood before
  the call, and the call leaves the key rotated by \<open>length * speed\<close>. A negative
  speed counts as zero: the loop over \<open>range(0, n)\<close> does not run.
\<close>

theorem one_closed_form:
  assumes "one_wf d" and "ascii_text plaintext" and "k < length (normalize_text plaintext)"
  shows "\<exists>c d'. one_encrypt plaintext d = (Inr c, d') \<and>
           c ! k = one_key d !
             ((pos alphabet (normalize_text plaintext ! k) + k * nat (one_speed d)) mod 38) \<and>
           one_key d' = rotate (length (normalize_text plaintext) * nat (one_speed d)) (one_key d)"
  using assms(1,3)
  by (simp add: one_encrypt_wf one_spec_encrypt_nth set_normalize_subset one_key_funpow)

theorem one_closed_form_witness:
  "one_wf (one_init ''BCDEFGHIJKLMNOPQRSTUVWXYZ0123456789. A'' 2) \<and>
   ascii_text ''AB'' \<and> 1 < length (normalize_text ''AB'') \<and>
   one_encrypt ''AB'' (one_init ''BCDEFGHIJKLMNOPQRSTUVWXYZ0123456789. A'' 2) =
     (Inr ''BE'', \<lparr>one_key = ''FGHIJKLMNOPQRSTUVWXYZ0123456789. ABCDE'', one_speed = 2\<rparr>) \<and>
   ''BE'' ! 1 = ''BCDEFGHIJKLMNOPQRSTUVWXYZ0123456789. A'' ! ((1 + 1 * 2) mod 38) \<and>
   ''FGHIJKLMNOPQRSTUVWXYZ0123456789. ABCDE'' =
     rotate (2 * 2) ''BCDEFGHIJKLMNOPQRSTUVWXYZ0123456789. A''"
proof -
  let ?d = "one_init ''BCDEFGHIJKLMNOPQRSTUVWXYZ0123456789. A'' 2"
  have wf: "one_wf ?d" by code_simp
  have asc: "ascii_text ''AB''" by code_simp
  have norm: "normalize_text ''AB'' = ''AB''" by code_simp
  then have len: "1 < length (normalize_text ''AB'')" by simp
  have run: "one_encrypt ''AB'' ?d =
      (Inr ''BE'', \<lparr>one_key = ''FGHIJKLMNOPQRSTUVWXYZ0123456789. ABCDE'', one_speed = 2\<rparr>)"
    by code_simp
  have p: "pos alphabet (CHR ''B'') = 1" by code_simp
  from one_closed_form [OF wf asc len]
  have "''BE'' ! 1 = ''BCDEFGHIJKLMNOPQRSTUVWXYZ0123456789. A'' ! ((1 + 1 * 2) mod 38) \<and>
      ''FGHIJKLMNOPQRSTUVWXYZ0123456789. ABCDE'' =
        rotate (2 * 2) ''BCDEFGHIJKLMNOPQRSTUVWXYZ0123456789. A''"
    unfolding run norm by (simp add: one_init_def p)
  with wf asc len run show ?thesis by (intro conjI) simp_all
qed

text \<open>
  Period of the rotor. After a message of \<open>n\<close> characters the
  rotor of a well-formed device is back at the key it started from exactly when
  \<open>n * speed\<close> is a multiple of the alphabet size 38.
\<close>

lemma one_rotor_period:
  assumes "one_wf d" and "set msg \<subseteq> set alphabet"
  shows "one_key (snd (for_each_char one_encrypt_char msg out d)) = one_key d \<longleftrightarrow>
           (length msg * nat (one_speed d)) mod 38 = 0"
proof -
  from assms(1) have "distinct (one_key d)" "one_key d \<noteq> []" "length (one_key d) = 38"
    by (simp_all add: one_wf_def wf_rotor_distinct wf_rotor_nonempty wf_rotor_length)
  then show ?thesis
    using assms rotate_eq_self_distinct [of "one_key d" "length msg * nat (one_speed d)"]
    by (simp add: one_encrypt_loop_spec one_key_funpow)
qed

lemma one_rotor_period_example:
  "one_wf (one_init ''BCDEFGHIJKLMNOPQRSTUVWXYZ0123456789. A'' 19) \<and>
   set ''AB'' \<subseteq> set alphabet \<and>
   one_key (snd (for_each_char one_encrypt_char ''AB'' []
     (one_init ''BCDEFGHIJKLMNOPQRSTUVWXYZ0123456789. A'' 19))) =
     ''BCDEFGHIJKLMNOPQRSTUVWXYZ0123456789. A''"
proof -
  let ?d = "one_init ''BCDEFGHIJKLMNOPQRSTUVWXYZ0123456789. A'' 19"
  have wf: "one_wf ?d" by code_simp
  have sub: "set ''AB'' \<subseteq> set alphabet" by code_simp
  from one_rotor_period [OF wf sub, of "[]"] wf sub show ?thesis
    by (simp add: one_init_def)
qed

text \<open>
  The worked example: with the key \<open>BCD\<dots>9. A\<close> and speed 2 the
  text \<open>AB\<close> encrypts to \<open>BE\<close>: \<open>A\<close> is replaced through the key as given, the key
  is rotated by two, and \<open>B\<close> is replaced through the rotated key.
\<close>

lemma one_example_AB:
  "one_encrypt ''AB'' (one_init ''BCDEFGHIJKLMNOPQRSTUVWXYZ0123456789. A'' 2) =
     (Inr ''BE'', \<lparr>one_key = ''FGHIJKLMNOPQRSTUVWXYZ0123456789. ABCDE'', one_speed = 2\<rparr>)"
  by code_simp


text \<open>
  C29 (error). Every branch of the two loop bodies of the one-rotor device:
  ValueError for a character outside the alphabet (\<open>encrypt\<close>) or outside the
  key (\<open>decrypt\<close>), IndexError when the key is shorter than the character's
  index or the key symbol stands beyond the alphabet's length; an exception
  leaves the device as it was before the character.
\<close>

theorem one_step_branches:
  "one_encrypt_char c d =
     (if c \<notin> set alphabet then (Inl ValueError, d)
      else if length (one_key d) \<le> pos alphabet c then (Inl IndexError, d)
      else (Inr (one_key d ! pos alphabet c), one_advance d)) \<and>
   one_decrypt_char k d =
     (if k \<notin> set (one_key d) then (Inl ValueError, d)
      else if length alphabet \<le> pos (one_key d) k then (Inl IndexError, d)
      else (Inr (alphabet ! pos (one_key d) k), one_advance d))"
  using one_encrypt_char_eq [of c d] one_decrypt_char_eq [of k d] by simp

subsection \<open>Invariant and continuation across calls\<close>

text \<open>
  C31 (invariant). A well-formed one-rotor device stays well-formed across
  \<open>encrypt\<close> and \<open>decrypt\<close>, whether the call returns or raises: the key is
  only ever rotated.
\<close>

theorem one_calls_keep_wf:
  assumes "one_wf d"
  shows "one_wf (snd (one_encrypt plaintext d)) \<and> one_wf (snd (one_decrypt ciphertext d))"
  unfolding one_encrypt_def one_decrypt_def
  using assms
  by (intro conjI for_each_char_invariant [where I = one_wf] one_wf_encrypt_char
      one_wf_decrypt_char)

theorem one_calls_keep_wf_witness:
  "one_wf (one_init ''BCDEFGHIJKLMNOPQRSTUVWXYZ0123456789. A'' 2) \<and>
   fst (one_decrypt ''B?'' (one_init ''BCDEFGHIJKLMNOPQRSTUVWXYZ0123456789. A'' 2)) =
     Inl ValueError \<and>
   one_wf (snd (one_decrypt ''B?'' (one_init ''BCDEFGHIJKLMNOPQRSTUVWXYZ0123456789. A'' 2)))"
proof -
  let ?d = "one_init ''BCDEFGHIJKLMNOPQRSTUVWXYZ0123456789. A'' 2"
  have wf: "one_wf ?d" by code_simp
  have err: "fst (one_decrypt ''B?'' ?d) = Inl ValueError" by code_simp
  from one_calls_keep_wf [OF wf, of "[]" "''B?''"] wf err show ?thesis by simp
qed

text \<open>
  The one-rotor device has no reset either: two \<open>encrypt\<close>
  calls in sequence produce, piece by piece, the cipher text of one call on
  the concatenated plaintext, provided the normaliser treats the two pieces as
  it treats their concatenation.
\<close>

lemma one_encrypt_continues:
  assumes "normalize_text (p1 @ p2) = normalize_text p1 @ normalize_text p2"
  shows "one_encrypt (p1 @ p2) d =
           (case one_encrypt p1 d of
              (Inl e, d') \<Rightarrow> (Inl e, d')
            | (Inr c1, d') \<Rightarrow>
                (case one_encrypt p2 d' of
                   (Inl e, d'') \<Rightarrow> (Inl e, d'')
                 | (Inr c2, d'') \<Rightarrow> (Inr (c1 @ c2), d'')))"
  unfolding one_encrypt_def assms by (rule for_each_char_two)

lemma one_encrypt_continues_example:
  "normalize_text (''A'' @ ''B'') = normalize_text ''A'' @ normalize_text ''B'' \<and>
   fst (one_encrypt ''A'' (one_init ''BCDEFGHIJKLMNOPQRSTUVWXYZ0123456789. A'' 2)) = Inr ''B'' \<and>
   fst (one_encrypt ''B'' (snd (one_encrypt ''A''
     (one_init ''BCDEFGHIJKLMNOPQRSTUVWXYZ0123456789. A'' 2)))) = Inr ''E'' \<and>
   fst (one_encrypt (''A'' @ ''B'')
     (one_init ''BCDEFGHIJKLMNOPQRSTUVWXYZ0123456789. A'' 2)) = Inr ''BE''"
proof -
  let ?d = "one_init ''BCDEFGHIJKLMNOPQRSTUVWXYZ0123456789. A'' 2"
  have n: "normalize_text (''A'' @ ''B'') = normalize_text ''A'' @ normalize_text ''B''"
    by code_simp
  have a: "fst (one_encrypt ''A'' ?d) = Inr ''B''" by code_simp
  have b: "fst (one_encrypt ''B'' (snd (one_encrypt ''A'' ?d))) = Inr ''E''" by code_simp
  have "fst (one_encrypt (''A'' @ ''B'') ?d) = Inr (''B'' @ ''E'')"
    using a b unfolding one_encrypt_continues [OF n]
    by (auto split: prod.splits sum.splits)
  with n a b show ?thesis by simp
qed

end
