(* ===== verification/Demo.thy ===== *)
theory Demo
  imports OneRotorDevice Multi_Cipher
begin

text \<open>
  The demonstration scripts at the end of the two source files, as far as they
  are deterministic.

  \<^item> \<open>demo_key\<close>, \<open>demo_plaintext\<close> and \<open>one_demo\<close> are the script of
    \<open>src/OneRotorDevice.py\<close>: a device encrypts the message, a second device
    built from the same key and speed decrypts the cipher text. \<open>one_demo\<close> is
    the pair of the values the script binds to \<open>c\<close> and \<open>m\<close>; an exception of
    \<open>encrypt\<close> ends the script, so \<open>m\<close> is then the same exception.
  \<^item> \<open>demo_speeds\<close> and \<open>multi_demo\<close> are the exchange between \<open>alice\<close> and
    \<open>bob\<close> in \<open>src/MultiRotorDevice.py\<close>. The script draws its key at random;
    the model takes the key as an argument and \<open>sampled_key\<close> states what the
    six calls of \<open>random.sample(alphabet, len(alphabet))\<close> guarantee of it: six
    rotors, each a permutation of the alphabet.
  \<^item> \<open>one_demo_stdout\<close> is what the one-rotor script prints. The output of the
    multi-rotor script and its attacker simulations are in theory \<open>Attacker\<close>.
\<close>

definition demo_key :: string where
  "demo_key = ''BCDEFGHIJKLMNOPQRSTUVWXYZ0123456789. A''"

definition demo_plaintext :: string where
  "demo_plaintext = ''Attack location 8675309 at dawn. Do not engage enemy before then.''"

definition one_demo :: "string result \<times> string result" where
  "one_demo =
     (let device = one_init demo_key 2;
          c = fst (one_encrypt demo_plaintext device);
          device2 = one_init demo_key 2
      in (c, case c of Inl e \<Rightarrow> Inl e | Inr ct \<Rightarrow> fst (one_decrypt ct device2)))"

text \<open>The three \<open>print\<close> calls that end the script; nothing is printed when a call
  before them raised.\<close>

definition one_demo_stdout :: string where
  "one_demo_stdout =
     (case one_demo of
        (Inr c, Inr m) \<Rightarrow>
          py_print [''message:    '', m]
            (py_print [''ciphertext: '', c] (py_print [''plaintext:  '', demo_plaintext] []))
      | _ \<Rightarrow> [])"

definition sampled_key :: "string list \<Rightarrow> bool" where
  "sampled_key k \<longleftrightarrow> length k = 6 \<and> list_all valid_rotor k"

definition demo_speeds :: "int list" where
  "demo_speeds = [3, 1, 5, 2, 6, 4]"

definition multi_demo :: "string list \<Rightarrow> string result \<times> string result" where
  "multi_demo k =
     (let alice = multi_init k demo_speeds;
          c = fst (multi_encrypt demo_plaintext alice);
          bob = multi_init k demo_speeds
      in (c, case c of Inl e \<Rightarrow> Inl e | Inr ct \<Rightarrow> fst (multi_decrypt ct bob)))"

subsection \<open>The demonstrations recover the message\<close>

lemma normalize_demo_plaintext:
  "normalize_text demo_plaintext =
     ''ATTACK LOCATION 8675309 AT DAWN. DO NOT ENGAGE ENEMY BEFORE THEN.''"
  by code_simp

lemma sampled_key_wf: "sampled_key k \<Longrightarrow> multi_wf (multi_init k demo_speeds)"
  by (auto simp: sampled_key_def multi_wf_init_iff demo_speeds_def list_all_iff valid_rotor_wf)


text \<open>
  The multi-rotor demonstration: whatever key the script draws,
  \<open>alice\<close> encrypts the message to 65 characters without an exception and \<open>bob\<close>
  reads the normalised message.
\<close>

lemma multi_demo_result:
  assumes "sampled_key k"
  shows "\<exists>c. length c = 65 \<and>
           multi_demo k =
             (Inr c, Inr ''ATTACK LOCATION 8675309 AT DAWN. DO NOT ENGAGE ENEMY BEFORE THEN.'')"
proof -
  let ?d = "multi_init k demo_speeds"
  from assms have wf: "multi_wf ?d" by (rule sampled_key_wf)
  have sub: "set (normalize_text demo_plaintext) \<subseteq> set alphabet" by (rule set_normalize_subset)
  have len: "length (normalize_text demo_plaintext) = 65"
    by (simp add: normalize_demo_plaintext)
  from wf sub show ?thesis
    by (simp add: multi_demo_def multi_encrypt_wf multi_decrypt_def multi_loop_roundtrip len
        normalize_demo_plaintext [symmetric])
qed

lemma multi_demo_result_example:
  "sampled_key
     [''BCDEFGHIJKLMNOPQRSTUVWXYZ0123456789. A'', ''HIJKLMNOPQRSTUVWXYZ0123456789. ABCDEFG'',
      ''LMNOPQRSTUVWXYZ0123456789. ABCDEFGHIJK'', ''TUVWXYZ0123456789. ABCDEFGHIJKLMNOPQRS'',
      ''XYZ0123456789. ABCDEFGHIJKLMNOPQRSTUVW'', ''456789. ABCDEFGHIJKLMNOPQRSTUVWXYZ0123''] \<and>
   snd (multi_demo
     [''BCDEFGHIJKLMNOPQRSTUVWXYZ0123456789. A'', ''HIJKLMNOPQRSTUVWXYZ0123456789. ABCDEFG'',
      ''LMNOPQRSTUVWXYZ0123456789. ABCDEFGHIJK'', ''TUVWXYZ0123456789. ABCDEFGHIJKLMNOPQRS'',
      ''XYZ0123456789. ABCDEFGHIJKLMNOPQRSTUVW'', ''456789. ABCDEFGHIJKLMNOPQRSTUVWXYZ0123'']) =
     Inr ''ATTACK LOCATION 8675309 AT DAWN. DO NOT ENGAGE ENEMY BEFORE THEN.''"
proof -
  let ?k = "[''BCDEFGHIJKLMNOPQRSTUVWXYZ0123456789. A'', ''HIJKLMNOPQRSTUVWXYZ0123456789. ABCDEFG'',
      ''LMNOPQRSTUVWXYZ0123456789. ABCDEFGHIJK'', ''TUVWXYZ0123456789. ABCDEFGHIJKLMNOPQRS'',
      ''XYZ0123456789. ABCDEFGHIJKLMNOPQRSTUVW'', ''456789. ABCDEFGHIJKLMNOPQRSTUVWXYZ0123'']"
  have k: "?k = map (\<lambda>n. rotate n alphabet) [1, 7, 11, 19, 23, 30]" by code_simp
  have s: "sampled_key ?k" unfolding k by (simp add: sampled_key_def valid_rotor_def)
  from multi_demo_result [OF s] s show ?thesis by auto
qed

end
