(* ===== verification/Attacker.thy ===== *)
theory Attacker
  imports Multi_Valid Demo
begin

text \<open>
  The attacker simulations of the script in \<open>src/MultiRotorDevice.py\<close>: seven
  times a device \<open>eve\<close> is built from what an eavesdropper is assumed to know of
  the key and the speeds, the unknown rotors drawn at random, and the cipher
  text of \<open>alice\<close> is decrypted with it.

  \<^item> \<open>eve_decrypt\<close> is the pair of statements every simulation ends with: build
    the device, decrypt. One definition per simulation follows, in the order
    of the script; the random draws are arguments, \<open>key[0]\<close> and
    \<open>key2[5] = ...\<close> keep their IndexError.
  \<^item> \<open>reads msg r P\<close> says of a result \<open>r\<close> that it is a text as long as \<open>msg\<close>
    that agrees with \<open>msg\<close> at every position for which \<open>P\<close> holds.
  \<^item> The lemmas show that \<open>decrypt\<close> is local to the rotors: a position is
    decrypted through one rotor, rotated by that rotor's speed only, so two
    devices that share this rotor (and its speed, unless the rotor is used for
    the first time) decrypt the position alike. For the script this gives the
    positions every simulated attacker reads.
\<close>

definition eve_decrypt :: "string list \<Rightarrow> int list \<Rightarrow> string \<Rightarrow> string result" where
  "eve_decrypt key2 speeds2 c = fst (multi_decrypt c (multi_init key2 speeds2))"

definition eve_knows_nothing :: "string \<Rightarrow> string \<Rightarrow> string result" where
  "eve_knows_nothing r c = eve_decrypt [r] [1] c"

definition eve_first_rotor :: "string list \<Rightarrow> string list \<Rightarrow> string \<Rightarrow> string result" where
  "eve_first_rotor k rs c =
     (case py_getitem k 0 of
        Inl e \<Rightarrow> Inl e
      | Inr k0 \<Rightarrow> eve_decrypt ([k0] @ rs) [1, 1, 1, 1, 1, 1] c)"

definition eve_first_rotor_speed :: "string list \<Rightarrow> string list \<Rightarrow> string \<Rightarrow> string result" where
  "eve_first_rotor_speed k rs c =
     (case py_getitem k 0 of
        Inl e \<Rightarrow> Inl e
      | Inr k0 \<Rightarrow> eve_decrypt ([k0] @ rs) [3, 1, 1, 1, 1, 1] c)"

definition eve_two_rotors :: "string list \<Rightarrow> string list \<Rightarrow> string \<Rightarrow> string result" where
  "eve_two_rotors k rs c =
     (case py_getitem k 0 of
        Inl e \<Rightarrow> Inl e
      | Inr k0 \<Rightarrow>
          (case py_getitem k 1 of
             Inl e \<Rightarrow> Inl e
           | Inr k1 \<Rightarrow> eve_decrypt ([k0, k1] @ rs) [3, 1, 1, 1, 1, 1] c))"

definition eve_five_rotors_five_speeds :: "string list \<Rightarrow> string \<Rightarrow> string \<Rightarrow> string result" where
  "eve_five_rotors_five_speeds k r c =
     (case py_setitem k 5 r of
        Inl e \<Rightarrow> Inl e
      | Inr key2 \<Rightarrow> eve_decrypt key2 [3, 1, 5, 2, 6, 1] c)"

definition eve_six_rotors_five_speeds :: "string list \<Rightarrow> string \<Rightarrow> string result" where
  "eve_six_rotors_five_speeds k c = eve_decrypt k [3, 1, 5, 2, 6, 1] c"

definition eve_five_rotors_six_speeds :: "string list \<Rightarrow> string \<Rightarrow> string \<Rightarrow> string result" where
  "eve_five_rotors_six_speeds k r c =
     (case py_setitem k 5 r of
        Inl e \<Rightarrow> Inl e
      | Inr key2 \<Rightarrow> eve_decrypt key2 demo_speeds c)"

record eve_draws =
  draw0 :: string
  draws1 :: "string list"
  draws2 :: "string list"
  draws3 :: "string list"
  draw4 :: string
  draw5 :: string

definition sampled_draws :: "eve_draws \<Rightarrow> bool" where
  "sampled_draws dr \<longleftrightarrow>
     valid_rotor (draw0 dr) \<and>
     length (draws1 dr) = 5 \<and> list_all valid_rotor (draws1 dr) \<and>
     length (draws2 dr) = 5 \<and> list_all valid_rotor (draws2 dr) \<and>
     length (draws3 dr) = 4 \<and> list_all valid_rotor (draws3 dr) \<and>
     valid_rotor (draw4 dr) \<and> valid_rotor (draw5 dr)"

text \<open>\<open>print(label, device.decrypt(c))\<close>: nothing is printed when the argument raises.\<close>

definition print_result :: "string \<Rightarrow> string result \<Rightarrow> string \<Rightarrow> unit result \<times> string" where
  "print_result label r out =
     (case r of Inl e \<Rightarrow> (Inl e, out) | Inr m \<Rightarrow> (Inr (), py_print [label, m] out))"

fun script_steps :: "(string \<times> string result) list \<Rightarrow> string \<Rightarrow> unit result \<times> string" where
  "script_steps [] out = (Inr (), out)"
| "script_steps ((label, r) # steps) out =
     (case print_result label r out of
        (Inl e, out') \<Rightarrow> (Inl e, out')
      | (Inr _, out') \<Rightarrow> script_steps steps out')"

definition multi_script :: "string list \<Rightarrow> eve_draws \<Rightarrow> unit result \<times> string" where
  "multi_script k dr =
     (case fst (multi_encrypt demo_plaintext (multi_init k demo_speeds)) of
        Inl e \<Rightarrow> (Inl e, [])
      | Inr c \<Rightarrow>
          script_steps
            [(''bob sees:'', fst (multi_decrypt c (multi_init k demo_speeds))),
             (''eve 0 rotors 0 speeds:'', eve_knows_nothing (draw0 dr) c),
             (''eve first rotor, 0 speeds:'', eve_first_rotor k (draws1 dr) c),
             (''eve first rotor, first speed:'', eve_first_rotor_speed k (draws2 dr) c),
             (''eve rotor 1-2, speed 1-2:'', eve_two_rotors k (draws3 dr) c),
             (''eve 5 rotors and 5 speeds:'', eve_five_rotors_five_speeds k (draw4 dr) c),
             (''eve 6 rotors and 5 speeds:'', eve_six_rotors_five_speeds k c),
             (''eve 5 rotors and 6 speeds:'', eve_five_rotors_six_speeds k (draw5 dr) c)]
            (py_print [''ciphertext: '', c] (py_print [''plaintext:  '', demo_plaintext] [])))"

definition reads :: "string \<Rightarrow> string result \<Rightarrow> (nat \<Rightarrow> bool) \<Rightarrow> bool" where
  "reads msg r P \<longleftrightarrow>
     (case r of
        Inl e \<Rightarrow> False
      | Inr m \<Rightarrow> length m = length msg \<and> (\<forall>k<length msg. P k \<longrightarrow> m ! k = msg ! k))"

subsection \<open>Decryption is local to the rotors\<close>

lemma reads_spec:
  assumes d: "valid_bank d" and e: "valid_bank (multi_init key2 speeds2)"
    and msg: "set msg \<subseteq> set alphabet"
    and len: "length key2 = length (key d)" and cur: "cur_rotor_idx d = 0"
    and known: "\<And>k. k < length msg \<Longrightarrow> P k \<Longrightarrow>
      key2 ! selected d k = key d ! selected d k \<and>
      (uses d k (selected d k) = 0 \<or> speeds2 ! selected d k = speeds d ! selected d k)"
  shows "reads msg (eve_decrypt key2 speeds2 (spec_encrypt d msg)) P"
proof -
  let ?e = "multi_init key2 speeds2"
  let ?c = "spec_encrypt d msg"
  from d msg have c: "set ?c \<subseteq> set alphabet" by (rule set_spec_encrypt)
  with e have run: "eve_decrypt key2 speeds2 ?c = Inr (spec_decrypt ?e ?c)"
    by (simp add: eve_decrypt_def multi_decrypt_valid)
  have "spec_decrypt ?e ?c ! k = msg ! k" if "k < length msg" "P k" for k
    using d e msg that known [OF that] len cur
    by (intro decrypt_agrees_spec) (simp_all add: multi_init_def)
  with run show ?thesis by (simp add: reads_def)
qed

subsection \<open>The script\<close>

lemma sampled_key_valid: "sampled_key k \<Longrightarrow> valid_bank (multi_init k demo_speeds)"
  by (auto simp: sampled_key_def valid_bank_init_iff demo_speeds_def)

lemma demo_schedule:
  "length k = 6 \<Longrightarrow> selected (multi_init k s) i = Suc i mod 6"
  "length k = 6 \<Longrightarrow>
     uses (multi_init k s) i j = length (filter (\<lambda>n. Suc n mod 6 = j) [0..<i])"
  by (simp_all add: selected_def uses_def multi_init_def)

lemma demo_cipher:
  assumes "sampled_key k"
  shows "fst (multi_encrypt demo_plaintext (multi_init k demo_speeds)) =
           Inr (spec_encrypt (multi_init k demo_speeds) (normalize_text demo_plaintext))"
  using assms by (simp add: multi_encrypt_wf sampled_key_wf)

lemma eve_reads_script:
  assumes k: "sampled_key k" and k2: "length key2 = 6" "list_all valid_rotor key2"
    and s2: "length speeds2 = 6"
    and known: "\<And>i. i < 65 \<Longrightarrow> P i \<Longrightarrow>
      key2 ! (Suc i mod 6) = k ! (Suc i mod 6) \<and>
      (length (filter (\<lambda>n. Suc n mod 6 = Suc i mod 6) [0..<i]) = 0 \<or>
       speeds2 ! (Suc i mod 6) = demo_speeds ! (Suc i mod 6))"
  shows "reads (normalize_text demo_plaintext)
           (eve_decrypt key2 speeds2
              (spec_encrypt (multi_init k demo_speeds) (normalize_text demo_plaintext))) P"
proof (rule reads_spec)
  from k show "valid_bank (multi_init k demo_speeds)" by (rule sampled_key_valid)
  from k2 s2 show "valid_bank (multi_init key2 speeds2)"
    by (auto simp: valid_bank_init_iff)
  from k k2 show "length key2 = length (key (multi_init k demo_speeds))"
    by (simp add: multi_init_def sampled_key_def)
  show "cur_rotor_idx (multi_init k demo_speeds) = 0" by (simp add: multi_init_def)
  show "set (normalize_text demo_plaintext) \<subseteq> set alphabet" by (rule set_normalize_subset)
next
  fix i
  assume "i < length (normalize_text demo_plaintext)" and "P i"
  then have "i < 65" "P i" by (simp_all add: normalize_demo_plaintext)
  from known [OF this] k
  show "key2 ! selected (multi_init k demo_speeds) i =
      key (multi_init k demo_speeds) ! selected (multi_init k demo_speeds) i \<and>
      (uses (multi_init k demo_speeds) i (selected (multi_init k demo_speeds) i) = 0 \<or>
       speeds2 ! selected (multi_init k demo_speeds) i =
       speeds (multi_init k demo_speeds) ! selected (multi_init k demo_speeds) i)"
    by (simp add: demo_schedule sampled_key_def) (simp add: multi_init_def)
qed

lemma known_speeds:
  "j < 5 \<Longrightarrow> [3, 1, 5, 2, 6, 1] ! j = demo_speeds ! j"
  "j < 2 \<Longrightarrow> [3, 1, 1, 1, 1, 1] ! j = demo_speeds ! j"
proof -
  have "\<forall>j<5. ([3, 1, 5, 2, 6, 1] :: int list) ! j = demo_speeds ! j" by code_simp
  then show "j < 5 \<Longrightarrow> [3, 1, 5, 2, 6, 1] ! j = demo_speeds ! j" by simp
  have "\<forall>j<2. ([3, 1, 1, 1, 1, 1] :: int list) ! j = demo_speeds ! j" by code_simp
  then show "j < 2 \<Longrightarrow> [3, 1, 1, 1, 1, 1] ! j = demo_speeds ! j" by simp
qed

lemma first_use:
  "length (filter (\<lambda>n. Suc n mod 6 = Suc 4 mod 6) [0..<4]) = 0"
  "length (filter (\<lambda>n. Suc n mod 6 = Suc 5 mod 6) [0..<5]) = 0"
  by code_simp+

lemma sel_facts:
  "i mod 6 \<noteq> 4 \<Longrightarrow> Suc i mod 6 < 5"
  "i mod 6 = 5 \<Longrightarrow> Suc i mod 6 = 0"
  "i mod 6 = 0 \<Longrightarrow> Suc i mod 6 = 1"
  by presburger+

lemma reads_Inr: "reads msg r P \<Longrightarrow> \<exists>m. r = Inr m \<and> length m = length msg"
  by (cases r) (simp_all add: reads_def)

lemma reads_nth: "reads msg (Inr m) P \<Longrightarrow> i < length msg \<Longrightarrow> P i \<Longrightarrow> m ! i = msg ! i"
  by (simp add: reads_def)

lemma sampled_key_getitem:
  assumes "sampled_key k"
  shows "py_getitem k 0 = Inr (k ! 0)" "py_getitem k 1 = Inr (k ! 1)"
    "py_setitem k 5 r = Inr (k[5 := r])"
  using assms by (simp_all add: sampled_key_def py_setitem_def)

lemma sampled_key_rotor: "sampled_key k \<Longrightarrow> i < 6 \<Longrightarrow> valid_rotor (k ! i)"
  by (simp add: sampled_key_def list_all_length)

lemma eve_knows_nothing_total:
  assumes "sampled_key k" and "valid_rotor r"
  shows "reads (normalize_text demo_plaintext)
           (eve_knows_nothing r (spec_encrypt (multi_init k demo_speeds)
              (normalize_text demo_plaintext))) (\<lambda>i. False)"
proof -
  let ?c = "spec_encrypt (multi_init k demo_speeds) (normalize_text demo_plaintext)"
  from assms(1) have "set ?c \<subseteq> set alphabet"
    by (intro set_spec_encrypt sampled_key_valid set_normalize_subset)
  moreover from assms(2) have "valid_bank (multi_init [r] [1])"
    by (simp add: valid_bank_init_iff)
  ultimately show ?thesis
    by (simp add: eve_knows_nothing_def eve_decrypt_def multi_decrypt_valid reads_def)
qed

lemma eve_first_rotor_reads:
  assumes "sampled_key k" and "length rs = 5" and "list_all valid_rotor rs"
  shows "reads (normalize_text demo_plaintext)
           (eve_first_rotor k rs (spec_encrypt (multi_init k demo_speeds)
              (normalize_text demo_plaintext))) (\<lambda>i. i = 5)"
  unfolding eve_first_rotor_def sampled_key_getitem [OF assms(1)] sum.case
  using assms
  by (intro eve_reads_script) (auto simp: sampled_key_rotor first_use)

lemma eve_first_rotor_speed_reads:
  assumes "sampled_key k" and "length rs = 5" and "list_all valid_rotor rs"
  shows "reads (normalize_text demo_plaintext)
           (eve_first_rotor_speed k rs (spec_encrypt (multi_init k demo_speeds)
              (normalize_text demo_plaintext))) (\<lambda>i. i mod 6 = 5)"
  unfolding eve_first_rotor_speed_def sampled_key_getitem [OF assms(1)] sum.case
  using assms
  by (intro eve_reads_script) (auto simp: sampled_key_rotor sel_facts demo_speeds_def)

lemma eve_two_rotors_reads:
  assumes "sampled_key k" and "length rs = 4" and "list_all valid_rotor rs"
  shows "reads (normalize_text demo_plaintext)
           (eve_two_rotors k rs (spec_encrypt (multi_init k demo_speeds)
              (normalize_text demo_plaintext))) (\<lambda>i. i mod 6 = 5 \<or> i mod 6 = 0)"
  unfolding eve_two_rotors_def sampled_key_getitem [OF assms(1)] sum.case
  using assms
  by (intro eve_reads_script) (auto simp: sampled_key_rotor sel_facts demo_speeds_def)

lemma replaced_last_rotor:
  assumes "sampled_key k" and "valid_rotor r"
  shows "length (k[5 := r]) = 6" "list_all valid_rotor (k[5 := r])"
    "i mod 6 \<noteq> 4 \<Longrightarrow> k[5 := r] ! (Suc i mod 6) = k ! (Suc i mod 6)"
proof -
  from assms show "length (k[5 := r]) = 6" by (simp add: sampled_key_def)
  from assms show "list_all valid_rotor (k[5 := r])"
    by (auto simp: sampled_key_def list_all_iff dest: set_update_subset_insert [THEN subsetD])
  assume "i mod 6 \<noteq> 4"
  then have "Suc i mod 6 < 5" by (rule sel_facts)
  then show "k[5 := r] ! (Suc i mod 6) = k ! (Suc i mod 6)" by simp
qed

lemma eve_five_rotors_five_speeds_reads:
  assumes "sampled_key k" and "valid_rotor r"
  shows "reads (normalize_text demo_plaintext)
           (eve_five_rotors_five_speeds k r (spec_encrypt (multi_init k demo_speeds)
              (normalize_text demo_plaintext))) (\<lambda>i. i mod 6 \<noteq> 4)"
  unfolding eve_five_rotors_five_speeds_def sampled_key_getitem [OF assms(1)] sum.case
  using assms(1)
  by (intro eve_reads_script) (simp_all add: replaced_last_rotor [OF assms] sampled_key_def known_speeds sel_facts)

lemma eve_six_rotors_five_speeds_reads:
  assumes "sampled_key k"
  shows "reads (normalize_text demo_plaintext)
           (eve_six_rotors_five_speeds k (spec_encrypt (multi_init k demo_speeds)
              (normalize_text demo_plaintext))) (\<lambda>i. i mod 6 \<noteq> 4 \<or> i = 4)"
  unfolding eve_six_rotors_five_speeds_def
proof (rule eve_reads_script)
  fix i :: nat
  assume "i mod 6 \<noteq> 4 \<or> i = 4"
  then show "k ! (Suc i mod 6) = k ! (Suc i mod 6) \<and>
      (length (filter (\<lambda>n. Suc n mod 6 = Suc i mod 6) [0..<i]) = 0 \<or>
       [3, 1, 5, 2, 6, 1] ! (Suc i mod 6) = demo_speeds ! (Suc i mod 6))"
    using first_use(1) by (auto simp: known_speeds sel_facts)
qed (use assms in \<open>simp_all add: sampled_key_def\<close>)

lemma eve_five_rotors_six_speeds_reads:
  assumes "sampled_key k" and "valid_rotor r"
  shows "reads (normalize_text demo_plaintext)
           (eve_five_rotors_six_speeds k r (spec_encrypt (multi_init k demo_speeds)
              (normalize_text demo_plaintext))) (\<lambda>i. i mod 6 \<noteq> 4)"
  unfolding eve_five_rotors_six_speeds_def sampled_key_getitem [OF assms(1)] sum.case
  using assms(1)
  by (intro eve_reads_script) (simp_all add: replaced_last_rotor [OF assms] sampled_key_def demo_speeds_def)

lemma script_steps_all:
  "list_all (\<lambda>(label, r). \<exists>m. r = Inr m) steps \<Longrightarrow> fst (script_steps steps out) = Inr ()"
  by (induction steps arbitrary: out) (auto simp: print_result_def)

lemma script_steps_extends: "\<exists>rest. snd (script_steps steps out) = out @ rest"
proof (induction steps arbitrary: out)
  case Nil
  show ?case by simp
next
  case (Cons step steps)
  obtain label r where step: "step = (label, r)" by (cases step)
  show ?case
  proof (cases r)
    case (Inl e)
    with step show ?thesis by (simp add: print_result_def)
  next
    case (Inr m)
    from Cons.IH [of "py_print [label, m] out"] obtain rest where
      "snd (script_steps steps (py_print [label, m] out)) = py_print [label, m] out @ rest" ..
    with step Inr show ?thesis by (simp add: print_result_def py_print_def)
  qed
qed

lemma sampled_draws_simps:
  assumes "sampled_draws dr"
  shows "valid_rotor (draw0 dr)" "length (draws1 dr) = 5" "list_all valid_rotor (draws1 dr)"
    "length (draws2 dr) = 5" "list_all valid_rotor (draws2 dr)"
    "length (draws3 dr) = 4" "list_all valid_rotor (draws3 dr)"
    "valid_rotor (draw4 dr)" "valid_rotor (draw5 dr)"
  using assms by (simp_all add: sampled_draws_def)

lemma bob_reads:
  assumes "sampled_key k"
  shows "fst (multi_decrypt (spec_encrypt (multi_init k demo_speeds) (normalize_text demo_plaintext))
           (multi_init k demo_speeds)) = Inr (normalize_text demo_plaintext)"
  using assms
  by (simp add: multi_decrypt_def multi_loop_roundtrip sampled_key_wf set_normalize_subset)

subsection \<open>What the simulated attackers read\<close>

text \<open>
  C19 (functional). The attacker simulations of the script, for every key and
  every rotor the script can draw. Each simulation returns a text of 65
  characters without an exception. With the first rotor alone the attacker
  reads position 5, where that rotor is used for the first time; with its
  speed as well, every position \<open>k\<close> with \<open>k mod 6 = 5\<close>; with two rotors and
  their speeds also \<open>k mod 6 = 0\<close>; with five rotors and their speeds every
  position but \<open>k mod 6 = 4\<close>; with all rotors and five speeds these and
  position 4.
\<close>

theorem eve_reads:
  assumes "sampled_key k" and "sampled_draws dr"
  shows "\<exists>c. fst (multi_demo k) = Inr c \<and>
     reads (normalize_text demo_plaintext) (eve_knows_nothing (draw0 dr) c) (\<lambda>i. False) \<and>
     reads (normalize_text demo_plaintext) (eve_first_rotor k (draws1 dr) c) (\<lambda>i. i = 5) \<and>
     reads (normalize_text demo_plaintext) (eve_first_rotor_speed k (draws2 dr) c)
       (\<lambda>i. i mod 6 = 5) \<and>
     reads (normalize_text demo_plaintext) (eve_two_rotors k (draws3 dr) c)
       (\<lambda>i. i mod 6 = 5 \<or> i mod 6 = 0) \<and>
     reads (normalize_text demo_plaintext) (eve_five_rotors_five_speeds k (draw4 dr) c)
       (\<lambda>i. i mod 6 \<noteq> 4) \<and>
     reads (normalize_text demo_plaintext) (eve_six_rotors_five_speeds k c)
       (\<lambda>i. i mod 6 \<noteq> 4 \<or> i = 4) \<and>
     reads (normalize_text demo_plaintext) (eve_five_rotors_six_speeds k (draw5 dr) c)
       (\<lambda>i. i mod 6 \<noteq> 4)"
proof -
  let ?c = "spec_encrypt (multi_init k demo_speeds) (normalize_text demo_plaintext)"
  from assms(1) have c: "fst (multi_demo k) = Inr ?c"
    by (simp add: multi_demo_def Let_def demo_cipher)
  from assms(1) sampled_draws_simps [OF assms(2)] show ?thesis
    by (intro exI [of _ ?c] conjI c eve_knows_nothing_total eve_first_rotor_reads
        eve_first_rotor_speed_reads eve_two_rotors_reads eve_five_rotors_five_speeds_reads
        eve_six_rotors_five_speeds_reads eve_five_rotors_six_speeds_reads)
qed

theorem eve_reads_witness:
  "sampled_key (map (\<lambda>n. rotate n alphabet) [1, 7, 11, 19, 23, 30]) \<and>
   sampled_draws
     \<lparr>draw0 = rotate 2 alphabet, draws1 = map (\<lambda>n. rotate n alphabet) [3, 4, 5, 6, 8],
      draws2 = map (\<lambda>n. rotate n alphabet) [9, 10, 12, 13, 14],
      draws3 = map (\<lambda>n. rotate n alphabet) [15, 16, 17, 18],
      draw4 = rotate 20 alphabet, draw5 = rotate 21 alphabet\<rparr> \<and>
   fst (multi_demo (map (\<lambda>n. rotate n alphabet) [1, 7, 11, 19, 23, 30])) =
     Inr ''H4AX6LH1958XR9.88BFTQ3BJLM0MI9Z82S0P0RMUU6UIB5T02RJTX0UXNS61.4FU4'' \<and>
   eve_first_rotor (map (\<lambda>n. rotate n alphabet) [1, 7, 11, 19, 23, 30])
     (map (\<lambda>n. rotate n alphabet) [3, 4, 5, 6, 8])
     ''H4AX6LH1958XR9.88BFTQ3BJLM0MI9Z82S0P0RMUU6UIB5T02RJTX0UXNS61.4FU4'' =
     Inr ''E07RYKDW3YZVM330Y. MIU2FEERC84RZSHNJRHBIGZK91SESRF8FHRIK DPRXQ2EM'' \<and>
   eve_six_rotors_five_speeds (map (\<lambda>n. rotate n alphabet) [1, 7, 11, 19, 23, 30])
     ''H4AX6LH1958XR9.88BFTQ3BJLM0MI9Z82S0P0RMUU6UIB5T02RJTX0UXNS61.4FU4'' =
     Inr ''ATTACK LOCDTION C67530G AT DMWN. D3 NOT WNGAGEUENEMYXBEFOR5 THEN2'' \<and>
   ''E07RYKDW3YZVM330Y. MIU2FEERC84RZSHNJRHBIGZK91SESRF8FHRIK DPRXQ2EM'' ! 5 = CHR ''K'' \<and>
   ''ATTACK LOCDTION C67530G AT DMWN. D3 NOT WNGAGEUENEMYXBEFOR5 THEN2'' ! 4 = CHR ''C''"
proof -
  let ?K = "(map (\<lambda>n. rotate n alphabet) [1, 7, 11, 19, 23, 30])"
  let ?DR = "\<lparr>draw0 = rotate 2 alphabet, draws1 = map (\<lambda>n. rotate n alphabet) [3, 4, 5, 6, 8],
      draws2 = map (\<lambda>n. rotate n alphabet) [9, 10, 12, 13, 14],
      draws3 = map (\<lambda>n. rotate n alphabet) [15, 16, 17, 18],
      draw4 = rotate 20 alphabet, draw5 = rotate 21 alphabet\<rparr>"
  have k: "sampled_key ?K" by (simp add: sampled_key_def valid_rotor_def)
  have dr: "sampled_draws ?DR" by (simp add: sampled_draws_def valid_rotor_def)
  have c: "fst (multi_demo ?K) = Inr ''H4AX6LH1958XR9.88BFTQ3BJLM0MI9Z82S0P0RMUU6UIB5T02RJTX0UXNS61.4FU4''"
    by code_simp
  have m1: "eve_first_rotor ?K (map (\<lambda>n. rotate n alphabet) [3, 4, 5, 6, 8])
      ''H4AX6LH1958XR9.88BFTQ3BJLM0MI9Z82S0P0RMUU6UIB5T02RJTX0UXNS61.4FU4'' =
      Inr ''E07RYKDW3YZVM330Y. MIU2FEERC84RZSHNJRHBIGZK91SESRF8FHRIK DPRXQ2EM''"
    by code_simp
  have m6: "eve_six_rotors_five_speeds ?K
      ''H4AX6LH1958XR9.88BFTQ3BJLM0MI9Z82S0P0RMUU6UIB5T02RJTX0UXNS61.4FU4'' =
      Inr ''ATTACK LOCDTION C67530G AT DMWN. D3 NOT WNGAGEUENEMYXBEFOR5 THEN2''"
    by code_simp
  have p: "normalize_text demo_plaintext ! 5 = CHR ''K''" "normalize_text demo_plaintext ! 4 = CHR ''C''"
    by (simp_all add: normalize_demo_plaintext)
  from eve_reads [OF k dr] c m1 m6
  have "reads (normalize_text demo_plaintext) (Inr ''E07RYKDW3YZVM330Y. MIU2FEERC84RZSHNJRHBIGZK91SESRF8FHRIK DPRXQ2EM'') (\<lambda>i. i = 5)"
    and "reads (normalize_text demo_plaintext) (Inr ''ATTACK LOCDTION C67530G AT DMWN. D3 NOT WNGAGEUENEMYXBEFOR5 THEN2'') (\<lambda>i. i mod 6 \<noteq> 4 \<or> i = 4)"
    by auto
  then have "''E07RYKDW3YZVM330Y. MIU2FEERC84RZSHNJRHBIGZK91SESRF8FHRIK DPRXQ2EM'' ! 5 = CHR ''K''"
    and "''ATTACK LOCDTION C67530G AT DMWN. D3 NOT WNGAGEUENEMYXBEFOR5 THEN2'' ! 4 = CHR ''C''"
    using reads_nth [of "normalize_text demo_plaintext" _ _ 5]
      reads_nth [of "normalize_text demo_plaintext" _ _ 4] p
    by (auto simp: normalize_demo_plaintext)
  with k dr c m1 m6 show ?thesis by (intro conjI)
qed

text \<open>
  C20 (liveness). The script of \<open>src/MultiRotorDevice.py\<close> runs to its end for
  every key and every rotor it can draw: no call raises, and its output begins
  with the plaintext, the cipher text and the line of \<open>bob\<close>, who reads the
  normalised message.
\<close>

theorem multi_script_completes:
  assumes "sampled_key k" and "sampled_draws dr"
  shows "fst (multi_script k dr) = Inr () \<and>
         (\<exists>c rest. snd (multi_script k dr) =
            py_print [''bob sees:'', normalize_text demo_plaintext]
              (py_print [''ciphertext: '', c] (py_print [''plaintext:  '', demo_plaintext] []))
            @ rest)"
proof -
  let ?msg = "normalize_text demo_plaintext"
  let ?c = "spec_encrypt (multi_init k demo_speeds) ?msg"
  note rd = eve_knows_nothing_total eve_first_rotor_reads eve_first_rotor_speed_reads
    eve_two_rotors_reads eve_five_rotors_five_speeds_reads eve_six_rotors_five_speeds_reads
    eve_five_rotors_six_speeds_reads
  note dr = sampled_draws_simps [OF assms(2)]
  have 1: "\<exists>m. eve_knows_nothing (draw0 dr) ?c = Inr m"
    and 2: "\<exists>m. eve_first_rotor k (draws1 dr) ?c = Inr m"
    and 3: "\<exists>m. eve_first_rotor_speed k (draws2 dr) ?c = Inr m"
    and 4: "\<exists>m. eve_two_rotors k (draws3 dr) ?c = Inr m"
    and 5: "\<exists>m. eve_five_rotors_five_speeds k (draw4 dr) ?c = Inr m"
    and 6: "\<exists>m. eve_six_rotors_five_speeds k ?c = Inr m"
    and 7: "\<exists>m. eve_five_rotors_six_speeds k (draw5 dr) ?c = Inr m"
    using assms(1) dr by (blast dest: rd [THEN reads_Inr])+
  let ?steps = "[(''eve 0 rotors 0 speeds:'', eve_knows_nothing (draw0 dr) ?c),
             (''eve first rotor, 0 speeds:'', eve_first_rotor k (draws1 dr) ?c),
             (''eve first rotor, first speed:'', eve_first_rotor_speed k (draws2 dr) ?c),
             (''eve rotor 1-2, speed 1-2:'', eve_two_rotors k (draws3 dr) ?c),
             (''eve 5 rotors and 5 speeds:'', eve_five_rotors_five_speeds k (draw4 dr) ?c),
             (''eve 6 rotors and 5 speeds:'', eve_six_rotors_five_speeds k ?c),
             (''eve 5 rotors and 6 speeds:'', eve_five_rotors_six_speeds k (draw5 dr) ?c)]"
  let ?out = "py_print [''bob sees:'', ?msg]
      (py_print [''ciphertext: '', ?c] (py_print [''plaintext:  '', demo_plaintext] []))"
  from assms(1) have run: "multi_script k dr = script_steps ?steps ?out"
    by (simp add: multi_script_def demo_cipher bob_reads print_result_def)
  from 1 2 3 4 5 6 7 have "fst (script_steps ?steps ?out) = Inr ()"
    by (intro script_steps_all) simp
  moreover obtain rest where "snd (script_steps ?steps ?out) = ?out @ rest"
    using script_steps_extends by blast
  ultimately show ?thesis unfolding run by blast
qed

theorem multi_script_completes_witness:
  "sampled_key (map (\<lambda>n. rotate n alphabet) [1, 7, 11, 19, 23, 30]) \<and>
   sampled_draws
     \<lparr>draw0 = rotate 2 alphabet, draws1 = map (\<lambda>n. rotate n alphabet) [3, 4, 5, 6, 8],
      draws2 = map (\<lambda>n. rotate n alphabet) [9, 10, 12, 13, 14],
      draws3 = map (\<lambda>n. rotate n alphabet) [15, 16, 17, 18],
      draw4 = rotate 20 alphabet, draw5 = rotate 21 alphabet\<rparr> \<and>
   fst (multi_script (map (\<lambda>n. rotate n alphabet) [1, 7, 11, 19, 23, 30])
     \<lparr>draw0 = rotate 2 alphabet, draws1 = map (\<lambda>n. rotate n alphabet) [3, 4, 5, 6, 8],
      draws2 = map (\<lambda>n. rotate n alphabet) [9, 10, 12, 13, 14],
      draws3 = map (\<lambda>n. rotate n alphabet) [15, 16, 17, 18],
      draw4 = rotate 20 alphabet, draw5 = rotate 21 alphabet\<rparr>) = Inr ()"
proof -
  let ?K = "(map (\<lambda>n. rotate n alphabet) [1, 7, 11, 19, 23, 30])"
  let ?DR = "\<lparr>draw0 = rotate 2 alphabet, draws1 = map (\<lambda>n. rotate n alphabet) [3, 4, 5, 6, 8],
      draws2 = map (\<lambda>n. rotate n alphabet) [9, 10, 12, 13, 14],
      draws3 = map (\<lambda>n. rotate n alphabet) [15, 16, 17, 18],
      draw4 = rotate 20 alphabet, draw5 = rotate 21 alphabet\<rparr>"
  have k: "sampled_key ?K" by (simp add: sampled_key_def valid_rotor_def)
  have dr: "sampled_draws ?DR" by (simp add: sampled_draws_def valid_rotor_def)
  from multi_script_completes [OF k dr] have "fst (multi_script ?K ?DR) = Inr ()" ..
  with k dr show ?thesis by (intro conjI)
qed

end
