(* ===== verification/Device_Store.thy ===== *)
theory Device_Store
  imports Demo
begin

text \<open>
  \<open>MultiRotorDevice\<close> on a store of list objects: which lists a device shares
  with its caller and with other devices. The theories before this one treat
  rotors and speeds as values; here a list is an object with an address, as in
  Python, so that the rotation \<open>rotor.append(rotor.pop(0))\<close> changes a list in
  place and is seen through every reference to it.

  \<^item> The \<open>store\<close> holds the lists of characters (rotors) and the lists of integers
    (speeds) that have been created, each kind addressed by its allocation
    index. \<open>alloc_chars\<close> and \<open>alloc_ints\<close> create a list, \<open>chars\<close> and \<open>ints\<close> read
    one, \<open>set_chars\<close> replaces the contents of one. An address that was never
    allocated reads as the empty list and cannot be written; \<open>present\<close> and
    \<open>owned\<close> exclude such addresses, and every operation keeps them excluded.
  \<^item> \<open>store_device\<close> is the object with its attributes as the constructor
    leaves them: \<open>__key\<close> is a new list of new rotors (\<open>[list(k) for k in key]\<close>,
    \<open>copy_rotors\<close>), so \<open>key_refs\<close> are the addresses of the copies; \<open>__speeds\<close>
    is the caller's list itself, so \<open>speeds_ref\<close> is the address the caller
    passed.
  \<^item> \<open>store_init\<close>, \<open>store_current_rotor\<close>, \<open>store_next_rotor\<close>, \<open>store_rotate\<close>,
    \<open>store_encrypt\<close> and \<open>store_decrypt\<close> are the methods on a device in a store;
    \<open>store_demo\<close> is the exchange of the script: the six rotors appended to
    \<open>key\<close> (\<open>new_rotors\<close>, the drawn rotors being the argument), the list
    \<open>speeds\<close>, and the devices \<open>alice\<close> and \<open>bob\<close> built from the same two lists.
  \<^item> \<open>device_of\<close> reads the device of theory \<open>MultiRotorDevice\<close> off a device in
    a store, \<open>view\<close> applies it to the state a call leaves. \<open>owned\<close> holds of
    a device whose rotors are distinct lists that exist, \<open>keeps\<close> says what a
    call leaves alone.
  \<^item> The lemmas show that the methods on the store refine the methods on values
    (\<open>abs (f x) = g (abs x)\<close> with \<open>abs = device_of\<close>), that a device only ever
    changes its own rotors, that a device built later from the same lists
    starts from the rotors as they were, and that the list of speeds stays
    shared with the caller.
\<close>

type_synonym addr = nat

record store =
  char_lists :: "string list"
  int_lists :: "int list list"

definition empty_store :: store where
  "empty_store = \<lparr>char_lists = [], int_lists = []\<rparr>"

definition next_addr :: "store \<Rightarrow> addr" where
  "next_addr st = length (char_lists st)"

definition present :: "store \<Rightarrow> addr \<Rightarrow> bool" where
  "present st a \<longleftrightarrow> a < next_addr st"

definition chars :: "store \<Rightarrow> addr \<Rightarrow> string" where
  "chars st a = (if a < length (char_lists st) then char_lists st ! a else [])"

definition ints :: "store \<Rightarrow> addr \<Rightarrow> int list" where
  "ints st a = (if a < length (int_lists st) then int_lists st ! a else [])"

definition alloc_chars :: "string \<Rightarrow> store \<Rightarrow> addr \<times> store" where
  "alloc_chars xs st = (length (char_lists st), st\<lparr>char_lists := char_lists st @ [xs]\<rparr>)"

definition alloc_ints :: "int list \<Rightarrow> store \<Rightarrow> addr \<times> store" where
  "alloc_ints xs st = (length (int_lists st), st\<lparr>int_lists := int_lists st @ [xs]\<rparr>)"

definition set_chars :: "addr \<Rightarrow> string \<Rightarrow> store \<Rightarrow> store" where
  "set_chars a xs st = st\<lparr>char_lists := (char_lists st)[a := xs]\<rparr>"

text \<open>\<open>[list(k) for k in key]\<close>: a new list object for every rotor of the argument.\<close>

fun copy_rotors :: "addr list \<Rightarrow> store \<Rightarrow> addr list \<times> store" where
  "copy_rotors [] st = ([], st)"
| "copy_rotors (k # ks) st =
     (case alloc_chars (chars st k) st of
        (a, st1) \<Rightarrow> (case copy_rotors ks st1 of (as, st2) \<Rightarrow> (a # as, st2)))"

record store_device =
  key_refs :: "addr list"
  speeds_ref :: addr
  cursor :: nat
  flag :: bool

type_synonym stored = "store_device \<times> store"

definition store_init :: "addr list \<Rightarrow> addr \<Rightarrow> store \<Rightarrow> stored" where
  "store_init k rotation_speeds st =
     (case copy_rotors k st of
        (refs, st') \<Rightarrow>
          (\<lparr>key_refs = refs, speeds_ref = rotation_speeds, cursor = 0, flag = False\<rparr>, st'))"

definition store_current_rotor :: "store_device \<Rightarrow> addr result" where
  "store_current_rotor d = py_getitem (key_refs d) (cursor d)"

fun store_next_rotor :: "(stored, addr) prog" where
  "store_next_rotor (d, st) =
     (case py_mod (cursor d + 1) (length (key_refs d)) of
        Inl e \<Rightarrow> (Inl e, (d, st))
      | Inr i \<Rightarrow> (store_current_rotor (d\<lparr>cursor := i\<rparr>), (d\<lparr>cursor := i\<rparr>, st)))"

fun store_rotate :: "(stored, unit) prog" where
  "store_rotate (d, st) =
     (case store_current_rotor d of
        Inl e \<Rightarrow> (Inl e, (d, st))
      | Inr rotor \<Rightarrow>
          (case py_getitem (ints st (speeds_ref d)) (cursor d) of
             Inl e \<Rightarrow> (Inl e, (d, st))
           | Inr speed \<Rightarrow>
               (case rotate_left speed (chars st rotor) of
                  (r, rotor') \<Rightarrow> (r, (d, set_chars rotor rotor' st)))))"

fun store_encrypt_char :: "char \<Rightarrow> (stored, char) prog" where
  "store_encrypt_char c (d, st) =
     (case py_index alphabet c of
        Inl e \<Rightarrow> (Inl e, (d, st))
      | Inr i \<Rightarrow>
          (case store_next_rotor (d, st) of
             (Inl e, s1) \<Rightarrow> (Inl e, s1)
           | (Inr rotor, s1) \<Rightarrow>
               (case py_getitem (chars (snd s1) rotor) i of
                  Inl e \<Rightarrow> (Inl e, s1)
                | Inr k \<Rightarrow>
                    (case store_rotate s1 of
                       (Inl e, s2) \<Rightarrow> (Inl e, s2)
                     | (Inr _, s2) \<Rightarrow> (Inr k, s2)))))"

definition store_encrypt :: "string \<Rightarrow> (stored, string) prog" where
  "store_encrypt plaintext s = for_each_char store_encrypt_char (normalize_text plaintext) [] s"

fun store_decrypt_char :: "char \<Rightarrow> (stored, char) prog" where
  "store_decrypt_char c (d, st) =
     (case store_next_rotor (d, st) of
        (Inl e, s1) \<Rightarrow> (Inl e, s1)
      | (Inr rotor, s1) \<Rightarrow>
          (case py_index (chars (snd s1) rotor) c of
             Inl e \<Rightarrow> (Inl e, s1)
           | Inr i \<Rightarrow>
               (case py_getitem alphabet i of
                  Inl e \<Rightarrow> (Inl e, s1)
                | Inr a \<Rightarrow>
                    (case store_rotate s1 of
                       (Inl e, s2) \<Rightarrow> (Inl e, s2)
                     | (Inr _, s2) \<Rightarrow> (Inr a, s2)))))"

definition store_decrypt :: "string \<Rightarrow> (stored, string) prog" where
  "store_decrypt ciphertext s = for_each_char store_decrypt_char ciphertext [] s"

text \<open>The script: six rotors appended to \<open>key\<close>, the list of speeds, \<open>alice\<close> and \<open>bob\<close>.\<close>

fun new_rotors :: "string list \<Rightarrow> store \<Rightarrow> addr list \<times> store" where
  "new_rotors [] st = ([], st)"
| "new_rotors (r # rs) st =
     (case alloc_chars r st of
        (a, st1) \<Rightarrow> (case new_rotors rs st1 of (as, st2) \<Rightarrow> (a # as, st2)))"

definition store_demo :: "string list \<Rightarrow> string result \<times> string result" where
  "store_demo rotors =
     (let key_st = new_rotors rotors empty_store;
          speeds_st = alloc_ints demo_speeds (snd key_st);
          alice = store_init (fst key_st) (fst speeds_st) (snd speeds_st);
          c = store_encrypt demo_plaintext alice;
          bob = store_init (fst key_st) (fst speeds_st) (snd (snd c))
      in (fst c, case fst c of Inl e \<Rightarrow> Inl e | Inr ct \<Rightarrow> fst (store_decrypt ct bob)))"

text \<open>The device a stored device stands for, and the devices that own their rotors.\<close>

definition device_of :: "stored \<Rightarrow> multi_rotor_device" where
  "device_of s =
     \<lparr>key = map (chars (snd s)) (key_refs (fst s)), speeds = ints (snd s) (speeds_ref (fst s)),
      cur_rotor_idx = cursor (fst s), tracing = flag (fst s)\<rparr>"

definition view :: "'a \<times> stored \<Rightarrow> 'a \<times> multi_rotor_device" where
  "view r = (fst r, device_of (snd r))"

definition owned :: "stored \<Rightarrow> bool" where
  "owned s \<longleftrightarrow> distinct (key_refs (fst s)) \<and> list_all (present (snd s)) (key_refs (fst s))"

text \<open>What a call on a device leaves alone: the device's references, the lists of
  integers, the allocation limit and the list at address \<open>a\<close> unless the device holds
  it.\<close>

definition keeps :: "addr \<Rightarrow> stored \<Rightarrow> stored \<Rightarrow> bool" where
  "keeps a s s' \<longleftrightarrow>
     key_refs (fst s') = key_refs (fst s) \<and> speeds_ref (fst s') = speeds_ref (fst s) \<and>
     flag (fst s') = flag (fst s) \<and> next_addr (snd s') = next_addr (snd s) \<and>
     int_lists (snd s') = int_lists (snd s) \<and>
     (a \<in> set (key_refs (fst s)) \<or> chars (snd s') a = chars (snd s) a)"

declare store_next_rotor.simps [simp del] store_rotate.simps [simp del]
  store_encrypt_char.simps [simp del] store_decrypt_char.simps [simp del]

subsection \<open>Allocation\<close>

lemma alloc_chars_simps [simp]:
  "fst (alloc_chars xs st) = next_addr st"
  "next_addr (snd (alloc_chars xs st)) = Suc (next_addr st)"
  "int_lists (snd (alloc_chars xs st)) = int_lists st"
  "chars (snd (alloc_chars xs st)) a = (if a = next_addr st then xs else chars st a)"
  by (simp_all add: alloc_chars_def next_addr_def chars_def nth_append)

lemma alloc_ints_simps [simp]:
  "fst (alloc_ints xs st) = length (int_lists st)"
  "next_addr (snd (alloc_ints xs st)) = next_addr st"
  "chars (snd (alloc_ints xs st)) = chars st"
  "ints (snd (alloc_ints xs st)) a = (if a = length (int_lists st) then xs else ints st a)"
  by (simp_all add: alloc_ints_def next_addr_def chars_def ints_def nth_append fun_eq_iff)

lemma set_chars_simps [simp]:
  "next_addr (set_chars a xs st) = next_addr st"
  "int_lists (set_chars a xs st) = int_lists st"
  "chars (set_chars a xs st) b = (if b = a \<and> present st a then xs else chars st b)"
  by (simp_all add: set_chars_def next_addr_def chars_def present_def)

lemma ints_cong: "int_lists st' = int_lists st \<Longrightarrow> ints st' = ints st"
  by (simp add: ints_def fun_eq_iff)

lemma ints_set_chars [simp]: "ints (set_chars a xs st) = ints st"
  by (rule ints_cong) simp

lemma chars_set_chars: "present st a \<Longrightarrow> chars (set_chars a xs st) = (chars st)(a := xs)"
  by (simp add: fun_eq_iff)

lemma new_rotors_refs: "fst (new_rotors rs st) = [next_addr st ..< next_addr st + length rs]"
proof (induction rs arbitrary: st)
  case Nil
  show ?case by simp
next
  case (Cons r rs)
  have "[next_addr st ..< next_addr st + length (r # rs)] =
      next_addr st # [Suc (next_addr st) ..< Suc (next_addr st) + length rs]"
    by (simp add: upt_conv_Cons del: upt_Suc)
  with Cons.IH show ?case by (simp add: case_prod_beta del: upt_Suc)
qed

lemma new_rotors_next: "next_addr (snd (new_rotors rs st)) = next_addr st + length rs"
  by (induction rs arbitrary: st) (simp_all add: case_prod_beta)

lemma new_rotors_ints: "int_lists (snd (new_rotors rs st)) = int_lists st"
  by (induction rs arbitrary: st) (simp_all add: case_prod_beta)

lemma new_rotors_frame: "present st a \<Longrightarrow> chars (snd (new_rotors rs st)) a = chars st a"
  by (induction rs arbitrary: st) (simp_all add: case_prod_beta present_def)

lemma new_rotors_chars:
  "map (chars (snd (new_rotors rs st))) (fst (new_rotors rs st)) = rs"
  by (induction rs arbitrary: st)
    (simp_all add: case_prod_beta new_rotors_frame present_def)

lemma copy_rotors_new:
  "list_all (present st) ks \<Longrightarrow> copy_rotors ks st = new_rotors (map (chars st) ks) st"
proof (induction ks arbitrary: st)
  case Nil
  show ?case by simp
next
  case (Cons k ks)
  let ?st1 = "snd (alloc_chars (chars st k) st)"
  from Cons.prems have p: "list_all (present ?st1) ks" and m: "map (chars ?st1) ks = map (chars st) ks"
    by (auto simp: list_all_iff present_def)
  from Cons.IH [OF p] have "copy_rotors ks ?st1 = new_rotors (map (chars st) ks) ?st1"
    by (simp only: m)
  then show ?case by (simp add: case_prod_beta)
qed

subsection \<open>The constructor\<close>

lemma store_init_frame:
  assumes "list_all (present st) ks"
  shows "key_refs (fst (store_init ks sp st)) = [next_addr st ..< next_addr st + length ks]"
    and "speeds_ref (fst (store_init ks sp st)) = sp"
    and "next_addr (snd (store_init ks sp st)) = next_addr st + length ks"
    and "int_lists (snd (store_init ks sp st)) = int_lists st"
    and "present st a \<Longrightarrow> chars (snd (store_init ks sp st)) a = chars st a"
  unfolding store_init_def copy_rotors_new [OF assms]
  by (simp_all add: case_prod_beta new_rotors_refs new_rotors_next new_rotors_ints
      new_rotors_frame)

lemma device_of_init:
  assumes "list_all (present st) ks"
  shows "device_of (store_init ks sp st) = multi_init (map (chars st) ks) (ints st sp)"
  unfolding store_init_def copy_rotors_new [OF assms]
  by (simp add: case_prod_beta device_of_def multi_init_def new_rotors_chars
      ints_cong [OF new_rotors_ints])

lemma owned_init: "list_all (present st) ks \<Longrightarrow> owned (store_init ks sp st)"
  by (simp add: owned_def store_init_frame list_all_iff present_def)

subsection \<open>The methods on the store refine the methods on values\<close>

lemma map_upd_distinct:
  "distinct xs \<Longrightarrow> i < length xs \<Longrightarrow> map (f(xs ! i := v)) xs = (map f xs)[i := v]"
  by (auto simp: list_eq_iff_nth_eq nth_list_update nth_eq_iff_index_eq)

lemma device_of_simps [simp]:
  "key (device_of (d, st)) = map (chars st) (key_refs d)"
  "speeds (device_of (d, st)) = ints st (speeds_ref d)"
  "cur_rotor_idx (device_of (d, st)) = cursor d"
  "tracing (device_of (d, st)) = flag d"
  by (simp_all add: device_of_def)

lemma view_simps [simp]: "view (r, s) = (r, device_of s)"
  by (simp add: view_def)

lemma store_next_rotor_cases:
  "store_next_rotor (d, st) =
     (if key_refs d = [] then (Inl ZeroDivisionError, (d, st))
      else (Inr (key_refs d ! (Suc (cursor d) mod length (key_refs d))),
            (d\<lparr>cursor := Suc (cursor d) mod length (key_refs d)\<rparr>, st)))"
  by (simp add: store_next_rotor.simps store_current_rotor_def py_mod_def py_getitem_def)

lemma device_of_cursor:
  "device_of (d\<lparr>cursor := i\<rparr>, st) = (device_of (d, st))\<lparr>cur_rotor_idx := i\<rparr>"
  by (simp add: device_of_def)

lemma owned_simps:
  "owned (d, st) \<longleftrightarrow> distinct (key_refs d) \<and> list_all (present st) (key_refs d)"
  "owned (d\<lparr>cursor := i\<rparr>, st) \<longleftrightarrow> owned (d, st)"
  by (simp_all add: owned_def)

lemma owned_present: "owned (d, st) \<Longrightarrow> i < length (key_refs d) \<Longrightarrow> present st (key_refs d ! i)"
  by (simp add: owned_def list_all_length)

lemma device_of_set_chars:
  "owned (d, st) \<Longrightarrow> i < length (key_refs d) \<Longrightarrow>
   device_of (d, set_chars (key_refs d ! i) r st) =
     (device_of (d, st))\<lparr>key := (key (device_of (d, st)))[i := r]\<rparr>"
  by (simp add: device_of_def chars_set_chars owned_present map_upd_distinct owned_simps)

lemma view_rotate:
  "owned (d, st) \<Longrightarrow> view (store_rotate (d, st)) = multi_rotate (device_of (d, st))"
  by (simp add: store_rotate.simps multi_rotate_def store_current_rotor_def
      multi_current_rotor_def py_getitem_def device_of_set_chars split: prod.splits sum.splits)


lemma view_after_rotate:
  "owned (d, st) \<Longrightarrow>
   view (case store_rotate (d, st) of (Inl e, s') \<Rightarrow> (Inl e, s') | (Inr u, s') \<Rightarrow> (Inr k, s')) =
     (case multi_rotate (device_of (d, st)) of
        (Inl e, d') \<Rightarrow> (Inl e, d') | (Inr u, d') \<Rightarrow> (Inr k, d'))"
  using view_rotate [of d st] by (auto simp: view_def split: sum.splits prod.splits)

lemma view_encrypt_char:
  "owned s \<Longrightarrow>
   view (store_encrypt_char c s) = multi_encrypt_char c (device_of s)"
  by (cases s)
    (simp add: store_encrypt_char.simps multi_encrypt_char_def store_next_rotor_cases
      multi_next_rotor_cases view_after_rotate device_of_cursor owned_simps next_idx_def
      py_getitem_def split: sum.splits)

lemma view_decrypt_char:
  "owned s \<Longrightarrow>
   view (store_decrypt_char c s) = multi_decrypt_char c (device_of s)"
  by (cases s)
    (simp add: store_decrypt_char.simps multi_decrypt_char_def store_next_rotor_cases
      multi_next_rotor_cases view_after_rotate device_of_cursor owned_simps next_idx_def
      py_getitem_def split: sum.splits)

subsection \<open>What a call leaves alone\<close>

lemma keeps_refl [simp]: "keeps a s s"
  by (simp add: keeps_def)

lemma keeps_trans: "keeps a s s' \<Longrightarrow> keeps a s' s'' \<Longrightarrow> keeps a s s''"
  by (auto simp: keeps_def)

lemma keeps_cursor [simp]: "keeps a (d, st) (d\<lparr>cursor := i\<rparr>, st)"
  by (simp add: keeps_def)

lemma keeps_next_rotor: "keeps a s (snd (store_next_rotor s))"
  by (cases s) (simp add: store_next_rotor_cases)

lemma keeps_rotate: "keeps a s (snd (store_rotate s))"
  by (cases s)
    (auto simp: store_rotate.simps store_current_rotor_def py_getitem_def keeps_def
      split: sum.splits prod.splits)

lemma keeps_after_rotate:
  "keeps a s (snd (case store_rotate s of (Inl e, s') \<Rightarrow> (Inl e, s') | (Inr u, s') \<Rightarrow> (Inr k, s')))"
  using keeps_rotate [of a s] by (auto split: sum.splits prod.splits)


lemma keeps_moved_rotate:
  "keeps a (d, st) (snd (case store_rotate (d\<lparr>cursor := i\<rparr>, st) of
      (Inl e, s') \<Rightarrow> (Inl e, s') | (Inr u, s') \<Rightarrow> (Inr k, s')))"
  by (rule keeps_trans [OF keeps_cursor keeps_after_rotate])

lemma keeps_encrypt_char: "keeps a s (snd (store_encrypt_char c s))"
  by (cases s)
    (simp add: store_encrypt_char.simps store_next_rotor_cases keeps_moved_rotate
      split: sum.splits)

lemma keeps_decrypt_char: "keeps a s (snd (store_decrypt_char c s))"
  by (cases s)
    (simp add: store_decrypt_char.simps store_next_rotor_cases keeps_moved_rotate
      split: sum.splits)

lemma keeps_loop:
  assumes "\<And>c s. keeps a s (snd (body c s))"
  shows "keeps a s (snd (for_each_char body cs out s))"
  by (rule for_each_char_invariant [where I = "keeps a s"]) (auto intro: keeps_trans assms)

lemma keeps_encrypt: "keeps a s (snd (store_encrypt p s))"
  unfolding store_encrypt_def by (rule keeps_loop) (rule keeps_encrypt_char)

lemma keeps_decrypt: "keeps a s (snd (store_decrypt c s))"
  unfolding store_decrypt_def by (rule keeps_loop) (rule keeps_decrypt_char)

lemma keeps_owned: "keeps a s s' \<Longrightarrow> owned s \<Longrightarrow> owned s'"
  by (simp add: keeps_def owned_def present_def list_all_iff)

lemma keeps_other:
  assumes "\<And>a. keeps a s s'" and "set (key_refs (fst s)) \<inter> set refs = {}"
  shows "map (chars (snd s')) refs = map (chars (snd s)) refs"
  using assms by (auto simp: keeps_def)

lemma keeps_device_of:
  assumes "\<And>a. keeps a s s'" and "set (key_refs (fst s)) \<inter> set (key_refs other) = {}"
  shows "device_of (other, snd s') = device_of (other, snd s)"
proof -
  from assms(1) [of 0] have "ints (snd s') = ints (snd s)"
    by (intro ints_cong) (simp add: keeps_def)
  with keeps_other [OF assms] show ?thesis by (simp add: device_of_def)
qed

subsection \<open>The loops\<close>

lemma view_loop:
  assumes step: "\<And>c s. owned s \<Longrightarrow> view (body c s) = body' c (device_of s)"
    and keep: "\<And>c s. keeps 0 s (snd (body c s))"
    and d: "owned s"
  shows "view (for_each_char body cs out s) = for_each_char body' cs out (device_of s)"
proof -
  let ?R = "\<lambda>s t. owned s \<and> device_of s = t"
  have "rel_prod (=) ?R (body c s) (body' c t)" if "?R s t" for c s t
    using that step [of s c] keeps_owned [OF keep [of s c]]
    by (cases "body c s"; cases "body' c t") (auto simp: view_def)
  with d have "rel_prod (=) ?R (for_each_char body cs out s) (for_each_char body' cs out (device_of s))"
    by (intro for_each_char_simulation [where R = ?R]) auto
  then show ?thesis
    by (cases "for_each_char body cs out s") (auto simp: view_def rel_prod_conv split: prod.splits)
qed

lemma view_encrypt:
  "owned s \<Longrightarrow> view (store_encrypt p s) = multi_encrypt p (device_of s)"
  unfolding store_encrypt_def multi_encrypt_def
  by (rule view_loop) (simp_all add: view_encrypt_char keeps_encrypt_char)

lemma view_decrypt:
  "owned s \<Longrightarrow> view (store_decrypt c s) = multi_decrypt c (device_of s)"
  unfolding store_decrypt_def multi_decrypt_def
  by (rule view_loop) (simp_all add: view_decrypt_char keeps_decrypt_char)


lemma fst_store_encrypt:
  "owned s \<Longrightarrow> fst (store_encrypt p s) = fst (multi_encrypt p (device_of s))"
  by (simp add: view_encrypt [symmetric] view_def)

lemma fst_store_decrypt:
  "owned s \<Longrightarrow> fst (store_decrypt c s) = fst (multi_decrypt c (device_of s))"
  by (simp add: view_decrypt [symmetric] view_def)

subsection \<open>Devices built from the same lists\<close>

lemma store_init_fresh:
  assumes "list_all (present st) ks" and "list_all (present st) refs"
  shows "set (key_refs (fst (store_init ks sp st))) \<inter> set refs = {}"
  using assms(2) by (auto simp: store_init_frame [OF assms(1)] list_all_iff present_def)

lemma store_init_other:
  assumes "list_all (present st) ks" and "list_all (present st) refs"
  shows "map (chars (snd (store_init ks sp st))) refs = map (chars st) refs"
  using assms(2) by (simp add: store_init_frame [OF assms(1)] list_all_iff)

lemma store_init_present:
  "list_all (present st) ks \<Longrightarrow> present st a \<Longrightarrow> present (snd (store_init ks sp st)) a"
  by (simp add: present_def store_init_frame)

lemma device_of_cong:
  "map (chars st') (key_refs d) = map (chars st) (key_refs d) \<Longrightarrow> int_lists st' = int_lists st \<Longrightarrow>
   device_of (d, st') = device_of (d, st)"
  by (simp add: device_of_def ints_cong [of st' st])

lemma keeps_present: "keeps a s s' \<Longrightarrow> present (snd s') = present (snd s)"
  by (simp add: keeps_def present_def fun_eq_iff)

text \<open>What a new device and its calls leave of the lists that existed before it.\<close>

lemma new_device_keeps:
  assumes ks: "list_all (present st) ks" and refs: "list_all (present st) refs"
    and s': "\<And>a. keeps a (store_init ks sp st) s'"
  shows "map (chars (snd s')) refs = map (chars st) refs"
    and "int_lists (snd s') = int_lists st"
    and "list_all (present (snd s')) refs"
proof -
  have "map (chars (snd s')) refs = map (chars (snd (store_init ks sp st))) refs"
    using s' store_init_fresh [OF ks refs] by (rule keeps_other)
  then show "map (chars (snd s')) refs = map (chars st) refs"
    by (simp only: store_init_other [OF ks refs])
  from s' [of 0] show "int_lists (snd s') = int_lists st"
    by (simp add: keeps_def store_init_frame [OF ks])
  from refs show "list_all (present (snd s')) refs"
    by (simp add: keeps_present [OF s'] list_all_iff store_init_present [OF ks])
qed

text \<open>A device built after another one has worked, from the lists the first one
  was built from, starts from those lists as they were.\<close>

lemma second_device:
  assumes ks: "list_all (present st) ks"
    and s': "\<And>a. keeps a (store_init ks sp st) s'"
  shows "device_of (store_init ks sp (snd s')) = multi_init (map (chars st) ks) (ints st sp)"
    and "owned (store_init ks sp (snd s'))"
proof -
  note keeps = new_device_keeps [OF ks ks s']
  show "device_of (store_init ks sp (snd s')) = multi_init (map (chars st) ks) (ints st sp)"
    unfolding device_of_init [OF keeps(3)] keeps(1) ints_cong [OF keeps(2)] ..
  from keeps(3) show "owned (store_init ks sp (snd s'))" by (rule owned_init)
qed

lemma other_device_kept:
  assumes ks: "list_all (present st) ks" and other: "list_all (present st) (key_refs other)"
    and s': "\<And>a. keeps a (store_init ks sp st) s'"
  shows "device_of (other, snd s') = device_of (other, st)"
  using new_device_keeps(1,2) [OF ks other s'] by (rule device_of_cong)

lemma new_device_kept:
  assumes ks: "list_all (present st) ks" and other: "list_all (present st) (key_refs other)"
    and s': "\<And>a. keeps a (other, snd (store_init ks sp st)) s'"
  shows "device_of (fst (store_init ks sp st), snd s') = device_of (store_init ks sp st)"
proof -
  from store_init_fresh [OF ks other, of sp]
  have "set (key_refs (fst (other, snd (store_init ks sp st)))) \<inter>
      set (key_refs (fst (store_init ks sp st))) = {}"
    by auto
  with s' have "device_of (fst (store_init ks sp st), snd s') =
      device_of (fst (store_init ks sp st), snd (other, snd (store_init ks sp st)))"
    by (rule keeps_device_of)
  then show ?thesis by simp
qed

lemma device_of_speeds:
  assumes "speeds_ref d < length (int_lists st)"
  shows "device_of (d, st\<lparr>int_lists := (int_lists st)[speeds_ref d := v]\<rparr>) =
     (device_of (d, st))\<lparr>speeds := v\<rparr>"
proof -
  have "chars (st\<lparr>int_lists := (int_lists st)[speeds_ref d := v]\<rparr>) = chars st"
    by (simp add: chars_def fun_eq_iff)
  with assms show ?thesis by (simp add: device_of_def ints_def)
qed

lemma owned_speeds [simp]: "owned (d, st\<lparr>int_lists := l\<rparr>) \<longleftrightarrow> owned (d, st)"
proof -
  have "present (st\<lparr>int_lists := l\<rparr>) = present st"
    by (simp add: present_def next_addr_def fun_eq_iff)
  then show ?thesis by (simp add: owned_def)
qed

lemma store_demo_eq: "store_demo rotors = multi_demo rotors"
proof -
  let ?k = "new_rotors rotors empty_store"
  let ?s = "alloc_ints demo_speeds (snd ?k)"
  let ?alice = "store_init (fst ?k) (fst ?s) (snd ?s)"
  let ?bob = "store_init (fst ?k) (fst ?s) (snd (snd (store_encrypt demo_plaintext ?alice)))"
  let ?d = "multi_init rotors demo_speeds"
  have ks: "list_all (present (snd ?s)) (fst ?k)"
    by (simp add: list_all_iff present_def new_rotors_refs new_rotors_next)
  have init: "multi_init (map (chars (snd ?s)) (fst ?k)) (ints (snd ?s) (fst ?s)) = ?d"
    by (simp add: new_rotors_chars)
  have alice: "owned ?alice" "device_of ?alice = ?d"
    using owned_init [OF ks] device_of_init [OF ks] by (simp_all only: init)
  have bob: "owned ?bob" "device_of ?bob = ?d"
    using second_device [OF ks keeps_encrypt, of "fst ?s" demo_plaintext]
    by (simp_all only: init)
  show ?thesis
    unfolding store_demo_def multi_demo_def Let_def
      fst_store_encrypt [OF alice(1)] fst_store_decrypt [OF bob(1)] alice(2) bob(2) ..
qed

subsection \<open>Refinement, separation and the shared list of speeds\<close>

text \<open>
  C12 (refinement). The methods on the store implement the methods on values:
  for a device that owns its rotors, \<open>encrypt\<close> and \<open>decrypt\<close> return what the
  methods of theory \<open>MultiRotorDevice\<close> return on the device it stands for, leave
  the store in a state that stands for the device they leave, and keep the
  ownership. The constructor, given rotors that exist, returns a device that
  owns its rotors and stands for \<open>multi_init\<close> of the contents of the lists it
  was given.
\<close>

theorem store_refines:
  "(owned s \<longrightarrow>
      view (store_encrypt p s) = multi_encrypt p (device_of s) \<and>
      view (store_decrypt c s) = multi_decrypt c (device_of s) \<and>
      owned (snd (store_encrypt p s)) \<and> owned (snd (store_decrypt c s))) \<and>
   (list_all (present st) ks \<longrightarrow>
      owned (store_init ks sp st) \<and>
      device_of (store_init ks sp st) = multi_init (map (chars st) ks) (ints st sp))"
  by (simp add: view_encrypt view_decrypt keeps_owned [OF keeps_encrypt [of 0]]
      keeps_owned [OF keeps_decrypt [of 0]] owned_init device_of_init)

theorem store_refines_witness:
  "list_all (present (snd (alloc_ints [2, 3]
        (snd (new_rotors [rotate 1 alphabet, rotate 7 alphabet] empty_store))))) [0, 1] \<and>
   key_refs (fst (store_init [0, 1] 0 (snd (alloc_ints [2, 3]
        (snd (new_rotors [rotate 1 alphabet, rotate 7 alphabet] empty_store)))))) = [2, 3] \<and>
   device_of (store_init [0, 1] 0 (snd (alloc_ints [2, 3]
        (snd (new_rotors [rotate 1 alphabet, rotate 7 alphabet] empty_store))))) =
     multi_init [rotate 1 alphabet, rotate 7 alphabet] [2, 3] \<and>
   view (store_encrypt ''Attack'' (store_init [0, 1] 0 (snd (alloc_ints [2, 3]
        (snd (new_rotors [rotate 1 alphabet, rotate 7 alphabet] empty_store)))))) =
     multi_encrypt ''Attack'' (multi_init [rotate 1 alphabet, rotate 7 alphabet] [2, 3]) \<and>
   fst (store_encrypt ''Attack'' (store_init [0, 1] 0 (snd (alloc_ints [2, 3]
        (snd (new_rotors [rotate 1 alphabet, rotate 7 alphabet] empty_store)))))) = Inr ''HU3DPP''"
proof -
  let ?st = "(snd (alloc_ints [2, 3]
        (snd (new_rotors [rotate 1 alphabet, rotate 7 alphabet] empty_store))))"
  have p: "list_all (present ?st) [0, 1]" by code_simp
  have k: "key_refs (fst (store_init [0, 1] 0 ?st)) = [2, 3]" by code_simp
  have c: "map (chars ?st) [0, 1] = [rotate 1 alphabet, rotate 7 alphabet]" "ints ?st 0 = [2, 3]"
    by code_simp+
  have e: "fst (store_encrypt ''Attack'' (store_init [0, 1] 0 ?st)) = Inr ''HU3DPP''"
    by code_simp
  from store_refines [of "store_init [0, 1] 0 ?st" "''Attack''" "[]" ?st "[0, 1]" 0] p
  have "device_of (store_init [0, 1] 0 ?st) = multi_init (map (chars ?st) [0, 1]) (ints ?st 0)"
    and "view (store_encrypt ''Attack'' (store_init [0, 1] 0 ?st)) =
      multi_encrypt ''Attack'' (multi_init (map (chars ?st) [0, 1]) (ints ?st 0))"
    by simp_all
  with p k e show ?thesis unfolding c by (intro conjI)
qed

text \<open>
  C11 (safety). Two devices never share a rotor. A device built from rotors that
  exist holds lists that did not exist before, so none of them is a list of
  its caller or of a device \<open>other\<close> built earlier; building it, and every
  \<open>encrypt\<close> and \<open>decrypt\<close> on it, leave \<open>other\<close> and the caller's rotors as they
  were, and the calls on \<open>other\<close> leave the new device as it was.
\<close>

theorem devices_share_no_rotor:
  assumes "list_all (present st) ks" and "list_all (present st) (key_refs other)"
    and "s = store_init ks sp st"
  shows "set (key_refs (fst s)) \<inter> (set ks \<union> set (key_refs other)) = {} \<and>
     device_of (other, snd s) = device_of (other, st) \<and>
     device_of (other, snd (snd (store_encrypt p s))) = device_of (other, st) \<and>
     device_of (other, snd (snd (store_decrypt c s))) = device_of (other, st) \<and>
     map (chars (snd (snd (store_encrypt p s)))) ks = map (chars st) ks \<and>
     map (chars (snd (snd (store_decrypt c s)))) ks = map (chars st) ks \<and>
     device_of (fst s, snd (snd (store_encrypt p (other, snd s)))) = device_of s \<and>
     device_of (fst s, snd (snd (store_decrypt c (other, snd s)))) = device_of s"
  unfolding assms(3) Int_Un_distrib
  using store_init_fresh [OF assms(1) assms(1)] store_init_fresh [OF assms(1) assms(2)]
    other_device_kept [OF assms(1,2) keeps_refl]
    other_device_kept [OF assms(1,2) keeps_encrypt] other_device_kept [OF assms(1,2) keeps_decrypt]
    new_device_keeps(1) [OF assms(1) assms(1) keeps_encrypt]
    new_device_keeps(1) [OF assms(1) assms(1) keeps_decrypt]
    new_device_kept [OF assms(1,2) keeps_encrypt] new_device_kept [OF assms(1,2) keeps_decrypt]
  by (intro conjI) simp_all

theorem devices_share_no_rotor_witness:
  "list_all (present (snd (store_init [0, 1] 0 (snd (alloc_ints [2, 3]
        (snd (new_rotors [rotate 1 alphabet, rotate 7 alphabet] empty_store))))))) ([0, 1] @ key_refs (fst (store_init [0, 1] 0 (snd (alloc_ints [2, 3]
        (snd (new_rotors [rotate 1 alphabet, rotate 7 alphabet] empty_store))))))) \<and>
   key_refs (fst (store_init [0, 1] 0 (snd (store_init [0, 1] 0 (snd (alloc_ints [2, 3]
        (snd (new_rotors [rotate 1 alphabet, rotate 7 alphabet] empty_store)))))))) = [4, 5] \<and>
   device_of (fst (store_init [0, 1] 0 (snd (alloc_ints [2, 3]
        (snd (new_rotors [rotate 1 alphabet, rotate 7 alphabet] empty_store))))), snd (snd (store_encrypt ''Attack'' (store_init [0, 1] 0 (snd (store_init [0, 1] 0 (snd (alloc_ints [2, 3]
        (snd (new_rotors [rotate 1 alphabet, rotate 7 alphabet] empty_store)))))))))) =
     multi_init [rotate 1 alphabet, rotate 7 alphabet] [2, 3] \<and>
   map (chars (snd (snd (store_encrypt ''Attack'' (store_init [0, 1] 0 (snd (store_init [0, 1] 0 (snd (alloc_ints [2, 3]
        (snd (new_rotors [rotate 1 alphabet, rotate 7 alphabet] empty_store))))))))))) [0, 1] =
     [rotate 1 alphabet, rotate 7 alphabet]"
proof -
  let ?alice = "(store_init [0, 1] 0 (snd (alloc_ints [2, 3]
        (snd (new_rotors [rotate 1 alphabet, rotate 7 alphabet] empty_store)))))"
  have p: "list_all (present (snd ?alice)) [0, 1]"
    "list_all (present (snd ?alice)) (key_refs (fst ?alice))"
    by code_simp+
  have k: "key_refs (fst (store_init [0, 1] 0 (snd ?alice))) = [4, 5]" by code_simp
  have c: "map (chars (snd (snd (store_encrypt ''Attack'' (store_init [0, 1] 0 (snd ?alice))))))
      [0, 1] = [rotate 1 alphabet, rotate 7 alphabet]"
    by code_simp
  have d: "device_of (fst ?alice, snd ?alice) =
      multi_init [rotate 1 alphabet, rotate 7 alphabet] [2, 3]"
    by code_simp
  from devices_share_no_rotor [OF p refl, of 0 "''Attack''" "[]"] p k c
  show ?thesis unfolding d by (intro conjI) simp_all
qed

text \<open>
  C21 (equivalence). The exchange of the script on the store, with the six
  rotors appended to \<open>key\<close>, the list \<open>speeds\<close> and the two devices built from the
  same two lists, computes what \<open>multi_demo\<close> computes on values: \<open>bob\<close> starts
  from the rotors as they were drawn, although \<open>alice\<close> has rotated hers.
\<close>

theorem store_demo_is_multi_demo: "store_demo rotors = multi_demo rotors"
  by (rule store_demo_eq)

theorem store_demo_is_multi_demo_witness:
  "snd (store_demo
     [''BCDEFGHIJKLMNOPQRSTUVWXYZ0123456789. A'', ''HIJKLMNOPQRSTUVWXYZ0123456789. ABCDEFG'',
      ''LMNOPQRSTUVWXYZ0123456789. ABCDEFGHIJK'', ''TUVWXYZ0123456789. ABCDEFGHIJKLMNOPQRS'',
      ''XYZ0123456789. ABCDEFGHIJKLMNOPQRSTUVW'', ''456789. ABCDEFGHIJKLMNOPQRSTUVWXYZ0123'']) =
     Inr ''ATTACK LOCATION 8675309 AT DAWN. DO NOT ENGAGE ENEMY BEFORE THEN.''"
proof -
  let ?k = "[''BCDEFGHIJKLMNOPQRSTUVWXYZ0123456789. A'', ''HIJKLMNOPQRSTUVWXYZ0123456789. ABCDEFG'',
      ''LMNOPQRSTUVWXYZ0123456789. ABCDEFGHIJK'', ''TUVWXYZ0123456789. ABCDEFGHIJKLMNOPQRS'',
      ''XYZ0123456789. ABCDEFGHIJKLMNOPQRSTUVW'', ''456789. ABCDEFGHIJKLMNOPQRSTUVWXYZ0123'']"
  have k: "?k = map (\<lambda>n. rotate n alphabet) [1, 7, 11, 19, 23, 30]" by code_simp
  have "sampled_key ?k" unfolding k by (simp add: sampled_key_def valid_rotor_def)
  from multi_demo_result [OF this] show ?thesis
    unfolding store_demo_is_multi_demo [of ?k] by auto
qed



end
