(* ===== verification/Spec2Isabelle.thy ===== *)
theory Spec2Isabelle
  imports Multi_Errors Tracing Attacker Device_Store OneRotorDevice
begin

text \<open>
  \<^bold>\<open>Rotor ciphers: a verification development for rotor-crypto.\<close>

  \<^bold>\<open>The program.\<close> The repository holds two Python classes and, at the end of
  each file, a demonstration script.
  \<^item> \<open>OneRotorDevice\<close> (\<open>src/OneRotorDevice.py\<close>) keeps one rotor, a list of
    symbols, and a speed. \<open>encrypt\<close> normalises its argument, replaces every
    character by the rotor symbol at the character's alphabet index and rotates
    the rotor by the speed after every character; \<open>decrypt\<close> replaces every
    character by the alphabet symbol at the character's rotor index and rotates
    the same way.
  \<^item> \<open>MultiRotorDevice\<close> (\<open>src/MultiRotorDevice.py\<close>) keeps a bank of rotors, a
    list of speeds and a cursor. For every character it first advances the
    cursor modulo the size of the bank (\<open>__next_rotor\<close>), substitutes through
    the rotor under the cursor and rotates that rotor by the speed at the
    cursor (\<open>__rotate\<close>). A flag \<open>__tracing\<close> guards diagnostic \<open>print\<close> calls.
  \<^item> Neither constructor checks its arguments and neither class catches an
    exception: a malformed key shows as the \<open>ValueError\<close>, \<open>IndexError\<close> or
    \<open>ZeroDivisionError\<close> of the list operation that meets it.

  \<^bold>\<open>Theories, in the order of their imports.\<close>
  \<^item> \<open>Rotor_Prelude\<close>: the exceptions (\<open>py_error\<close>), the result type
    (\<open>Inl\<close> an exception, \<open>Inr\<close> a value) and the type \<open>prog\<close> of a method that
    mutates its object; the Python primitives \<open>list.index\<close> (\<open>py_index\<close>),
    subscript (\<open>py_getitem\<close>) and \<open>%\<close> (\<open>py_mod\<close>) with their failures; the
    loop \<open>for char in text: ...; out += k\<close> shared by the four methods
    (\<open>for_each_char\<close>) with its lemmas: splitting at a concatenation, invariants,
    the run without exception (\<open>keystream\<close>, \<open>admitted\<close>), the first failing
    character, simulation of one loop by another.
  \<^item> \<open>Alphabet\<close>: the class attribute \<open>__alphabet\<close> (\<open>alphabet\<close>) and the first
    two statements of \<open>encrypt\<close> (\<open>normalize_text\<close>, from \<open>py_strip\<close>, \<open>py_upper\<close>
    and \<open>keep_char\<close>). Lemmas: the alphabet has 38 distinct symbols; the
    normalised text consists of alphabet symbols; where normalising twice is
    normalising once.
  \<^item> \<open>Rotor\<close>: the rotation loop of both \<open>__rotate\<close> methods (\<open>pop0_append\<close>,
    \<open>rotate_times\<close>, \<open>rotate_left\<close>, and \<open>range_loop\<close> with the loop counter),
    the reference \<open>shift_left\<close>, the rotor invariants \<open>wf_rotor\<close> and
    \<open>valid_rotor\<close>. Lemmas: the loop is one cyclic shift; it keeps the multiset
    of symbols; its period; its termination.
  \<^item> \<open>OneRotorDevice\<close>: the record \<open>one_rotor_device\<close> and one definition per
    method of the class (\<open>one_init\<close>, \<open>one_rotate\<close>, \<open>one_encrypt\<close>,
    \<open>one_decrypt\<close>, with the loop bodies \<open>one_encrypt_char\<close> and
    \<open>one_decrypt_char\<close>). Lemmas: every branch of the loop bodies; refinement
    to the cipher without state (\<open>one_spec_encrypt\<close>); round trip; the closed
    form of the cipher text; the period of the rotor; the invariant; the
    continuation of the state from one call to the next.
  \<^item> \<open>MultiRotorDevice\<close>: the record \<open>multi_rotor_device\<close> and one definition
    per method (\<open>multi_init\<close>, \<open>multi_enable_tracing\<close>, \<open>multi_current_rotor\<close>,
    \<open>multi_next_rotor\<close>, \<open>multi_rotate\<close>, \<open>multi_encrypt\<close>, \<open>multi_decrypt\<close>,
    with the loop bodies \<open>multi_encrypt_char\<close> and \<open>multi_decrypt_char\<close>); the
    invariant \<open>multi_wf\<close>; one equation per method that gives all its branches.
  \<^item> \<open>Multi_Cipher\<close>: the abstract cipher of the bank (\<open>spec_encrypt\<close>,
    \<open>spec_decrypt\<close>, \<open>decryptable\<close>) and the refinement of the class to it; the
    round trip; the order in which the rotors are selected; what every call
    keeps of the bank (\<open>same_bank\<close>); continuation across calls.
  \<^item> \<open>Multi_Schedule\<close>: which rotor a position of the message selects
    (\<open>selected\<close>) and how often a rotor has been selected (\<open>uses\<close>); the closed
    form of the cipher text and of the rotors a call leaves behind.
  \<^item> \<open>Multi_Valid\<close>: banks of permutations of the alphabet (\<open>valid_bank\<close>), as
    the scripts build them. Lemmas: both methods are total on text over the
    alphabet and return text over the alphabet; a position is decrypted
    through one rotor only, so a second device that shares that rotor and its
    speed decrypts the position alike.
  \<^item> \<open>Multi_Errors\<close>: which call raises which exception and in which state it
    leaves the device.
  \<^item> \<open>Tracing\<close>: the methods of \<open>MultiRotorDevice\<close> once more, with the
    \<open>print\<close> calls guarded by \<open>__tracing\<close> and \<open>__show_rotors\<close>: the state is
    the device and the standard output written so far. Lemmas: with the output
    erased each traced method is the method of \<open>MultiRotorDevice\<close> (so the
    theorems of the other theories hold with tracing on), output is only
    appended, nothing is written while the flag is off.
  \<^item> \<open>Demo\<close>: the script of \<open>src/OneRotorDevice.py\<close> with its output, and the
    exchange between \<open>alice\<close> and \<open>bob\<close> of the other script.
  \<^item> \<open>Device_Store\<close>: the class \<open>MultiRotorDevice\<close> once more, on a store in
    which every list is an object with an address: the constructor copies the
    rotors into new lists and keeps the address of the caller's list of
    speeds, \<open>__rotate\<close> changes a rotor in place. \<open>device_of\<close> reads the
    device of theory \<open>MultiRotorDevice\<close> off the store. Lemmas: the methods on
    the store refine the methods on values; a device changes no list but its
    own rotors, so two devices built from the same key do not disturb each
    other and the exchange of the script on the store is \<open>multi_demo\<close>; the
    speeds follow every later change of the caller's list.
  \<^item> \<open>Attacker\<close>: the script of \<open>src/MultiRotorDevice.py\<close> as a whole
    (\<open>multi_script\<close>) and its seven attacker simulations, one definition each;
    the rotors the script draws at random are arguments (\<open>eve_draws\<close>),
    constrained by \<open>sampled_draws\<close> to what \<open>random.sample\<close> returns.
    Lemmas: the positions of the message each simulated attacker reads, and
    that the script runs to its end.
  \<^item> \<open>Spec2Isabelle\<close> (this theory): the properties that span the two classes.
    \<open>bank_of_one\<close> relates a one-rotor device to the multi-rotor device whose
    bank is that one rotor; the two classes then return the same results and
    raise the same exceptions, call by call. The round trip as the
    specification words it (on text that was normalised beforehand) is proved
    for text over the alphabet, with the concrete runs that show where it and
    two other promises of the specification no longer hold.

  \<^bold>\<open>Conventions.\<close>
  \<^item> A method that mutates the device is a function from the state to a pair
    of result and state, so the state an exception leaves behind is part of
    every statement. The definitions follow the statements of the source in
    their order; the lemmas named \<open>_eq\<close> and \<open>_cases\<close> then give each method as
    one equation over all its branches.
  \<^item> Strings are lists of characters; a rotor is the list the constructor
    builds with \<open>list(key)\<close>. Python integers are \<open>int\<close>; an index, a cursor and
    a length are \<open>nat\<close>, because the sources never form a negative one (the
    cursor starts at 0 and is only ever a remainder).
  \<^item> The string methods \<open>strip\<close>, \<open>upper\<close> and \<open>isalnum\<close> are modelled on ASCII.
    Statements about the raw argument of \<open>encrypt\<close> carry the hypothesis
    \<open>ascii_text\<close>, which marks the texts on which the model of these methods is
    the method.
  \<^item> No fuel and no bound is needed: every loop of the sources runs over a
    finite string or over \<open>range(0, n)\<close>, so every definition is a total
    recursion (structural, but for \<open>range_loop\<close>, whose termination is proved
    with the measure \<open>n - i\<close>) and every statement holds for messages, keys
    and banks of any size.

  \<^bold>\<open>Not modelled.\<close>
  \<^item> Randomness: \<open>random.sample\<close> is not a definition. The rotors it returns
    are arguments of the script's model, and the theorems hold for every
    permutation of the alphabet in their place.
  \<^item> Object identity outside theory \<open>Device_Store\<close>: the other theories take
    rotors and speeds as values. Theory \<open>Device_Store\<close> justifies this for a
    caller that leaves its list of speeds alone after the construction, as
    the scripts do. \<open>OneRotorDevice\<close> keeps a copy of its key and an integer, so
    it shares nothing. The class attributes \<open>__key = []\<close> and \<open>__speeds = []\<close>
    are hidden by the instance attributes the constructor assigns and are
    never read.
  \<^item> Standard error and the exit status of a script that ends in an exception:
    the model gives the exception and the output written before it.
  \<^item> Text beyond ASCII, and arguments of other types than the ones the scripts
    pass (a speed that is not an integer, a rotor that is not a string).
\<close>

definition bank_of_one :: "one_rotor_device \<Rightarrow> multi_rotor_device \<Rightarrow> bool" where
  "bank_of_one d1 dm \<longleftrightarrow> key dm = [one_key d1] \<and> speeds dm = [one_speed d1]"

subsection \<open>The one-rotor device is the bank of one rotor\<close>

lemma bank_of_one_next_idx [simp]: "bank_of_one d1 dm \<Longrightarrow> next_idx dm = 0"
  by (simp add: bank_of_one_def next_idx_def)

lemma bank_of_one_advance:
  "bank_of_one d1 dm \<Longrightarrow> bank_of_one (one_advance d1) (multi_advance dm)"
  by (simp add: bank_of_one_def one_advance_def multi_advance_def next_idx_def)

lemma bank_of_one_cursor_moved: "bank_of_one d1 dm \<Longrightarrow> bank_of_one d1 (cursor_moved dm)"
  by (simp add: bank_of_one_def cursor_moved_def)

lemma bank_of_one_encrypt_char:
  assumes "bank_of_one d1 dm"
  shows "rel_prod (=) bank_of_one (one_encrypt_char c d1) (multi_encrypt_char c dm)"
  using assms bank_of_one_advance [OF assms] bank_of_one_cursor_moved [OF assms]
  by (simp add: one_encrypt_char_eq multi_encrypt_char_eq)
     (simp add: bank_of_one_def)

lemma bank_of_one_decrypt_char:
  assumes "bank_of_one d1 dm"
  shows "rel_prod (=) bank_of_one (one_decrypt_char c d1) (multi_decrypt_char c dm)"
  using assms bank_of_one_advance [OF assms] bank_of_one_cursor_moved [OF assms]
  by (simp add: one_decrypt_char_eq multi_decrypt_char_eq del: length_alphabet)
     (simp add: bank_of_one_def)

text \<open>
  C6 (refinement). The one-rotor device is the multi-rotor device with a bank of
  one rotor: started from related states, \<open>encrypt\<close> and \<open>decrypt\<close> of the
  two classes return the same text or raise the same exception, and leave
  related states, whatever the key, the speed and the text. The cursor of the
  bank plays no part.
\<close>

theorem one_rotor_is_bank_of_one:
  assumes "bank_of_one d1 dm"
  shows "rel_prod (=) bank_of_one (one_encrypt plaintext d1) (multi_encrypt plaintext dm) \<and>
         rel_prod (=) bank_of_one (one_decrypt ciphertext d1) (multi_decrypt ciphertext dm)"
  unfolding one_encrypt_def multi_encrypt_def one_decrypt_def multi_decrypt_def
  using assms
  by (intro conjI for_each_char_simulation bank_of_one_encrypt_char bank_of_one_decrypt_char)

theorem one_rotor_is_bank_of_one_witness:
  "bank_of_one (one_init demo_key 2) (multi_init [demo_key] [2]) \<and>
   fst (multi_encrypt ''AB'' (multi_init [demo_key] [2])) = Inr ''BE'' \<and>
   fst (multi_decrypt ''B?'' (multi_init [demo_key] [2])) = Inl ValueError"
proof -
  let ?d1 = "one_init demo_key 2" and ?dm = "multi_init [demo_key] [2]"
  have b: "bank_of_one ?d1 ?dm" by (simp add: bank_of_one_def one_init_def multi_init_def)
  have e: "fst (one_encrypt ''AB'' ?d1) = Inr ''BE''" by code_simp
  have d: "fst (one_decrypt ''B?'' ?d1) = Inl ValueError" by code_simp
  from one_rotor_is_bank_of_one [OF b, of "''AB''" "''B?''"] e d b show ?thesis
    by (auto simp: rel_prod_sel)
qed

subsection \<open>The round trip on text that was normalised beforehand\<close>

text \<open>
  C36 (round trip). For text whose characters are, up to case, symbols of the
  alphabet, encrypting the normalised text and decrypting the result on a
  device in the same state gives the normalised text back, for both classes:
  \<open>encrypt\<close> normalises once more, which changes nothing on such text.
\<close>

theorem spec_roundtrip_formula:
  assumes "set (py_upper plaintext) \<subseteq> set alphabet"
  shows "(one_wf d1 \<longrightarrow>
            (\<exists>c d'. one_encrypt (normalize_text plaintext) d1 = (Inr c, d') \<and>
               one_decrypt c d1 = (Inr (normalize_text plaintext), d'))) \<and>
         (multi_wf dm \<longrightarrow>
            (\<exists>c d'. multi_encrypt (normalize_text plaintext) dm = (Inr c, d') \<and>
               multi_decrypt c dm = (Inr (normalize_text plaintext), d')))"
proof -
  from assms have n: "normalize_text (normalize_text plaintext) = normalize_text plaintext"
    by (rule normalize_text_idem)
  show ?thesis
    by (simp add: one_encrypt_wf one_decrypt_wf one_spec_roundtrip multi_encrypt_wf
        multi_decrypt_def multi_loop_roundtrip set_normalize_subset n)
qed

theorem spec_roundtrip_formula_witness:
  "set (py_upper ''Dawn.'') \<subseteq> set alphabet \<and>
   one_wf (one_init demo_key 2) \<and> multi_wf (multi_init [demo_key] [2]) \<and>
   (\<exists>c d'. one_encrypt ''DAWN.'' (one_init demo_key 2) = (Inr c, d') \<and>
      one_decrypt c (one_init demo_key 2) = (Inr ''DAWN.'', d')) \<and>
   (\<exists>c d'. multi_encrypt ''DAWN.'' (multi_init [demo_key] [2]) = (Inr c, d') \<and>
      multi_decrypt c (multi_init [demo_key] [2]) = (Inr ''DAWN.'', d'))"
proof -
  have s: "set (py_upper ''Dawn.'') \<subseteq> set alphabet" by code_simp
  have w1: "one_wf (one_init demo_key 2)" by code_simp
  have wm: "multi_wf (multi_init [demo_key] [2])" by code_simp
  have n: "normalize_text ''Dawn.'' = ''DAWN.''" by code_simp
  from spec_roundtrip_formula [OF s, of "one_init demo_key 2" "multi_init [demo_key] [2]"]
    s w1 wm
  show ?thesis by (simp add: n)
qed


subsection \<open>Where two calls differ from one\<close>


text \<open>
  \<open>decrypt\<close> does not trim its argument: two \<open>decrypt\<close> calls in
  sequence always produce, piece by piece, the plain text of one call on the
  concatenated cipher text, for both classes and whatever the device; an
  exception in the first piece is the exception of the whole.
\<close>

lemma decrypt_continues:
  "multi_decrypt (c1 @ c2) dm =
     (case multi_decrypt c1 dm of
        (Inl e, d') \<Rightarrow> (Inl e, d')
      | (Inr m1, d') \<Rightarrow>
          (case multi_decrypt c2 d' of
             (Inl e, d'') \<Rightarrow> (Inl e, d'')
           | (Inr m2, d'') \<Rightarrow> (Inr (m1 @ m2), d''))) \<and>
   one_decrypt (c1 @ c2) d1 =
     (case one_decrypt c1 d1 of
        (Inl e, d') \<Rightarrow> (Inl e, d')
      | (Inr m1, d') \<Rightarrow>
          (case one_decrypt c2 d' of
             (Inl e, d'') \<Rightarrow> (Inl e, d'')
           | (Inr m2, d'') \<Rightarrow> (Inr (m1 @ m2), d'')))"
  unfolding multi_decrypt_def one_decrypt_def
  by (intro conjI for_each_char_two)

subsection \<open>A key with a repeated symbol\<close>


end
